(* ===== verification/NFS_Prelude.thy ===== *)
theory NFS_Prelude
  imports Main "HOL-Library.Word" "HOL-Library.Sublist"
begin

text \<open>
  Shared ground of the development: the machine integers of the Rust sources, the three
  outcomes of a Rust call (\<open>Ok\<close>, \<open>Err\<close>, a panic), byte strings with their big-endian
  integers, and the cursor operations of a byte buffer.

  A buffer (\<open>Bytes\<close>, \<open>&[u8]\<close>, \<open>Vec<u8>\<close>) is its list of bytes.  The reads on a buffer
  (\<open>get_u32\<close>, \<open>get_u64\<close>, \<open>advance\<close>, \<open>split_to\<close>, \<open>slice\<close>) panic when the buffer is too short;
  the model keeps the panic as a value, so that absence of panics is something to prove
  and not something the model assumes.
\<close>

unbundle bit_operations_syntax

type_synonym u8 = "8 word"
type_synonym u16 = "16 word"
type_synonym u32 = "32 word"
type_synonym u64 = "64 word"
type_synonym bytes = "u8 list"

text \<open>Collections used throughout: evaluation of the reader combinators, panic freedom of
  readers, and the round trips of the codecs.\<close>

named_theorems reader_simps "unfolding of the reader combinators"
named_theorems reader_safe "rules that establish panic freedom of a reader"
named_theorems roundtrip "decode after encode"

subsection \<open>Outcomes\<close>

datatype ('a, 'e) outcome = is_Ok: Ok 'a | is_Err: Err 'e | is_Panic: Panic

primrec and_then :: "('a, 'e) outcome \<Rightarrow> ('a \<Rightarrow> ('b, 'e) outcome) \<Rightarrow> ('b, 'e) outcome" where
  "and_then (Ok x) f = f x"
| "and_then (Err e) f = Err e"
| "and_then Panic f = Panic"

lemma and_then_eq_Ok [simp]:
  "and_then m f = Ok y \<longleftrightarrow> (\<exists>x. m = Ok x \<and> f x = Ok y)"
  by (cases m) auto

lemma and_then_eq_Err:
  "and_then m f = Err e \<longleftrightarrow> m = Err e \<or> (\<exists>x. m = Ok x \<and> f x = Err e)"
  by (cases m) auto

lemma and_then_eq_Panic:
  "and_then m f = Panic \<longleftrightarrow> m = Panic \<or> (\<exists>x. m = Ok x \<and> f x = Panic)"
  by (cases m) auto

lemma and_then_assoc: "and_then (and_then m f) g = and_then m (\<lambda>x. and_then (f x) g)"
  by (cases m) auto

lemma and_then_cong [fundef_cong]:
  "m = m' \<Longrightarrow> (\<And>x. m' = Ok x \<Longrightarrow> f x = f' x) \<Longrightarrow> and_then m f = and_then m' f'"
  by (cases m') auto

subsection \<open>Machine integers\<close>

definition saturating_add :: "'a::len word \<Rightarrow> 'a word \<Rightarrow> 'a word" where
  "saturating_add a b = (if unat a + unat b < 2 ^ LENGTH('a) then a + b else - 1)"

definition saturating_sub :: "'a::len word \<Rightarrow> 'a word \<Rightarrow> 'a word" where
  "saturating_sub a b = (if b \<le> a then a - b else 0)"

definition checked_add :: "'a::len word \<Rightarrow> 'a word \<Rightarrow> 'a word option" where
  "checked_add a b = (if unat a + unat b < 2 ^ LENGTH('a) then Some (a + b) else None)"

definition checked_sub :: "'a::len word \<Rightarrow> 'a word \<Rightarrow> 'a word option" where
  "checked_sub a b = (if b \<le> a then Some (a - b) else None)"

lemma unat_max_word: "unat (- 1 :: 'a::len word) = 2 ^ LENGTH('a) - 1"
  by (simp add: unsigned_minus_1_eq_mask mask_eq_exp_minus_1)

lemma unat_add_no_overflow:
  "unat a + unat b < 2 ^ LENGTH('a) \<Longrightarrow> unat (a + b) = unat a + unat (b :: 'a::len word)"
  by (simp add: unat_word_ariths)

lemma unat_sub_le: "b \<le> a \<Longrightarrow> unat (a - b) = unat a - unat (b :: 'a::len word)"
  by (rule unat_sub)

lemma unat_saturating_add:
  "unat (saturating_add a b) = min (unat a + unat b) (2 ^ LENGTH('a) - 1)"
  for a b :: "'a::len word"
  by (auto simp: saturating_add_def unat_max_word unat_add_no_overflow min_def)

lemma unat_saturating_sub: "unat (saturating_sub a b) = unat a - unat b"
  by (auto simp: saturating_sub_def unat_sub_le word_le_nat_alt)

lemma checked_add_Some:
  "checked_add a b = Some c \<Longrightarrow> unat c = unat a + unat b \<and> c = a + b"
  by (auto simp: checked_add_def unat_add_no_overflow split: if_splits)

text \<open>The overflow tests by comparison, which is how they compute.\<close>

lemma no_overflow_iff: "unat a + unat b < 2 ^ LENGTH('a) \<longleftrightarrow> a \<le> a + b" for a b :: "'a::len word"
proof (cases "unat a + unat b < 2 ^ LENGTH('a)")
  case True
  then show ?thesis by (simp add: word_le_nat_alt unat_add_no_overflow)
next
  case False
  let ?m = "2 ^ LENGTH('a) :: nat"
  have b: "unat b < ?m" and a: "unat a < ?m" by (rule unsigned_less)+
  from False a b have less: "unat a + unat b - ?m < ?m" and lt: "\<not> unat a \<le> unat a + unat b - ?m"
    and ge: "?m \<le> unat a + unat b"
    by linarith+
  have "unat (a + b) = (unat a + unat b) mod ?m" by (simp add: unat_word_ariths)
  also have "\<dots> = unat a + unat b - ?m"
    using le_mod_geq [OF ge] mod_less [OF less] by (rule trans)
  finally show ?thesis using False lt by (simp only: word_le_nat_alt)
qed

lemma checked_add_code [code]: "checked_add a b = (if a \<le> a + b then Some (a + b) else None)"
  by (simp add: checked_add_def no_overflow_iff)

lemma saturating_add_code [code]: "saturating_add a b = (if a \<le> a + b then a + b else - 1)"
  by (simp add: saturating_add_def no_overflow_iff)

lemma unat_word_less_exp: "unat (a :: 'a::len word) < 2 ^ LENGTH('a)"
  by (rule unsigned_less)

lemma unat_u32_less [simp]: "unat (a :: u32) < 4294967296"
  using unat_word_less_exp [of a] by simp

lemma unat_u64_less [simp]: "unat (a :: u64) < 18446744073709551616"
  using unat_word_less_exp [of a] by simp

lemma unat_u64_le: "unat (a :: u64) \<le> 18446744073709551615"
  using unat_u64_less [of a] by linarith

lemma unat_u32_le: "unat (a :: u32) \<le> 4294967295"
  using unat_u32_less [of a] by linarith

lemma unat_u8_less [simp]: "unat (a :: u8) < 256"
  using unat_word_less_exp [of a] by simp

lemma unat_ucast_up: "LENGTH('a) \<le> LENGTH('b) \<Longrightarrow> unat (ucast (a :: 'a::len word) :: 'b::len word) = unat a"
proof -
  assume "LENGTH('a) \<le> LENGTH('b)"
  then have "(2::nat) ^ LENGTH('a) \<le> 2 ^ LENGTH('b)" by simp
  then have "unat a < 2 ^ LENGTH('b)"
    using unat_word_less_exp [of a] by (rule order_less_le_trans [rotated])
  then show ?thesis by (simp add: unsigned_ucast_eq take_bit_eq_mod)
qed

lemma unat_ucast_u32_u64 [simp]: "unat (ucast (a :: u32) :: u64) = unat a"
  by (rule unat_ucast_up) simp

lemma unat_of_nat_small: "x < 2 ^ LENGTH('a) \<Longrightarrow> unat (word_of_nat x :: 'a::len word) = x"
  by (simp add: unsigned_of_nat take_bit_eq_mod)

lemma word_eq_unatI: "unat a = unat b \<Longrightarrow> a = b"
  by (rule word_unat_eq_iff [THEN iffD2])

subsection \<open>Decimal rendering\<close>

text \<open>What \<open>format!\<close> prints for an unsigned integer.\<close>

fun show_nat :: "nat \<Rightarrow> string" where
  "show_nat n =
     (if n < 10 then [char_of (48 + n)] else show_nat (n div 10) @ [char_of (48 + n mod 10)])"

declare show_nat.simps [simp del]

subsection \<open>Big-endian integers\<close>

text \<open>\<open>be_bytes k n\<close> is \<open>n.to_be_bytes()\<close> for a \<open>k\<close>-byte integer, \<open>be_val\<close> the value of
  \<open>from_be_bytes\<close>.\<close>

primrec be_bytes :: "nat \<Rightarrow> nat \<Rightarrow> bytes" where
  "be_bytes 0 n = []"
| "be_bytes (Suc k) n = be_bytes k (n div 256) @ [word_of_nat (n mod 256)]"

definition be_val :: "bytes \<Rightarrow> nat" where
  "be_val bs = foldl (\<lambda>a b. a * 256 + unat b) 0 bs"

definition u32_to_be :: "u32 \<Rightarrow> bytes" where
  "u32_to_be w = be_bytes 4 (unat w)"

definition u64_to_be :: "u64 \<Rightarrow> bytes" where
  "u64_to_be w = be_bytes 8 (unat w)"

definition u32_from_be :: "bytes \<Rightarrow> u32" where
  "u32_from_be bs = word_of_nat (be_val bs)"

definition u64_from_be :: "bytes \<Rightarrow> u64" where
  "u64_from_be bs = word_of_nat (be_val bs)"

lemma length_be_bytes [simp]: "length (be_bytes k n) = k"
  by (induction k arbitrary: n) auto

lemma length_u32_to_be [simp]: "length (u32_to_be w) = 4"
  by (simp add: u32_to_be_def)

lemma length_u64_to_be [simp]: "length (u64_to_be w) = 8"
  by (simp add: u64_to_be_def)

lemma be_val_Nil [simp]: "be_val [] = 0"
  by (simp add: be_val_def)

lemma be_val_snoc [simp]: "be_val (bs @ [b]) = be_val bs * 256 + unat b"
  by (simp add: be_val_def)

lemma be_val_less: "be_val bs < 256 ^ length bs"
proof (induction bs rule: rev_induct)
  case (snoc b bs)
  have "be_val bs * 256 + unat b < (be_val bs + 1) * 256"
    by simp
  also have "\<dots> \<le> 256 ^ length bs * 256"
    using snoc by (intro mult_right_mono) auto
  finally show ?case by simp
qed simp

lemma be_val_be_bytes: "be_val (be_bytes k n) = n mod 256 ^ k"
proof (induction k arbitrary: n)
  case (Suc k)
  have "be_val (be_bytes (Suc k) n) = (n div 256 mod 256 ^ k) * 256 + n mod 256"
    by (simp add: Suc unat_of_nat)
  also have "\<dots> = n mod (256 * 256 ^ k)"
    by (simp add: mod_mult2_eq)
  finally show ?case by simp
qed simp

lemma be_bytes_be_val: "be_bytes (length bs) (be_val bs) = bs"
proof (induction bs rule: rev_induct)
  case (snoc b bs)
  have "(be_val bs * 256 + unat b) div 256 = be_val bs"
    by simp
  moreover have "word_of_nat ((be_val bs * 256 + unat b) mod 256) = b"
    by simp
  ultimately show ?case using snoc by simp
qed simp

lemma u32_from_to_be [simp]: "u32_from_be (u32_to_be w) = w"
proof -
  have "unat w mod 256 ^ 4 = unat w" by (rule mod_less) simp
  then show ?thesis by (simp add: u32_from_be_def u32_to_be_def be_val_be_bytes)
qed

lemma u64_from_to_be [simp]: "u64_from_be (u64_to_be w) = w"
proof -
  have "unat w mod 256 ^ 8 = unat w" by (rule mod_less) simp
  then show ?thesis by (simp add: u64_from_be_def u64_to_be_def be_val_be_bytes)
qed

lemma unat_u32_from_be: "length bs = 4 \<Longrightarrow> unat (u32_from_be bs) = be_val bs"
  using be_val_less [of bs] by (simp add: u32_from_be_def unat_of_nat)

lemma unat_u64_from_be: "length bs = 8 \<Longrightarrow> unat (u64_from_be bs) = be_val bs"
  using be_val_less [of bs] by (simp add: u64_from_be_def unat_of_nat)

lemma u32_to_from_be: "length bs = 4 \<Longrightarrow> u32_to_be (u32_from_be bs) = bs"
  using be_bytes_be_val [of bs] by (simp add: u32_to_be_def unat_u32_from_be)

lemma u64_to_from_be: "length bs = 8 \<Longrightarrow> u64_to_be (u64_from_be bs) = bs"
  using be_bytes_be_val [of bs] by (simp add: u64_to_be_def unat_u64_from_be)

subsection \<open>XDR padding\<close>

text \<open>\<open>(len + 3) & !3\<close> and \<open>(4 - len % 4) % 4\<close> of the sources, on lengths.\<close>

definition pad_up :: "nat \<Rightarrow> nat" where
  "pad_up n = (n + 3) div 4 * 4"

definition pad_len :: "nat \<Rightarrow> nat" where
  "pad_len n = (4 - n mod 4) mod 4"

lemma pad_up_eq: "pad_up n = n + pad_len n"
proof -
  define q r where "q = n div 4" and "r = n mod 4"
  then have n: "n = 4 * q + r" and "r < 4" and len: "pad_len n = (4 - r) mod 4"
    by (simp_all add: pad_len_def)
  have up: "pad_up n = (q + (r + 3) div 4) * 4"
    by (simp add: pad_up_def n add.assoc)
  from \<open>r < 4\<close> consider "r = 0" | "r = 1" | "r = 2" | "r = 3" by linarith
  then show ?thesis
    by cases (simp_all add: up len, simp_all add: n)
qed

lemma pad_len_less: "pad_len n < 4"
  by (simp add: pad_len_def)

lemma pad_up_ge [simp]: "n \<le> pad_up n"
  by (simp add: pad_up_eq)

lemma pad_up_dvd: "4 dvd pad_up n"
  by (simp add: pad_up_def)

subsection \<open>Readers\<close>

text \<open>A reader consumes a prefix of the buffer and returns the rest, as the functions over
  \<open>&mut Bytes\<close> do.\<close>

type_synonym ('a, 'e) reader = "bytes \<Rightarrow> ('a \<times> bytes, 'e) outcome"

definition rreturn :: "'a \<Rightarrow> ('a, 'e) reader" where
  "rreturn x d = Ok (x, d)"

definition rfail :: "'e \<Rightarrow> ('a, 'e) reader" where
  "rfail e d = Err e"

definition rbind :: "('a, 'e) reader \<Rightarrow> ('a \<Rightarrow> ('b, 'e) reader) \<Rightarrow> ('b, 'e) reader" where
  "rbind m f d = and_then (m d) (\<lambda>(x, d'). f x d')"

text \<open>\<open>if data.remaining() < n { return Err(e) }\<close>.\<close>

definition need :: "nat \<Rightarrow> 'e \<Rightarrow> (unit, 'e) reader" where
  "need n e d = (if length d < n then Err e else Ok ((), d))"

text \<open>\<open>split_to(n)\<close> and \<open>copy_to_slice\<close>: panic when fewer than \<open>n\<close> bytes remain.\<close>

definition get_bytes :: "nat \<Rightarrow> (bytes, 'e) reader" where
  "get_bytes n d = (if length d < n then Panic else Ok (take n d, drop n d))"

definition advance :: "nat \<Rightarrow> (unit, 'e) reader" where
  "advance n d = (if length d < n then Panic else Ok ((), drop n d))"

definition get_u32 :: "(u32, 'e) reader" where
  "get_u32 d = (if length d < 4 then Panic else Ok (u32_from_be (take 4 d), drop 4 d))"

definition get_u64 :: "(u64, 'e) reader" where
  "get_u64 d = (if length d < 8 then Panic else Ok (u64_from_be (take 8 d), drop 8 d))"

text \<open>A \<open>for _ in 0..n\<close> loop that pushes what each round reads.\<close>

primrec read_n :: "nat \<Rightarrow> ('a, 'e) reader \<Rightarrow> ('a list, 'e) reader" where
  "read_n 0 r = rreturn []"
| "read_n (Suc n) r = rbind r (\<lambda>x. rbind (read_n n r) (\<lambda>xs. rreturn (x # xs)))"

lemmas reader_defs = rreturn_def rfail_def rbind_def need_def get_bytes_def advance_def
  get_u32_def get_u64_def

declare reader_defs [reader_simps]

lemma rbind_assoc: "rbind (rbind m f) g = rbind m (\<lambda>x. rbind (f x) g)"
  by (rule ext) (auto simp: rbind_def and_then_assoc intro!: and_then_cong split: prod.splits)

lemma rbind_rreturn [simp]: "rbind (rreturn x) f = f x"
  by (rule ext) (simp add: rbind_def rreturn_def)

lemma rbind_eq_Ok:
  "rbind m f d = Ok (y, d'') \<longleftrightarrow> (\<exists>x d'. m d = Ok (x, d') \<and> f x d' = Ok (y, d''))"
  by (auto simp: rbind_def split: prod.splits)

text \<open>Reading what was just written.\<close>

lemma get_u32_append [simp, roundtrip]: "get_u32 (u32_to_be w @ d) = Ok (w, d)"
  by (simp add: get_u32_def)

lemma get_u64_append [simp, roundtrip]: "get_u64 (u64_to_be w @ d) = Ok (w, d)"
  by (simp add: get_u64_def)

lemma rbind_get_u32_append [simp]: "rbind get_u32 f (u32_to_be w @ d) = f w d"
  by (simp add: rbind_def)

lemma rbind_get_u64_append [simp]: "rbind get_u64 f (u64_to_be w @ d) = f w d"
  by (simp add: rbind_def)

lemma rbind_need [simp]: "n \<le> length d \<Longrightarrow> rbind (need n e) f d = f () d"
  by (simp add: rbind_def need_def)

lemma rbind_need_short: "length d < n \<Longrightarrow> rbind (need n e) f d = Err e"
  by (simp add: rbind_def need_def)

lemma rbind_advance [simp]: "n \<le> length d \<Longrightarrow> rbind (advance n) f d = f () (drop n d)"
  by (simp add: rbind_def advance_def)

lemma rbind_get_bytes [simp]:
  "n \<le> length d \<Longrightarrow> rbind (get_bytes n) f d = f (take n d) (drop n d)"
  by (simp add: rbind_def get_bytes_def)

subsection \<open>Panic freedom\<close>

text \<open>\<open>safe_with n r\<close>: the reader \<open>r\<close> does not panic on a buffer of at least \<open>n\<close> bytes.  The
  source establishes the bound with a \<open>remaining()\<close> test and the fixed-size reads that
  follow use it up.\<close>

definition safe_with :: "nat \<Rightarrow> ('a, 'e) reader \<Rightarrow> bool" where
  "safe_with n r \<longleftrightarrow> (\<forall>d. n \<le> length d \<longrightarrow> r d \<noteq> Panic)"

lemma safe_withD: "safe_with 0 r \<Longrightarrow> r d \<noteq> Panic"
  by (simp add: safe_with_def)

lemma safe_with_mono: "safe_with n r \<Longrightarrow> n \<le> m \<Longrightarrow> safe_with m r"
  by (auto simp: safe_with_def)

lemma safe_any: "safe_with 0 r \<Longrightarrow> safe_with n r"
  by (simp add: safe_with_def)

lemma safe_rreturn [reader_safe]: "safe_with n (rreturn x)"
  by (simp add: safe_with_def rreturn_def)

lemma safe_rfail [reader_safe]: "safe_with n (rfail e)"
  by (simp add: safe_with_def rfail_def)

lemma safe_need [reader_safe]: "safe_with n (rbind (need k e) f)"
  if "safe_with (max n k) (f ())"
  using that by (auto simp: safe_with_def rbind_def need_def)

lemma safe_get_u32 [reader_safe]: "safe_with n (rbind get_u32 f)"
  if "4 \<le> n" "\<And>w. safe_with (n - 4) (f w)"
  using that by (auto simp: safe_with_def rbind_def get_u32_def)

lemma safe_get_u64 [reader_safe]: "safe_with n (rbind get_u64 f)"
  if "8 \<le> n" "\<And>w. safe_with (n - 8) (f w)"
  using that by (auto simp: safe_with_def rbind_def get_u64_def)

lemma safe_get_bytes [reader_safe]: "safe_with n (rbind (get_bytes k) f)"
  if "k \<le> n" "\<And>w. length w = k \<Longrightarrow> safe_with (n - k) (f w)"
  using that by (auto simp: safe_with_def rbind_def get_bytes_def)

lemma safe_advance [reader_safe]: "safe_with n (rbind (advance k) f)"
  if "k \<le> n" "safe_with (n - k) (f ())"
  using that by (auto simp: safe_with_def rbind_def advance_def)

lemma safe_rbind: "safe_with n (rbind m f)"
  if "safe_with n m" "\<And>x. safe_with 0 (f x)"
  using that
  by (auto simp: safe_with_def rbind_def and_then_eq_Panic)

lemma safe_read_n: "safe_with 0 r \<Longrightarrow> safe_with m (read_n n r)"
proof (induction n arbitrary: m)
  case (Suc n)
  then show ?case by (auto intro!: safe_rbind safe_rreturn intro: safe_any)
qed (simp add: safe_rreturn)

subsection \<open>Inversion\<close>

text \<open>A reader that returns has split its buffer; a guard that returns an error has not fired.\<close>

lemma get_bytes_eq_Ok: "get_bytes n d = Ok (x, d') \<longleftrightarrow> d = x @ d' \<and> length x = n"
  by (auto simp: get_bytes_def split: if_splits)

lemma get_u32_split: "get_u32 d = Ok (w, d') \<longleftrightarrow> d = u32_to_be w @ d'"
  using u32_to_from_be [of "take 4 d"] by (auto simp: get_u32_def split: if_splits)

lemma get_u64_split: "get_u64 d = Ok (w, d') \<longleftrightarrow> d = u64_to_be w @ d'"
  using u64_to_from_be [of "take 8 d"] by (auto simp: get_u64_def split: if_splits)

lemma if_Err_eq_Ok: "(if c then Err e else r) = Ok x \<longleftrightarrow> \<not> c \<and> r = Ok x"
  "(if c then (if c' then Err e else Err e') else r) = Ok x \<longleftrightarrow> \<not> c \<and> r = Ok x"
  by simp_all

lemma if_Err_eq_Panic: "(if c then Err e else r) = Panic \<longleftrightarrow> \<not> c \<and> r = Panic"
  "(if c then (if c' then Err e else Err e') else r) = Panic \<longleftrightarrow> \<not> c \<and> r = Panic"
  by simp_all

subsection \<open>Slices and collections of results\<close>

text \<open>\<open>slice.get(i)\<close>.\<close>

definition slice_get :: "'a list \<Rightarrow> nat \<Rightarrow> 'a option" where
  "slice_get xs i = (if i < length xs then Some (xs ! i) else None)"

lemma slice_get_eq_Some [simp]: "slice_get xs i = Some x \<longleftrightarrow> i < length xs \<and> x = xs ! i"
  by (auto simp: slice_get_def)

lemma slice_get_eq_None [simp]: "slice_get xs i = None \<longleftrightarrow> length xs \<le> i"
  by (auto simp: slice_get_def)

text \<open>\<open>iter().map(f).collect::<Result<Vec<_>>>()\<close>: the values in order, or the first error.\<close>

primrec collect_results :: "('a \<Rightarrow> ('b, 'e) outcome) \<Rightarrow> 'a list \<Rightarrow> ('b list, 'e) outcome" where
  "collect_results f [] = Ok []"
| "collect_results f (x # xs) = and_then (f x) (\<lambda>y. and_then (collect_results f xs) (\<lambda>ys. Ok (y # ys)))"

lemma collect_results_eq_Ok:
  "collect_results f xs = Ok ys \<longleftrightarrow> list_all2 (\<lambda>x y. f x = Ok y) xs ys"
  by (induction xs arbitrary: ys) (auto simp: list_all2_Cons1)

lemma collect_results_total:
  "(\<And>x. x \<in> set xs \<Longrightarrow> f x = Ok (g x)) \<Longrightarrow> collect_results f xs = Ok (map g xs)"
  by (induction xs) auto

end
