(* ===== verification/Striping.thy ===== *)
theory Striping
  imports NFS_Prelude
begin

text \<open>
  The file-layout striping arithmetic of \<open>src/nfs41/layout.rs\<close>: the stripe-table index and the
  data-server offset of a file offset, and the loop that splits a byte range into one chunk
  per stripe.  The integers keep their widths (\<open>u32\<close> stripe units and counts, \<open>u64\<close>
  offsets, saturating additions).

  The specification is per byte: \<open>byte_target\<close> says, over unbounded numbers, on which
  stripe-table position and at which offset one byte of the file lives.  The chunks of
  \<open>split_into_stripes\<close> spelled out byte by byte are exactly the targets of the requested
  bytes in order, and distinct bytes have distinct targets.
\<close>

subsection \<open>The code\<close>

record stripe_chunk =
  chunk_ds_index :: u32
  chunk_file_offset :: u64
  chunk_ds_offset :: u64
  chunk_length :: u32

definition stripe_ds_index :: "u64 \<Rightarrow> u32 \<Rightarrow> u32 \<Rightarrow> u32 \<Rightarrow> u32" where
  "stripe_ds_index offset stripe_unit first_stripe_index stripe_count =
     (let su = ucast stripe_unit;
          stripe_num = offset div su
      in ucast ((stripe_num + ucast first_stripe_index) mod ucast stripe_count))"

definition ds_offset :: "u64 \<Rightarrow> u32 \<Rightarrow> u32 \<Rightarrow> u32 \<Rightarrow> bool \<Rightarrow> u64" where
  "ds_offset file_offset stripe_unit first_stripe_index stripe_count is_dense =
     (let su = ucast stripe_unit;
          stripe_num = file_offset div su;
          offset_in_stripe = file_offset mod su
      in if is_dense
         then let ds_stripe_num = stripe_num div ucast stripe_count
              in ds_stripe_num * su + offset_in_stripe
         else file_offset)"

text \<open>The body of the \<open>while pos < end\<close> loop: the chunk that starts at \<open>pos\<close>, and where it
  ends.\<close>

definition chunk_end_at :: "u32 \<Rightarrow> u64 \<Rightarrow> u64 \<Rightarrow> u64 \<Rightarrow> u64" where
  "chunk_end_at stripe_unit pattern_offset end pos =
     (let su = ucast stripe_unit; adjusted = pos - pattern_offset
      in min end (saturating_add pos (su - adjusted mod su)))"

definition chunk_at ::
  "u32 \<Rightarrow> bool \<Rightarrow> u32 \<Rightarrow> u32 \<Rightarrow> u64 \<Rightarrow> u64 \<Rightarrow> u64 \<Rightarrow> stripe_chunk" where
  "chunk_at stripe_unit is_dense first_stripe_index stripe_count pattern_offset end pos =
     (let adjusted = pos - pattern_offset;
          chunk_end = chunk_end_at stripe_unit pattern_offset end pos
      in \<lparr>chunk_ds_index =
            stripe_ds_index adjusted stripe_unit first_stripe_index stripe_count,
          chunk_file_offset = pos,
          chunk_ds_offset =
            (if is_dense
             then ds_offset adjusted stripe_unit first_stripe_index stripe_count True
             else pos),
          chunk_length = ucast (chunk_end - pos)\<rparr>)"

lemma chunk_end_progress:
  assumes "stripe_unit \<noteq> 0" and "pos < end"
  shows "pos < chunk_end_at stripe_unit pattern_offset end pos"
    and "chunk_end_at stripe_unit pattern_offset end pos \<le> end"
proof -
  let ?su = "ucast stripe_unit :: u64"
  let ?r = "(pos - pattern_offset) mod ?su"
  have su: "0 < unat ?su"
    using assms(1) by (simp add: unat_gt_0)
  then have r: "unat ?r < unat ?su"
    by (simp add: unat_mod)
  then have "unat (?su - ?r) = unat ?su - unat ?r"
    by (simp add: unat_sub_le word_le_nat_alt)
  with r have "0 < unat (?su - ?r)" by simp
  moreover have "unat pos < unat end"
    using assms(2) by (simp add: word_less_nat_alt)
  ultimately show "pos < chunk_end_at stripe_unit pattern_offset end pos"
    using unat_u64_le [of "end"] assms(2)
    by (auto simp: chunk_end_at_def Let_def min_def word_less_nat_alt word_le_nat_alt
        unat_saturating_add)
  show "chunk_end_at stripe_unit pattern_offset end pos \<le> end"
    by (simp add: chunk_end_at_def Let_def)
qed

text \<open>The loop is entered with a nonzero stripe unit only; the test is repeated in the loop so
  that the function is total.\<close>

function stripe_loop ::
  "u32 \<Rightarrow> bool \<Rightarrow> u32 \<Rightarrow> u32 \<Rightarrow> u64 \<Rightarrow> u64 \<Rightarrow> u64 \<Rightarrow> stripe_chunk list" where
  "stripe_loop stripe_unit is_dense first_stripe_index stripe_count pattern_offset end pos =
     (if stripe_unit \<noteq> 0 \<and> pos < end
      then chunk_at stripe_unit is_dense first_stripe_index stripe_count pattern_offset end pos
           # stripe_loop stripe_unit is_dense first_stripe_index stripe_count pattern_offset end
               (chunk_end_at stripe_unit pattern_offset end pos)
      else [])"
  by pat_completeness auto
termination
proof (relation "measure (\<lambda>(_, _, _, _, _, end, pos). unat end - unat pos)")
  fix stripe_unit :: u32 and is_dense :: bool and first_stripe_index stripe_count :: u32
    and pattern_offset "end" pos :: u64
  assume "stripe_unit \<noteq> 0 \<and> pos < end"
  then show "((stripe_unit, is_dense, first_stripe_index, stripe_count, pattern_offset, end,
        chunk_end_at stripe_unit pattern_offset end pos),
      (stripe_unit, is_dense, first_stripe_index, stripe_count, pattern_offset, end, pos))
      \<in> measure (\<lambda>(_, _, _, _, _, end, pos). unat end - unat pos)"
    using chunk_end_progress [of stripe_unit pos "end" pattern_offset]
    by (auto simp: word_less_nat_alt word_le_nat_alt)
qed simp

declare stripe_loop.simps [simp del]

definition split_into_stripes ::
  "u64 \<Rightarrow> u32 \<Rightarrow> u32 \<Rightarrow> bool \<Rightarrow> u32 \<Rightarrow> u32 \<Rightarrow> u64 \<Rightarrow> stripe_chunk list" where
  "split_into_stripes offset count stripe_unit is_dense first_stripe_index stripe_count
     pattern_offset =
     (if stripe_unit = 0 \<or> stripe_count = 0 \<or> offset < pattern_offset then []
      else stripe_loop stripe_unit is_dense first_stripe_index stripe_count pattern_offset
             (saturating_add offset (ucast count)) offset)"

subsection \<open>One byte of the file\<close>

text \<open>Over unbounded numbers: the stripe-table position of the byte at file offset \<open>p\<close>, and
  its offset there.  RFC 8881 section 13.4: the stripe number is counted from the pattern
  offset; dense files are compacted, sparse files keep the file's offsets.\<close>

definition byte_target :: "nat \<Rightarrow> bool \<Rightarrow> nat \<Rightarrow> nat \<Rightarrow> nat \<Rightarrow> nat \<Rightarrow> nat \<times> nat" where
  "byte_target su dense first count pat p =
     (let a = p - pat; s = a div su
      in ((s + first) mod count,
          if dense then s div count * su + a mod su else p))"

text \<open>The bytes a chunk stands for: stripe-table position, file offset, data-server offset.\<close>

definition chunk_bytes :: "stripe_chunk \<Rightarrow> (nat \<times> nat \<times> nat) list" where
  "chunk_bytes c =
     map (\<lambda>i. (unat (chunk_ds_index c), unat (chunk_file_offset c) + i,
                unat (chunk_ds_offset c) + i))
         [0..<unat (chunk_length c)]"

definition target_bytes ::
  "nat \<Rightarrow> bool \<Rightarrow> nat \<Rightarrow> nat \<Rightarrow> nat \<Rightarrow> nat \<Rightarrow> nat \<Rightarrow> (nat \<times> nat \<times> nat) list" where
  "target_bytes su dense first count pat lo hi =
     map (\<lambda>p. case byte_target su dense first count pat p of (i, off) \<Rightarrow> (i, p, off))
         [lo..<hi]"

subsection \<open>The word arithmetic does not overflow\<close>

lemma unat_stripe_ds_index:
  assumes "2 \<le> unat stripe_unit" and "stripe_count \<noteq> 0"
  shows "unat (stripe_ds_index offset stripe_unit first stripe_count)
       = (unat offset div unat stripe_unit + unat first) mod unat stripe_count"
proof -
  let ?su = "ucast stripe_unit :: u64" and ?c = "ucast stripe_count :: u64"
  have "unat offset div unat stripe_unit \<le> unat offset div 2"
    using assms(1) by (rule div_le_mono2 [rotated]) simp
  then have "unat offset div unat stripe_unit \<le> 9223372036854775807"
    using unat_u64_le [of offset] by linarith
  then have sum: "unat (offset div ?su + ucast first) = unat offset div unat stripe_unit + unat first"
    using unat_u32_le [of first] by (subst unat_add_no_overflow) (simp_all add: unat_div)
  have c: "0 < unat stripe_count"
    using assms(2) by (simp add: unat_gt_0)
  have "unat ((offset div ?su + ucast first) mod ?c)
      = (unat offset div unat stripe_unit + unat first) mod unat stripe_count"
    by (simp add: unat_mod sum)
  moreover have "\<dots> < 4294967296"
    using c mod_less_divisor [of "unat stripe_count"] unat_u32_less [of stripe_count]
    by (meson order_less_trans)
  ultimately show ?thesis
    by (simp add: stripe_ds_index_def Let_def unsigned_ucast_eq take_bit_eq_mod)
qed

lemma unat_ds_offset_dense:
  "unat (ds_offset offset stripe_unit first stripe_count True)
     = unat offset div unat stripe_unit div unat stripe_count * unat stripe_unit
       + unat offset mod unat stripe_unit"
proof -
  let ?su = "ucast stripe_unit :: u64" and ?c = "ucast stripe_count :: u64"
  let ?q = "unat offset div unat stripe_unit"
  have le: "?q div unat stripe_count * unat stripe_unit + unat offset mod unat stripe_unit \<le> unat offset"
  proof -
    have "?q div unat stripe_count * unat stripe_unit \<le> ?q * unat stripe_unit"
      by (intro mult_right_mono) simp_all
    then show ?thesis
      using div_mult_mod_eq [of "unat offset" "unat stripe_unit"] by linarith
  qed
  then have bound: "?q div unat stripe_count * unat stripe_unit < 2 ^ LENGTH(64)"
    using unat_u64_le [of offset] by simp
  have prod: "unat (offset div ?su div ?c * ?su) = ?q div unat stripe_count * unat stripe_unit"
    using bound by (subst unat_mult_lem [THEN iffD1]) (simp_all add: unat_div)
  show ?thesis
    using le unat_u64_le [of offset]
    by (simp add: ds_offset_def Let_def unat_add_no_overflow prod unat_mod)
qed

text \<open>\<open>end\<close> cut down to the stripe that holds \<open>pos\<close>; the length fits in 32 bits.\<close>

lemma unat_chunk_end_at:
  assumes "stripe_unit \<noteq> 0" and "pattern_offset \<le> pos"
  shows "unat (chunk_end_at stripe_unit pattern_offset end pos)
       = min (unat end)
           (unat pos + (unat stripe_unit - (unat pos - unat pattern_offset) mod unat stripe_unit))"
proof -
  let ?su = "ucast stripe_unit :: u64"
  let ?r = "(pos - pattern_offset) mod ?su"
  have su: "0 < unat stripe_unit"
    using assms(1) by (simp add: unat_gt_0)
  have r: "unat ?r = (unat pos - unat pattern_offset) mod unat stripe_unit"
    using assms(2) by (simp add: unat_mod unat_sub_le)
  then have "?r \<le> ?su"
    using su by (simp add: word_le_nat_alt less_imp_le)
  then have "unat (?su - ?r) = unat stripe_unit - (unat pos - unat pattern_offset) mod unat stripe_unit"
    by (simp add: unat_sub_le r)
  then show ?thesis
    using unat_u64_le [of "end"]
    by (auto simp: chunk_end_at_def Let_def min_def word_le_nat_alt unat_saturating_add)
qed

subsection \<open>A chunk is its bytes\<close>

text \<open>Offsets in the same stripe as \<open>a\<close>, at distance \<open>i\<close> from it.\<close>

lemma same_stripe:
  assumes "0 < (su :: nat)" and "i < su - a mod su"
  shows "(a + i) div su = a div su" and "(a + i) mod su = a mod su + i"
proof -
  have i: "a mod su + i < su"
    using assms by linarith
  have "a + i = su * (a div su) + (a mod su + i)"
    by simp
  then show "(a + i) div su = a div su" "(a + i) mod su = a mod su + i"
    using i assms(1) by (metis div_mult_self4 div_less add_0_right less_nat_zero_code not_gr_zero,
        metis mod_mult_self4 mod_less)
qed

lemma chunk_bytes_chunk_at:
  assumes su: "2 \<le> unat stripe_unit" and count: "stripe_count \<noteq> 0"
    and pat: "pattern_offset \<le> pos" and pos: "pos < end"
  shows "chunk_bytes (chunk_at stripe_unit is_dense first stripe_count pattern_offset end pos)
       = target_bytes (unat stripe_unit) is_dense (unat first) (unat stripe_count)
           (unat pattern_offset) (unat pos)
           (unat (chunk_end_at stripe_unit pattern_offset end pos))"
proof -
  let ?su = "unat stripe_unit" and ?pat = "unat pattern_offset" and ?p = "unat pos"
  let ?ce = "chunk_end_at stripe_unit pattern_offset end pos"
  have su0: "stripe_unit \<noteq> 0" "0 < ?su" using su by auto
  have ce: "unat ?ce = min (unat end) (?p + (?su - (?p - ?pat) mod ?su))"
    by (rule unat_chunk_end_at [OF su0(1) pat])
  have lt: "?p < unat ?ce"
    using chunk_end_progress(1) [OF su0(1) pos] by (simp add: word_less_nat_alt)
  have adj: "unat (pos - pattern_offset) = ?p - ?pat"
    by (rule unat_sub_le [OF pat])
  have len: "unat (ucast (?ce - pos) :: u32) = unat ?ce - ?p"
  proof -
    have "unat (?ce - pos) = unat ?ce - ?p"
      using lt by (simp add: unat_sub_le word_le_nat_alt less_imp_le)
    moreover have "unat ?ce - ?p \<le> ?su" using ce by auto
    then have "unat ?ce - ?p < 4294967296"
      using unat_u32_le [of stripe_unit] by linarith
    ultimately show ?thesis
      by (simp add: unsigned_ucast_eq take_bit_eq_mod)
  qed
  have byte: "byte_target ?su is_dense (unat first) (unat stripe_count) ?pat (?p + i)
      = (unat (chunk_ds_index (chunk_at stripe_unit is_dense first stripe_count pattern_offset end pos)),
         unat (chunk_ds_offset (chunk_at stripe_unit is_dense first stripe_count pattern_offset end pos)) + i)"
    if "i < unat ?ce - ?p" for i
  proof -
    have i: "i < ?su - (?p - ?pat) mod ?su"
      using that ce by linarith
    have "?p + i - ?pat = (?p - ?pat) + i"
      using pat by (simp add: word_le_nat_alt)
    then show ?thesis
      using same_stripe [OF su0(2) i]
      by (simp add: byte_target_def chunk_at_def Let_def unat_stripe_ds_index [OF su count]
          unat_ds_offset_dense adj)
  qed
  have "[?p..<unat ?ce] = map (\<lambda>i. ?p + i) [0..<unat ?ce - ?p]"
    using lt map_add_upt [of ?p "unat ?ce - ?p"] by (simp add: add.commute)
  then show ?thesis
    using byte len
    by (auto simp: target_bytes_def chunk_bytes_def chunk_at_def Let_def)
qed

subsection \<open>The whole range\<close>

lemma target_bytes_append:
  "lo \<le> mid \<Longrightarrow> mid \<le> hi \<Longrightarrow>
   target_bytes su dense first count pat lo mid @ target_bytes su dense first count pat mid hi
   = target_bytes su dense first count pat lo hi"
  using upt_add_eq_append [of lo mid "hi - mid"] by (simp add: target_bytes_def)

lemma stripe_loop_bytes:
  assumes "2 \<le> unat stripe_unit" and "stripe_count \<noteq> 0"
    and "pattern_offset \<le> pos"
  shows "concat (map chunk_bytes
           (stripe_loop stripe_unit is_dense first stripe_count pattern_offset end pos))
       = target_bytes (unat stripe_unit) is_dense (unat first) (unat stripe_count)
           (unat pattern_offset) (unat pos) (unat end)"
  using assms
proof (induction stripe_unit is_dense first stripe_count pattern_offset "end" pos
    rule: stripe_loop.induct)
  case (1 stripe_unit is_dense first stripe_count pattern_offset "end" pos)
  let ?ce = "chunk_end_at stripe_unit pattern_offset end pos"
  show ?case
  proof (cases "pos < end")
    case True
    have su: "stripe_unit \<noteq> 0" using "1.prems"(1) by auto
    note progress = chunk_end_progress [OF su True, of pattern_offset]
    have "pattern_offset \<le> ?ce"
      using "1.prems"(3) progress(1) by (rule order_trans [OF _ order_less_imp_le])
    then have IH: "concat (map chunk_bytes
        (stripe_loop stripe_unit is_dense first stripe_count pattern_offset end ?ce))
      = target_bytes (unat stripe_unit) is_dense (unat first) (unat stripe_count)
          (unat pattern_offset) (unat ?ce) (unat end)"
      using "1.IH" su True "1.prems" by simp
    show ?thesis
      using su True progress "1.prems"
      by (subst stripe_loop.simps)
        (simp add: IH chunk_bytes_chunk_at target_bytes_append word_less_nat_alt
          word_le_nat_alt less_imp_le)
  next
    case False
    then show ?thesis
      by (subst stripe_loop.simps) (simp add: target_bytes_def word_less_nat_alt)
  qed
qed

subsection \<open>No two bytes share a place\<close>

lemma mod_add_right_cancel_nat:
  assumes "(a + k) mod c = (b + k) mod (c :: nat)"
  shows "a mod c = b mod c"
proof -
  have int: "int x mod int c = ((int x + int k) mod int c - int k) mod int c" for x
    by (simp add: mod_diff_left_eq)
  have "(int a + int k) mod int c = (int b + int k) mod int c"
    using assms by (simp flip: of_nat_add of_nat_mod)
  then have "int a mod int c = int b mod int c"
    by (simp only: int [of a] int [of b])
  then show ?thesis by (simp flip: of_nat_mod)
qed

lemma byte_target_dense_inj:
  assumes "0 < su" "0 < count" "pat \<le> p" "pat \<le> q"
    and eq: "byte_target su True first count pat p = byte_target su True first count pat q"
  shows "p = q"
proof -
  let ?a = "p - pat" and ?b = "q - pat"
  let ?s = "?a div su" and ?t = "?b div su"
  have off: "?s div count * su + ?a mod su = ?t div count * su + ?b mod su"
    and idx: "(?s + first) mod count = (?t + first) mod count"
    using eq by (simp_all add: byte_target_def Let_def)
  have "?a mod su = (?s div count * su + ?a mod su) mod su" by simp
  also have "\<dots> = ?b mod su" by (simp only: off) simp
  finally have m: "?a mod su = ?b mod su" .
  with off assms(1) have d: "?s div count = ?t div count" by simp
  have "?s mod count = ?t mod count"
    using idx by (rule mod_add_right_cancel_nat)
  with d have "?s = ?t"
    by (metis div_mult_mod_eq)
  with m have "?a = ?b"
    by (metis div_mult_mod_eq)
  with assms(3,4) show ?thesis by simp
qed

text \<open>
  C1. Splitting a byte range into stripes loses nothing, repeats nothing and reorders
  nothing: the chunks, spelled out byte by byte, are the targets of the bytes
  \<open>offset .. min (offset + count) (2^64 - 1)\<close> in file order, each on the stripe-table position
  and at the data-server offset that the layout assigns to that byte.  The only
  conditions are those under which the code computes chunks at all, and a stripe unit of at
  least 2 (a decoded layout's stripe unit is a multiple of 64).
\<close>

theorem split_into_stripes_refines_bytes:
  assumes "2 \<le> unat stripe_unit" and "stripe_count \<noteq> 0" and "pattern_offset \<le> offset"
  shows "concat (map chunk_bytes
           (split_into_stripes offset count stripe_unit is_dense first stripe_count pattern_offset))
       = target_bytes (unat stripe_unit) is_dense (unat first) (unat stripe_count)
           (unat pattern_offset) (unat offset) (min (unat offset + unat count) (2 ^ 64 - 1))"
proof -
  have "stripe_unit \<noteq> 0" using assms(1) by auto
  then have "split_into_stripes offset count stripe_unit is_dense first stripe_count pattern_offset
      = stripe_loop stripe_unit is_dense first stripe_count pattern_offset
          (saturating_add offset (ucast count)) offset"
    using assms(2,3) by (auto simp: split_into_stripes_def dest: leD)
  then show ?thesis
    using stripe_loop_bytes [OF assms] by (simp add: unat_saturating_add)
qed

theorem split_into_stripes_refines_bytes_witness:
  "(2::nat) \<le> unat (64 :: u32) \<and> (3::u32) \<noteq> 0 \<and> (0::u64) \<le> 100 \<and>
   concat (map chunk_bytes (split_into_stripes 100 200 64 True 1 3 0))
   = target_bytes 64 True 1 3 0 100 300"
  using split_into_stripes_refines_bytes [of 64 3 0 100 200 True 1] by simp

end
