(* ===== verification/Errors.thy ===== *)
theory Errors
  imports NFS_Prelude
begin

text \<open>
  The structured error of the crate (\<open>src/src/error.rs\<close>): \<open>nfs_error\<close> with the evidence it
  carries about the request that failed, the predicates the retry loops and the callers decide
  on, and the classification of a failed request by its side-effect class.

  The protocol status enums (\<open>nfsstat3\<close>, \<open>nfsstat4\<close>, \<open>mountstat3\<close>) are represented by their
  \<open>u32\<close> discriminant.
\<close>

subsection \<open>Data\<close>

datatype nfs_version = Unknown_version | NFSv3 | NFSv4p0 | NFSv4 | NFSv4p1 | NFSv4p2

definition nfs_version_from :: "string \<Rightarrow> nfs_version" where
  "nfs_version_from val =
     (if val = ''3'' then NFSv3
      else if val = ''4.0'' then NFSv4p0
      else if val = ''4.1'' then NFSv4p1
      else if val = ''4.2'' then NFSv4p2
      else Unknown_version)"

datatype operation_outcome = DefiniteFailure | SafeToRetry | Uncertain

datatype operation_class = ReadOnly | SessionControl | ReplaySensitive

datatype recovery_action = Retry | Reopen | Remount | VerifyThenResume | DoNotRetry

datatype retry_exhaustion = RetryLimit | Deadline

datatype request_transmission = NotSent | Sent

datatype request_id =
    Nfs40Owner u64 u32
  | Nfs41Session bytes u32 u32

record request_context =
  ctx_operation :: string
  ctx_protocol :: nfs_version
  ctx_request_id :: "request_id option"

text \<open>Kinds of \<open>std::io::Error\<close>: the ones the sources name and common ones of the platform.\<close>

datatype io_kind =
    Kind_NotFound | Kind_PermissionDenied | Kind_ConnectionRefused | Kind_ConnectionReset
  | Kind_HostUnreachable | Kind_NetworkUnreachable | Kind_ConnectionAborted | Kind_NotConnected
  | Kind_AddrInUse | Kind_AddrNotAvailable | Kind_NetworkDown | Kind_BrokenPipe
  | Kind_AlreadyExists | Kind_WouldBlock | Kind_InvalidInput | Kind_InvalidData | Kind_TimedOut
  | Kind_WriteZero | Kind_Interrupted | Kind_Unsupported | Kind_UnexpectedEof
  | Kind_OutOfMemory | Kind_Other

text \<open>A \<open>std::io::Error\<close> is a kind with a payload: nothing, a message, or the
  \<open>TransportFailure\<close> that \<open>NfsError::transport\<close> boxes into it.\<close>

datatype nfs_error =
    ServerBusy server_busy_error
  | Io io_error
  | Nfs3 u32
  | Nfs4 u32
  | LockDenied u32 u64 u64 bytes
  | MountError u32
  | Rpc string
  | Xdr string
  | Unsupported string
  | InvalidInput string
  | ClosedResource string
  | ModeViolation string
  | ClientClosed string
  | PositionUncertain string
  | LostOpenState string
  | FileClose "file_close_failure list"
  | RdattrError u32
  | OperationOutcome operation_outcome_error
and server_busy_error =
    ServerBusyError (sb_context: request_context) (sb_retries: u32) (sb_elapsed: nat)
      (sb_reason: retry_exhaustion) (sb_source: nfs_error)
and io_error =
    SimpleIo (io_kind: io_kind)
  | MessageIo (io_kind: io_kind) (io_message: string)
  | TransportFailure (io_kind: io_kind) (tf_transmission: request_transmission)
      (tf_source: nfs_error)
and operation_outcome_error =
    OperationOutcomeError (oe_outcome: operation_outcome) (oe_class: operation_class)
      (oe_transmission: request_transmission) (oe_recovery: recovery_action)
      (oe_completed_bytes: "u64 option") (oe_source: nfs_error) (oe_context: request_context)
and file_close_failure =
    FileCloseFailure (fc_operation: string) (fc_error: nfs_error)

type_synonym 'a result = "('a, nfs_error) outcome"

text \<open>Status codes that the classification names (\<open>nfs4.x\<close>, RFC 1813).\<close>

definition NFS3ERR_NOENT :: u32 where "NFS3ERR_NOENT = 2"
definition NFS3ERR_EXIST :: u32 where "NFS3ERR_EXIST = 17"
definition NFS3ERR_BAD_COOKIE :: u32 where "NFS3ERR_BAD_COOKIE = 10003"
definition NFS3ERR_JUKEBOX :: u32 where "NFS3ERR_JUKEBOX = 10008"
definition NFS4ERR_NOENT :: u32 where "NFS4ERR_NOENT = 2"
definition NFS4ERR_EXIST :: u32 where "NFS4ERR_EXIST = 17"
definition NFS4ERR_BAD_COOKIE :: u32 where "NFS4ERR_BAD_COOKIE = 10003"
definition NFS4ERR_NOT_SAME :: u32 where "NFS4ERR_NOT_SAME = 10027"
definition NFS4ERR_NOXATTR :: u32 where "NFS4ERR_NOXATTR = 10095"
definition NFS4ERR_RETRY_UNCACHED_REP :: u32 where "NFS4ERR_RETRY_UNCACHED_REP = 10068"
definition NFS4ERR_SEQ_FALSE_RETRY :: u32 where "NFS4ERR_SEQ_FALSE_RETRY = 10076"

subsection \<open>Predicates on errors\<close>

fun transport_error_kind :: "nfs_error \<Rightarrow> io_kind option" where
  "transport_error_kind (Io error) = Some (io_kind error)"
| "transport_error_kind (OperationOutcome (OperationOutcomeError _ _ _ _ _ source _)) =
     transport_error_kind source"
| "transport_error_kind _ = None"

definition is_connection_lost :: "nfs_error \<Rightarrow> bool" where
  "is_connection_lost e =
     (transport_error_kind e \<in> Some ` {Kind_BrokenPipe, Kind_ConnectionReset,
        Kind_ConnectionAborted, Kind_UnexpectedEof, Kind_NotConnected, Kind_ConnectionRefused})"

lemma size_fc_error_less: "size (fc_error f) < size f"
  by (cases f) simp

lemma size_fc_error [termination_simp]:
  "f \<in> set failures \<Longrightarrow> size (fc_error f) < Suc (size_list size failures)"
  using size_list_estimation [of f failures "size (fc_error f)" size] size_fc_error_less [of f]
  by simp

fun contains_uncertain_outcome :: "nfs_error \<Rightarrow> bool" where
  "contains_uncertain_outcome (OperationOutcome (OperationOutcomeError outcome _ _ _ _ source _)) \<longleftrightarrow>
     outcome = Uncertain \<or> contains_uncertain_outcome source"
| "contains_uncertain_outcome (FileClose failures) \<longleftrightarrow>
     list_ex (\<lambda>f. contains_uncertain_outcome (fc_error f)) failures"
| "contains_uncertain_outcome (ServerBusy (ServerBusyError _ _ _ _ source)) \<longleftrightarrow>
     contains_uncertain_outcome source"
| "contains_uncertain_outcome _ \<longleftrightarrow> False"

fun is_server_busy :: "nfs_error \<Rightarrow> bool" where
  "is_server_busy e \<longleftrightarrow>
     (if contains_uncertain_outcome e then False
      else case e of
        ServerBusy _ \<Rightarrow> True
      | Nfs3 code \<Rightarrow> code = NFS3ERR_JUKEBOX
      | Nfs4 code \<Rightarrow> code = 10008 \<or> code = 10013
      | OperationOutcome (OperationOutcomeError outcome _ _ _ _ source _) \<Rightarrow>
          outcome \<noteq> Uncertain \<and> is_server_busy source
      | FileClose failures \<Rightarrow>
          \<not> contains_uncertain_outcome e \<and> list_ex (\<lambda>f. is_server_busy (fc_error f)) failures
      | _ \<Rightarrow> False)"

declare is_server_busy.simps [simp del]

lemma not_NotSent_iff [simp]: "tx \<noteq> NotSent \<longleftrightarrow> tx = Sent"
  by (cases tx) simp_all

lemma is_server_busy_outcome [simp]:
  "is_server_busy (OperationOutcome (OperationOutcomeError oc cl tx rc cb source ctx)) \<longleftrightarrow>
     oc \<noteq> Uncertain \<and> \<not> contains_uncertain_outcome source \<and> is_server_busy source"
  by (subst is_server_busy.simps) simp

lemma is_server_busy_close [simp]:
  "is_server_busy (FileClose fs) \<longleftrightarrow>
     \<not> contains_uncertain_outcome (FileClose fs) \<and> list_ex (\<lambda>f. is_server_busy (fc_error f)) fs"
  by (subst is_server_busy.simps) simp

lemma is_server_busy_leaf [simp]:
  "is_server_busy (Nfs3 code) \<longleftrightarrow> code = NFS3ERR_JUKEBOX"
  "is_server_busy (Nfs4 code) \<longleftrightarrow> code = 10008 \<or> code = 10013"
  "\<not> is_server_busy (Io io)" "\<not> is_server_busy (LockDenied a b l w)"
  "\<not> is_server_busy (MountError code)" "\<not> is_server_busy (Rpc m)" "\<not> is_server_busy (Xdr m)"
  "\<not> is_server_busy (Unsupported m)" "\<not> is_server_busy (InvalidInput m)"
  "\<not> is_server_busy (ClosedResource m)" "\<not> is_server_busy (ModeViolation m)"
  "\<not> is_server_busy (ClientClosed m)" "\<not> is_server_busy (PositionUncertain m)"
  "\<not> is_server_busy (LostOpenState m)" "\<not> is_server_busy (RdattrError code)"
  by (subst is_server_busy.simps, simp)+

lemma is_server_busy_node [simp]:
  "is_server_busy (ServerBusy sb) \<longleftrightarrow> \<not> contains_uncertain_outcome (ServerBusy sb)"
  by (subst is_server_busy.simps) simp

definition is_exist :: "nfs_error \<Rightarrow> bool" where
  "is_exist e = (case e of Nfs3 c \<Rightarrow> c = NFS3ERR_EXIST | Nfs4 c \<Rightarrow> c = NFS4ERR_EXIST | _ \<Rightarrow> False)"

definition is_not_found :: "nfs_error \<Rightarrow> bool" where
  "is_not_found e =
     (case e of Nfs3 c \<Rightarrow> c = NFS3ERR_NOENT
      | Nfs4 c \<Rightarrow> c = NFS4ERR_NOENT \<or> c = NFS4ERR_NOXATTR | _ \<Rightarrow> False)"

definition is_bad_directory_cookie :: "nfs_error \<Rightarrow> bool" where
  "is_bad_directory_cookie e =
     (case e of Nfs3 c \<Rightarrow> c = NFS3ERR_BAD_COOKIE
      | Nfs4 c \<Rightarrow> c = NFS4ERR_BAD_COOKIE \<or> c = NFS4ERR_NOT_SAME | _ \<Rightarrow> False)"

fun error_kind :: "nfs_error \<Rightarrow> io_kind" where
  "error_kind (ServerBusy _) = Kind_WouldBlock"
| "error_kind (Io io) = io_kind io"
| "error_kind (Nfs3 _) = Kind_Other"
| "error_kind (Nfs4 _) = Kind_Other"
| "error_kind (LockDenied _ _ _ _) = Kind_WouldBlock"
| "error_kind (MountError _) = Kind_Other"
| "error_kind (Rpc _) = Kind_Other"
| "error_kind (Xdr _) = Kind_Other"
| "error_kind (Unsupported _) = Kind_Unsupported"
| "error_kind (InvalidInput _) = Kind_InvalidInput"
| "error_kind (ClosedResource _) = Kind_NotConnected"
| "error_kind (ModeViolation _) = Kind_PermissionDenied"
| "error_kind (ClientClosed _) = Kind_NotConnected"
| "error_kind (PositionUncertain _) = Kind_Other"
| "error_kind (LostOpenState _) = Kind_Other"
| "error_kind (FileClose _) = Kind_Other"
| "error_kind (RdattrError _) = Kind_Other"
| "error_kind (OperationOutcome _) = Kind_Other"

subsection \<open>Evidence about the request\<close>

definition transport :: "request_transmission \<Rightarrow> nfs_error \<Rightarrow> nfs_error" where
  "transport transmission source = Io (TransportFailure (error_kind source) transmission source)"

fun request_transmission_of :: "nfs_error \<Rightarrow> request_transmission option" where
  "request_transmission_of (Io (TransportFailure _ transmission _)) = Some transmission"
| "request_transmission_of (OperationOutcome error) = Some (oe_transmission error)"
| "request_transmission_of _ = None"

definition new_operation_outcome ::
  "operation_outcome \<Rightarrow> operation_class \<Rightarrow> recovery_action \<Rightarrow> request_context \<Rightarrow> nfs_error
    \<Rightarrow> operation_outcome_error" where
  "new_operation_outcome outcome cls recovery context source =
     OperationOutcomeError outcome cls Sent recovery None source context"

fun with_completed_bytes :: "operation_outcome_error \<Rightarrow> u64 \<Rightarrow> operation_outcome_error" where
  "with_completed_bytes (OperationOutcomeError outcome cls tx recovery _ source context) n =
     OperationOutcomeError outcome cls tx recovery (Some n) source context"

definition before_send_failure ::
  "operation_class \<Rightarrow> request_context \<Rightarrow> u64 option \<Rightarrow> nfs_error \<Rightarrow> nfs_error" where
  "before_send_failure cls context completed source =
     OperationOutcome (OperationOutcomeError DefiniteFailure cls NotSent Retry completed source context)"

fun find_map :: "('a \<Rightarrow> 'b option) \<Rightarrow> 'a list \<Rightarrow> 'b option" where
  "find_map f [] = None"
| "find_map f (x # xs) = (case f x of Some y \<Rightarrow> Some y | None \<Rightarrow> find_map f xs)"

lemma find_map_cong [fundef_cong]:
  "xs = ys \<Longrightarrow> (\<And>x. x \<in> set ys \<Longrightarrow> f x = g x) \<Longrightarrow> find_map f xs = find_map g ys"
  by (induction ys arbitrary: xs) (auto split: option.splits)

lemma find_map_SomeD: "find_map f xs = Some y \<Longrightarrow> \<exists>x\<in>set xs. f x = Some y"
  by (induction xs) (auto split: option.splits)

fun operation_outcome_of :: "nfs_error \<Rightarrow> operation_outcome_error option" where
  "operation_outcome_of (OperationOutcome error) = Some error"
| "operation_outcome_of (FileClose failures) =
     find_map (\<lambda>failure. operation_outcome_of (fc_error failure)) failures"
| "operation_outcome_of _ = None"

subsection \<open>Classification of a failed request\<close>

definition classify_non_authoritative_error ::
  "operation_class \<Rightarrow> request_context \<Rightarrow> nfs_error \<Rightarrow> bool \<Rightarrow> nfs_error" where
  "classify_non_authoritative_error cls context source replay_protocol_error =
     (if request_transmission_of source = Some NotSent
      then before_send_failure cls context None source
      else
        let lacks_authoritative_result =
              replay_protocol_error \<or> request_transmission_of source = Some Sent
              \<or> (case source of Io _ \<Rightarrow> True | Rpc _ \<Rightarrow> True | Xdr _ \<Rightarrow> True | _ \<Rightarrow> False)
        in if \<not> lacks_authoritative_result then source
           else
             let (outcome, recovery) =
                   (case cls of
                      ReadOnly \<Rightarrow> (SafeToRetry, Retry)
                    | SessionControl \<Rightarrow> (Uncertain, Remount)
                    | ReplaySensitive \<Rightarrow> (Uncertain, VerifyThenResume))
             in OperationOutcome (new_operation_outcome outcome cls recovery context source))"

definition classify_sent_nfs41_error ::
  "operation_class \<Rightarrow> request_context \<Rightarrow> nfs_error \<Rightarrow> nfs_error" where
  "classify_sent_nfs41_error cls context source =
     classify_non_authoritative_error cls context source
       (source = Nfs4 NFS4ERR_RETRY_UNCACHED_REP \<or> source = Nfs4 NFS4ERR_SEQ_FALSE_RETRY)"

definition classify_sent_nfs3_error ::
  "operation_class \<Rightarrow> request_context \<Rightarrow> nfs_error \<Rightarrow> nfs_error" where
  "classify_sent_nfs3_error cls context source =
     classify_non_authoritative_error cls context source False"

definition classify_sent_nfs40_error ::
  "operation_class \<Rightarrow> request_context \<Rightarrow> nfs_error \<Rightarrow> nfs_error" where
  "classify_sent_nfs40_error cls context source =
     classify_non_authoritative_error cls context source False"

subsection \<open>What the predicates mean\<close>

text \<open>\<open>nested_in d e\<close>: the error \<open>d\<close> is \<open>e\<close> or one of the errors it wraps, through any
  number of outcome, busy and close wrappers.\<close>

inductive nested_in :: "nfs_error \<Rightarrow> nfs_error \<Rightarrow> bool" where
  nested_refl: "nested_in e e"
| nested_outcome: "nested_in d source
    \<Longrightarrow> nested_in d (OperationOutcome (OperationOutcomeError oc cl tx rc cb source ctx))"
| nested_busy: "nested_in d source
    \<Longrightarrow> nested_in d (ServerBusy (ServerBusyError ctx n t reason source))"
| nested_close: "f \<in> set failures \<Longrightarrow> nested_in d (fc_error f) \<Longrightarrow> nested_in d (FileClose failures)"

inductive_cases nested_outcomeE: "nested_in d (OperationOutcome oe)"
inductive_cases nested_busyE: "nested_in d (ServerBusy sb)"
inductive_cases nested_closeE: "nested_in d (FileClose fs)"

inductive_simps nested_leaf_simps [simp]:
  "nested_in d (Io x)" "nested_in d (Nfs3 c)" "nested_in d (Nfs4 c)"
  "nested_in d (LockDenied a b l w)" "nested_in d (MountError c)" "nested_in d (Rpc m)"
  "nested_in d (Xdr m)" "nested_in d (Unsupported m)" "nested_in d (InvalidInput m)"
  "nested_in d (ClosedResource m)" "nested_in d (ModeViolation m)" "nested_in d (ClientClosed m)"
  "nested_in d (PositionUncertain m)" "nested_in d (LostOpenState m)" "nested_in d (RdattrError c)"

inductive_simps nested_node_simps:
  "nested_in d (OperationOutcome (OperationOutcomeError oc cl tx rc cb source ctx))"
  "nested_in d (ServerBusy (ServerBusyError ctx n t reason source))"
  "nested_in d (FileClose failures)"

fun uncertain_node :: "nfs_error \<Rightarrow> bool" where
  "uncertain_node (OperationOutcome oe) \<longleftrightarrow> oe_outcome oe = Uncertain"
| "uncertain_node _ \<longleftrightarrow> False"

fun busy_node :: "nfs_error \<Rightarrow> bool" where
  "busy_node (ServerBusy _) \<longleftrightarrow> True"
| "busy_node (Nfs3 c) \<longleftrightarrow> c = NFS3ERR_JUKEBOX"
| "busy_node (Nfs4 c) \<longleftrightarrow> c = 10008 \<or> c = 10013"
| "busy_node _ \<longleftrightarrow> False"

lemma contains_uncertain_outcome_iff:
  "contains_uncertain_outcome e \<longleftrightarrow> (\<exists>d. nested_in d e \<and> uncertain_node d)"
  by (induction e rule: contains_uncertain_outcome.induct)
     (auto simp: nested_node_simps list_ex_iff)

lemma nested_in_trans: "nested_in d e \<Longrightarrow> nested_in e f \<Longrightarrow> nested_in d f"
  by (rotate_tac, induction e f rule: nested_in.induct) (auto intro: nested_in.intros)

lemma contains_uncertain_mono:
  "nested_in d e \<Longrightarrow> contains_uncertain_outcome d \<Longrightarrow> contains_uncertain_outcome e"
  unfolding contains_uncertain_outcome_iff using nested_in_trans by blast

text \<open>An error counts as server-busy backpressure, which is what the retry loops act on,
  exactly when one of the errors it wraps is a busy status and none of them, at any depth,
  is an outcome marked uncertain.\<close>

theorem is_server_busy_exact:
  "is_server_busy e \<longleftrightarrow>
     (\<exists>d. nested_in d e \<and> busy_node d) \<and> \<not> (\<exists>d. nested_in d e \<and> uncertain_node d)"
  unfolding contains_uncertain_outcome_iff [symmetric]
proof (induction e rule: is_server_busy.induct)
  case (1 e)
  show ?case
  proof (cases e)
    case (OperationOutcome oe)
    with 1 show ?thesis by (cases oe) (auto simp: nested_node_simps)
  next
    case (FileClose fs)
    with 1 show ?thesis by (auto simp: nested_node_simps list_ex_iff) blast
  next
    case (ServerBusy sb)
    then show ?thesis by (cases sb) (auto simp: nested_node_simps)
  qed auto
qed

text \<open>\<open>authoritative e\<close>: the error is a reply of the server or a local refusal, not a lost,
  malformed or unclassified exchange.\<close>

fun authoritative :: "nfs_error \<Rightarrow> bool" where
  "authoritative (Io _) \<longleftrightarrow> False"
| "authoritative (Rpc _) \<longleftrightarrow> False"
| "authoritative (Xdr _) \<longleftrightarrow> False"
| "authoritative (OperationOutcome _) \<longleftrightarrow> False"
| "authoritative (Nfs4 c) \<longleftrightarrow> c \<noteq> NFS4ERR_RETRY_UNCACHED_REP \<and> c \<noteq> NFS4ERR_SEQ_FALSE_RETRY"
| "authoritative _ \<longleftrightarrow> True"

text \<open>C15. A failed NFSv4.1 request that is not read-only and not proved unsent never comes back
  with advice to retry: a definite answer of the server is passed on unchanged, and anything
  else becomes an uncertain outcome for the caller's class and context that asks for
  verification or a remount and that no retry loop takes for backpressure.\<close>

theorem classify_mutation_never_blind_retry:
  assumes "cls \<noteq> ReadOnly" and "request_transmission_of e \<noteq> Some NotSent"
  shows "if authoritative e then classify_sent_nfs41_error cls ctx e = e
         else \<exists>oe. classify_sent_nfs41_error cls ctx e = OperationOutcome oe
              \<and> oe_outcome oe = Uncertain \<and> oe_class oe = cls \<and> oe_context oe = ctx
              \<and> oe_source oe = e \<and> oe_transmission oe = Sent
              \<and> oe_recovery oe = (if cls = SessionControl then Remount else VerifyThenResume)
              \<and> \<not> is_server_busy (OperationOutcome oe)"
proof -
  have busy: "\<not> is_server_busy (OperationOutcome (OperationOutcomeError Uncertain cl tx rc cb s c))"
    for cl tx rc cb s c by simp
  have tx: "request_transmission_of e = Some Sent \<Longrightarrow> \<not> authoritative e"
    by (cases e) auto
  show ?thesis
    using assms busy tx
    by (cases e; cases cls)
       (auto simp: classify_sent_nfs41_error_def classify_non_authoritative_error_def
          new_operation_outcome_def Let_def)
qed

theorem classify_mutation_never_blind_retry_witness:
  "ReplaySensitive \<noteq> ReadOnly \<and> request_transmission_of (Rpc ''truncated'') \<noteq> Some NotSent
   \<and> (\<exists>oe. classify_sent_nfs41_error ReplaySensitive
             \<lparr>ctx_operation = ''write'', ctx_protocol = NFSv4p1, ctx_request_id = None\<rparr> (Rpc ''truncated'')
           = OperationOutcome oe \<and> oe_outcome oe = Uncertain \<and> oe_recovery oe = VerifyThenResume)"
  using classify_mutation_never_blind_retry [of ReplaySensitive "Rpc ''truncated''"
      "\<lparr>ctx_operation = ''write'', ctx_protocol = NFSv4p1, ctx_request_id = None\<rparr>"]
  by auto

end
