(* ===== verification/Transitions.thy ===== *)
theory Transitions
  imports NFS_Prelude "HOL-Library.Multiset"
begin

text \<open>
  State machines of the development.  A component whose calls interleave is a step relation on
  its state; \<open>reachable\<close> is the set of states its runs visit, and the locale
  \<open>inductive_invariant\<close> is the contract by which a component establishes an invariant:
  the initial states satisfy it and every step keeps it.
\<close>

inductive reachable :: "('s \<Rightarrow> bool) \<Rightarrow> ('s \<Rightarrow> 's \<Rightarrow> bool) \<Rightarrow> 's \<Rightarrow> bool"
  for init :: "'s \<Rightarrow> bool" and step :: "'s \<Rightarrow> 's \<Rightarrow> bool" where
  reachable_init: "init s \<Longrightarrow> reachable init step s"
| reachable_step: "reachable init step s \<Longrightarrow> step s s' \<Longrightarrow> reachable init step s'"

lemma reachable_steps:
  "reachable init step s \<Longrightarrow> step\<^sup>*\<^sup>* s s' \<Longrightarrow> reachable init step s'"
  by (rotate_tac, induction rule: rtranclp_induct) (auto intro: reachable_step)

locale inductive_invariant =
  fixes init :: "'s \<Rightarrow> bool" and step :: "'s \<Rightarrow> 's \<Rightarrow> bool" and inv :: "'s \<Rightarrow> bool"
  assumes init_inv: "init s \<Longrightarrow> inv s"
    and step_inv: "inv s \<Longrightarrow> step s s' \<Longrightarrow> inv s'"
begin

lemma reachable_inv: "reachable init step s \<Longrightarrow> inv s"
  by (induction rule: reachable.induct) (auto intro: init_inv step_inv)

lemma steps_inv: "step\<^sup>*\<^sup>* s s' \<Longrightarrow> inv s \<Longrightarrow> inv s'"
  by (induction rule: rtranclp_induct) (auto intro: step_inv)

text \<open>A property that every step keeps, given the invariant, holds from then on.\<close>

lemma stable_along:
  assumes "reachable init step s" and "step\<^sup>*\<^sup>* s s'" and "P s"
    and "\<And>a b. inv a \<Longrightarrow> P a \<Longrightarrow> step a b \<Longrightarrow> P b"
  shows "P s'"
proof -
  have "inv s" using assms(1) by (rule reachable_inv)
  with assms(2,3) have "P s' \<and> inv s'"
    by (induction rule: rtranclp_induct) (auto intro: assms(4) step_inv)
  then show ?thesis ..
qed

end

end
