(* ===== verification/Slots.thy ===== *)
theory Slots
  imports Errors Transitions
begin

text \<open>
  The slot table of an NFSv4.1 session (\<open>src/src/nfs41/session.rs\<close>): the pool of free slot
  ids, the semaphore that bounds concurrent requests, the fence count, the server's target and
  the bitmap of slots in use.

  Tasks share the table through atomics and a mutex, so the table runs as a step relation: a
  state is the table with the multiset of the phases its tasks are in, and one step is one
  atomic access of one task.  A task that waits for a notification may be woken at any time;
  this covers every schedule of \<open>notify_one\<close> and \<open>notify_waiters\<close>.
\<close>

subsection \<open>The table\<close>

datatype slot_disposition = Release | Fence

record slot_table =
  slots :: "u32 list"
  free_pool :: "u32 list"
  permits :: nat
  sem_closed :: bool
  fenced_slots :: u32
  target_highest_slot_id :: u32
  active_or_fenced_slots :: u64

record acquired_slot =
  as_slot_id :: u32
  as_sequence_id :: u32
  as_disposition :: slot_disposition

definition slot_table_new :: "u32 \<Rightarrow> slot_table" where
  "slot_table_new num_slots =
     \<lparr>slots = replicate (unat num_slots) 1,
      free_pool = map word_of_nat [0..<unat num_slots],
      permits = unat num_slots, sem_closed = False, fenced_slots = 0,
      target_highest_slot_id = saturating_sub num_slots 1,
      active_or_fenced_slots = 0\<rparr>"

text \<open>\<open>1u64.checked_shl(slot_id)\<close>.\<close>

definition slot_mask :: "u32 \<Rightarrow> u64 option" where
  "slot_mask slot_id = (if unat slot_id < 64 then Some (push_bit (unat slot_id) 1) else None)"

text \<open>The pool section of \<open>acquire\<close>: the first free slot at or below the target.\<close>

fun pool_take :: "u32 \<Rightarrow> u32 list \<Rightarrow> (u32 \<times> u32 list) option" where
  "pool_take target [] = None"
| "pool_take target (s # pool) =
     (if s \<le> target then Some (s, pool)
      else map_option (\<lambda>(r, rest). (r, s # rest)) (pool_take target pool))"

text \<open>\<open>acquired\<close>: mark the slot in the bitmap and read its sequence id.\<close>

definition acquired :: "slot_table \<Rightarrow> u32 \<Rightarrow> (slot_table \<times> acquired_slot) result" where
  "acquired t slot_id =
     (case slot_mask slot_id of
        None \<Rightarrow> Err (Rpc (''slot ID '' @ show_nat (unat slot_id) @ '' exceeds bitmap bound''))
      | Some m \<Rightarrow>
          let t' = t\<lparr>active_or_fenced_slots := active_or_fenced_slots t OR m\<rparr> in
          if unat slot_id < length (slots t')
          then Ok (t', \<lparr>as_slot_id = slot_id, as_sequence_id = slots t' ! unat slot_id,
                        as_disposition = Release\<rparr>)
          else Panic)"

definition update_target_highest_slot_id :: "slot_table \<Rightarrow> u32 \<Rightarrow> slot_table result" where
  "update_target_highest_slot_id t target =
     (if length (slots t) \<ge> 2 ^ 32 then Err (Rpc ''slot table size exceeds u32'')
      else if length (slots t) = 0
      then Err (Rpc ''session negotiated zero fore-channel slots'')
      else if unat target > length (slots t) - 1
      then Err (Xdr (''SEQUENCE target_highest_slotid '' @ show_nat (unat target)
                 @ '' exceeds negotiated maximum '' @ show_nat (length (slots t) - 1)))
      else Ok (t\<lparr>target_highest_slot_id := target\<rparr>))"

text \<open>\<open>release\<close> is three accesses: clear the bitmap, push the slot, add the permit.\<close>

definition release_clear :: "slot_table \<Rightarrow> u32 \<Rightarrow> slot_table" where
  "release_clear t slot_id =
     (case slot_mask slot_id of
        Some m \<Rightarrow> t\<lparr>active_or_fenced_slots := active_or_fenced_slots t AND NOT m\<rparr>
      | None \<Rightarrow> t)"

definition release_push :: "slot_table \<Rightarrow> u32 \<Rightarrow> slot_table" where
  "release_push t slot_id = t\<lparr>free_pool := free_pool t @ [slot_id]\<rparr>"

definition add_permit :: "slot_table \<Rightarrow> slot_table" where
  "add_permit t = t\<lparr>permits := permits t + 1\<rparr>"

definition leading_zeros :: "u64 \<Rightarrow> nat" where
  "leading_zeros w = length (takeWhile (\<lambda>i. \<not> bit w i) (rev [0..<64]))"

definition highest_slot_id :: "slot_table \<Rightarrow> u32" where
  "highest_slot_id t =
     (let active = active_or_fenced_slots t;
          highest_active = (if active = 0 then 0 else word_of_nat (63 - leading_zeros active))
      in max highest_active (target_highest_slot_id t))"

text \<open>The guard of a slot that is held.\<close>

definition fence_on_drop :: "acquired_slot \<Rightarrow> acquired_slot" where
  "fence_on_drop a = a\<lparr>as_disposition := Fence\<rparr>"

definition resolve :: "acquired_slot \<Rightarrow> acquired_slot" where
  "resolve a = a\<lparr>as_disposition := Release\<rparr>"

definition slot_advance :: "slot_table \<Rightarrow> acquired_slot \<Rightarrow> slot_table" where
  "slot_advance t a =
     t\<lparr>slots := (slots t)[unat (as_slot_id a) := slots t ! unat (as_slot_id a) + 1]\<rparr>"

definition current_sequence_id :: "slot_table \<Rightarrow> acquired_slot \<Rightarrow> u32" where
  "current_sequence_id t a = slots t ! unat (as_slot_id a)"

text \<open>\<open>acquire\<close>, \<open>release\<close> and the drop of a guard as one task runs them when nothing interleaves;
  \<open>Ok None\<close> stands for the paths on which \<open>acquire\<close> waits.\<close>

definition acquire_now :: "slot_table \<Rightarrow> (slot_table \<times> acquired_slot) option result" where
  "acquire_now t =
     (if sem_closed t then Err (Rpc ''session slot table closed'')
      else if permits t = 0 then Ok None
      else case pool_take (target_highest_slot_id t) (free_pool t) of
             None \<Rightarrow> Ok None
           | Some (s, pool) \<Rightarrow>
               and_then (acquired (t\<lparr>permits := permits t - 1, free_pool := pool\<rparr>) s) (Ok \<circ> Some))"

definition release :: "slot_table \<Rightarrow> u32 \<Rightarrow> slot_table" where
  "release t slot_id = add_permit (release_push (release_clear t slot_id) slot_id)"

definition drop_guard :: "slot_table \<Rightarrow> acquired_slot \<Rightarrow> slot_table" where
  "drop_guard t a =
     (if as_disposition a = Release then release t (as_slot_id a)
      else let fenced = fenced_slots t + 1; t' = t\<lparr>fenced_slots := fenced\<rparr>
           in if unat fenced \<ge> length (slots t) then t'\<lparr>sem_closed := True\<rparr> else t')"

subsection \<open>Tasks\<close>

text \<open>Where a task stands in \<open>acquire\<close> or in the drop of its guard.  \<open>Counted s full\<close> has
  raised the fence count and found the table full or not; \<open>Fenced s\<close> is a guard dropped with
  its slot fenced; \<open>Leaked s\<close> is a slot whose id does not fit the bitmap.\<close>

datatype phase =
    Starting | Permitted | Targeted u32 | Returning | Waiting | Picked u32
  | Holding acquired_slot | Cleared u32 | Pushed | Counted u32 bool | Fenced u32 | Leaked u32
  | Refused

inductive slot_step :: "slot_table \<times> phase multiset \<Rightarrow> slot_table \<times> phase multiset \<Rightarrow> bool" where
  spawn: "slot_step (t, M) (t, add_mset Starting M)"
| cancel_start: "slot_step (t, add_mset Starting M) (t, M)"
| cancel_wait: "slot_step (t, add_mset Waiting M) (t, M)"
| permit: "\<not> sem_closed t \<Longrightarrow> permits t > 0
    \<Longrightarrow> slot_step (t, add_mset Starting M) (t\<lparr>permits := permits t - 1\<rparr>, add_mset Permitted M)"
| refuse: "sem_closed t \<Longrightarrow> slot_step (t, add_mset Starting M) (t, add_mset Refused M)"
| load_target: "slot_step (t, add_mset Permitted M)
    (t, add_mset (Targeted (target_highest_slot_id t)) M)"
| pick: "pool_take target (free_pool t) = Some (s, pool)
    \<Longrightarrow> slot_step (t, add_mset (Targeted target) M) (t\<lparr>free_pool := pool\<rparr>, add_mset (Picked s) M)"
| no_slot: "pool_take target (free_pool t) = None
    \<Longrightarrow> slot_step (t, add_mset (Targeted target) M) (t, add_mset Returning M)"
| return_permit: "slot_step (t, add_mset Returning M) (add_permit t, add_mset Waiting M)"
| wake: "slot_step (t, add_mset Waiting M) (t, add_mset Starting M)"
| hold: "acquired t s = Ok (t', a) \<Longrightarrow> slot_step (t, add_mset (Picked s) M) (t', add_mset (Holding a) M)"
| leak: "acquired t s = Err e \<Longrightarrow> slot_step (t, add_mset (Picked s) M) (t, add_mset (Leaked s) M)"
| fence: "slot_step (t, add_mset (Holding a) M) (t, add_mset (Holding (fence_on_drop a)) M)"
| resolve: "slot_step (t, add_mset (Holding a) M) (t, add_mset (Holding (resolve a)) M)"
| advance: "slot_step (t, add_mset (Holding a) M) (slot_advance t a, add_mset (Holding a) M)"
| drop_release: "as_disposition a = Release
    \<Longrightarrow> slot_step (t, add_mset (Holding a) M)
         (release_clear t (as_slot_id a), add_mset (Cleared (as_slot_id a)) M)"
| push: "slot_step (t, add_mset (Cleared s) M) (release_push t s, add_mset Pushed M)"
| repay: "slot_step (t, add_mset Pushed M) (add_permit t, M)"
| drop_fence: "as_disposition a = Fence
    \<Longrightarrow> slot_step (t, add_mset (Holding a) M)
         (t\<lparr>fenced_slots := fenced_slots t + 1\<rparr>,
          add_mset (Counted (as_slot_id a) (unat (fenced_slots t + 1) \<ge> length (slots t))) M)"
| close: "slot_step (t, add_mset (Counted s True) M) (t\<lparr>sem_closed := True\<rparr>, add_mset (Fenced s) M)"
| stay_open: "slot_step (t, add_mset (Counted s False) M) (t, add_mset (Fenced s) M)"
| retarget: "update_target_highest_slot_id t target = Ok t' \<Longrightarrow> slot_step (t, M) (t', M)"

subsection \<open>Invariant\<close>

text \<open>The slots a task answers for, the permits it owes the semaphore, whether its slot is
  fenced, and the slots it has marked in the bitmap.\<close>

fun owned :: "phase \<Rightarrow> u32 multiset" where
  "owned (Picked s) = {#s#}"
| "owned (Holding a) = {#as_slot_id a#}"
| "owned (Cleared s) = {#s#}"
| "owned (Counted s _) = {#s#}"
| "owned (Fenced s) = {#s#}"
| "owned (Leaked s) = {#s#}"
| "owned _ = {#}"

fun permit_debt :: "phase \<Rightarrow> nat" where
  "permit_debt Permitted = 1"
| "permit_debt (Targeted _) = 1"
| "permit_debt Returning = 1"
| "permit_debt Pushed = 1"
| "permit_debt _ = 0"

fun fence_count :: "phase \<Rightarrow> nat" where
  "fence_count (Counted _ _) = 1"
| "fence_count (Fenced _) = 1"
| "fence_count _ = 0"

fun marks :: "phase \<Rightarrow> u32 \<Rightarrow> bool" where
  "marks (Holding a) s \<longleftrightarrow> s = as_slot_id a"
| "marks (Counted s' _) s \<longleftrightarrow> s = s'"
| "marks (Fenced s') s \<longleftrightarrow> s = s'"
| "marks _ s \<longleftrightarrow> False"

abbreviation owned_slots :: "phase multiset \<Rightarrow> u32 multiset" where
  "owned_slots M \<equiv> \<Sum>\<^sub># (image_mset owned M)"

abbreviation permits_owed :: "phase multiset \<Rightarrow> nat" where
  "permits_owed M \<equiv> \<Sum>\<^sub># (image_mset permit_debt M)"

abbreviation fences :: "phase multiset \<Rightarrow> nat" where
  "fences M \<equiv> \<Sum>\<^sub># (image_mset fence_count M)"

definition all_slots :: "nat \<Rightarrow> u32 multiset" where
  "all_slots n = mset (map word_of_nat [0..<n])"

definition slot_inv :: "u32 \<Rightarrow> slot_table \<times> phase multiset \<Rightarrow> bool" where
  "slot_inv n = (\<lambda>(t, M).
     length (slots t) = unat n
   \<and> mset (free_pool t) + owned_slots M = all_slots (unat n)
   \<and> permits t + permits_owed M = length (free_pool t)
   \<and> unat (fenced_slots t) = fences M
   \<and> (sem_closed t \<longrightarrow> unat n \<le> fences M)
   \<and> (\<forall>s. Counted s True \<in># M \<longrightarrow> unat n \<le> fences M)
   \<and> (\<forall>p s. p \<in># M \<longrightarrow> marks p s \<longrightarrow> unat s < 64 \<and> bit (active_or_fenced_slots t) (unat s)))"

definition slot_init :: "u32 \<Rightarrow> slot_table \<times> phase multiset \<Rightarrow> bool" where
  "slot_init n s \<longleftrightarrow> s = (slot_table_new n, {#})"

lemma pool_take_mset:
  "pool_take target pool = Some (s, pool') \<Longrightarrow>
     mset pool = add_mset s (mset pool') \<and> length pool = Suc (length pool') \<and> s \<le> target"
  by (induction pool arbitrary: s pool') (auto split: if_splits)

lemma pool_take_None_iff: "pool_take target pool = None \<longleftrightarrow> (\<forall>s\<in>set pool. target < s)"
  by (induction pool) (auto simp: not_le)

lemma size_all_slots [simp]: "size (all_slots n) = n"
  by (simp add: all_slots_def)

lemma count_all_slots: "count (all_slots (unat n)) s \<le> 1" for n :: u32
proof -
  have "inj_on (word_of_nat :: nat \<Rightarrow> u32) {0..<unat n}"
    using unat_of_nat_small [where 'a = 32] unat_u32_le [of n]
    by (intro inj_on_inverseI [where g = unat]) auto
  then have "distinct (map (word_of_nat :: nat \<Rightarrow> u32) [0..<unat n])"
    by (simp add: distinct_map)
  then show ?thesis
    by (simp add: all_slots_def distinct_count_atmost_1)
qed

lemma in_all_slots: "s \<in># all_slots (unat n) \<Longrightarrow> unat s < unat n" for n s :: u32
  using unat_u32_le [of n] by (auto simp: all_slots_def unat_of_nat_small)

lemma marks_owned: "marks p s \<Longrightarrow> s \<in># owned p"
  by (cases "(p, s)" rule: marks.cases) auto

lemma fence_count_le: "fence_count p \<le> size (owned p)"
  by (cases p) auto

lemma fences_le_owned: "fences M \<le> size (owned_slots M)"
  using fence_count_le by (induction M) (auto intro: add_mono)

lemma owned_slots_member: "p \<in># M \<Longrightarrow> s \<in># owned p \<Longrightarrow> s \<in># owned_slots M"
  by (auto dest!: multi_member_split)

text \<open>Two tasks never answer for the same slot.\<close>

lemma owned_disjoint:
  assumes "slot_inv n (t, add_mset p M)" and "s \<in># owned p"
  shows "s \<notin># owned_slots M" and "s \<notin> set (free_pool t)"
proof -
  from assms have "count (mset (free_pool t) + (owned p + owned_slots M)) s \<le> 1"
    using count_all_slots [of n s] by (simp add: slot_inv_def)
  moreover have "count (owned p) s \<ge> 1" using assms(2) by (simp add: Suc_le_eq)
  ultimately have "count (owned_slots M) s = 0" and "count (mset (free_pool t)) s = 0"
    unfolding count_union by linarith+
  then show "s \<notin># owned_slots M" "s \<notin> set (free_pool t)"
    unfolding count_eq_zero_iff by simp_all
qed

lemma slot_inv_size:
  assumes "slot_inv n (t, M)"
  shows "length (free_pool t) + size (owned_slots M) = unat n"
proof -
  have "mset (free_pool t) + owned_slots M = all_slots (unat n)"
    using assms by (simp add: slot_inv_def)
  then have "size (mset (free_pool t) + owned_slots M) = unat n" by (simp only: size_all_slots)
  then show ?thesis by simp
qed

lemma bit_slot_mask:
  "slot_mask s = Some m \<Longrightarrow> unat s < 64 \<and> (bit m i \<longleftrightarrow> i = unat s)"
  by (auto simp: slot_mask_def bit_simps split: if_splits)

lemma acquired_Ok:
  "acquired t s = Ok (t', a) \<Longrightarrow>
     unat s < 64 \<and> unat s < length (slots t)
   \<and> t' = t\<lparr>active_or_fenced_slots := active_or_fenced_slots t OR push_bit (unat s) 1\<rparr>
   \<and> a = \<lparr>as_slot_id = s, as_sequence_id = slots t ! unat s, as_disposition = Release\<rparr>"
  by (auto simp: acquired_def slot_mask_def Let_def split: if_splits)

lemma release_clear_simps [simp]:
  "slots (release_clear t s) = slots t" "free_pool (release_clear t s) = free_pool t"
  "permits (release_clear t s) = permits t" "sem_closed (release_clear t s) = sem_closed t"
  "fenced_slots (release_clear t s) = fenced_slots t"
  "target_highest_slot_id (release_clear t s) = target_highest_slot_id t"
  by (auto simp: release_clear_def split: option.splits)

lemma bit_release_clear:
  "bit (active_or_fenced_slots (release_clear t s)) i \<longleftrightarrow>
     bit (active_or_fenced_slots t) i \<and> \<not> (i = unat s \<and> unat s < 64)"
  by (auto simp: release_clear_def slot_mask_def bit_simps dest: bit_imp_le_length)

lemma slot_inv_init: "slot_init n s \<Longrightarrow> slot_inv n s"
  by (auto simp: slot_init_def slot_inv_def slot_table_new_def all_slots_def)

lemma slot_inv_step: "slot_step s s' \<Longrightarrow> slot_inv n s \<Longrightarrow> slot_inv n s'"
proof (induction rule: slot_step.induct)
  case (pick target t s pool M)
  then show ?case
    using pool_take_mset [of target "free_pool t" s pool]
    by (auto simp: slot_inv_def)
next
  case (hold t s t' a M)
  then show ?case
    using acquired_Ok [OF hold.hyps] by (auto simp: slot_inv_def bit_simps)
next
  case (drop_release a t M)
  have "p \<in># M \<Longrightarrow> marks p s \<Longrightarrow> unat s \<noteq> unat (as_slot_id a)" for p s
    using owned_disjoint(1) [OF drop_release.prems] owned_slots_member marks_owned
    by (auto simp: word_unat_eq_iff [symmetric])
  with drop_release show ?case
    by (auto simp: slot_inv_def bit_release_clear)
next
  case (drop_fence a t M)
  have "fences M + 1 \<le> unat n"
    using slot_inv_size [OF drop_fence.prems] fences_le_owned [of M] by simp
  then have "unat (fenced_slots t + 1) = unat (fenced_slots t) + 1"
    using drop_fence.prems unat_u32_le [of n]
    by (intro trans [OF unat_add_no_overflow]) (auto simp: slot_inv_def)
  with drop_fence show ?case
    by (auto simp: slot_inv_def)
next
  case (retarget t target t' M)
  then show ?case
    by (auto simp: slot_inv_def update_target_highest_slot_id_def split: if_splits)
qed (auto simp: slot_inv_def add_permit_def fence_on_drop_def resolve_def slot_advance_def
      release_push_def split: if_splits)

interpretation slots: inductive_invariant "slot_init n" slot_step "slot_inv n" for n
  by unfold_locales (auto intro: slot_inv_init slot_inv_step)

subsection \<open>Properties\<close>

text \<open>C9. A slot id in use belongs to one request: while a task holds a slot, no other task
  holds, releases or has fenced that slot, the slot is not in the free pool, and its id is
  within the table the session negotiated.\<close>

theorem slot_held_exclusively:
  assumes "reachable (slot_init n) slot_step (t, add_mset (Holding a) (add_mset p M))"
  shows "as_slot_id a \<notin># owned p \<and> as_slot_id a \<notin> set (free_pool t)
       \<and> unat (as_slot_id a) < length (slots t) \<and> length (slots t) = unat n"
proof -
  have inv: "slot_inv n (t, add_mset (Holding a) (add_mset p M))"
    using assms by (rule slots.reachable_inv)
  then have "all_slots (unat n) = mset (free_pool t) + owned_slots (add_mset (Holding a) (add_mset p M))"
    by (simp add: slot_inv_def)
  then have "as_slot_id a \<in># all_slots (unat n)" by simp
  then have "unat (as_slot_id a) < unat n" by (rule in_all_slots)
  moreover have "length (slots t) = unat n" using inv by (simp add: slot_inv_def)
  ultimately show ?thesis
    using owned_disjoint [OF inv, of "as_slot_id a"] by simp
qed

lemma slot_step_keeps_fence:
  "slot_step x y \<Longrightarrow> slot_inv n x \<Longrightarrow> Fenced s \<in># snd x
    \<Longrightarrow> Fenced s \<in># snd y \<and> slots (fst y) ! unat s = slots (fst x) ! unat s"
proof (induction rule: slot_step.induct)
  case (advance t a M)
  have "s \<noteq> as_slot_id a"
    using owned_disjoint(1) [OF advance.prems(1), of "as_slot_id a"] advance.prems(2)
      owned_slots_member [of "Fenced s" M s] by auto
  with advance show ?case by (auto simp: slot_advance_def word_unat_eq_iff)
next
  case (hold t r t' a M)
  then show ?case using acquired_Ok [OF hold.hyps] by simp
next
  case (retarget t target t' M)
  then show ?case by (auto simp: update_target_highest_slot_id_def split: if_splits)
qed (simp_all add: add_permit_def release_push_def)

text \<open>C10. A request whose outcome is unknown fences its slot for the rest of the session: from
  then on the slot keeps its sequence id and no task ever holds it again, whatever the other
  tasks do.\<close>

theorem fenced_slot_never_reused:
  assumes "reachable (slot_init n) slot_step (t, M)" and "Fenced s \<in># M"
    and "slot_step\<^sup>*\<^sup>* (t, M) (t', M')"
  shows "slots t' ! unat s = slots t ! unat s \<and> (\<forall>a. Holding a \<in># M' \<longrightarrow> as_slot_id a \<noteq> s)"
proof -
  let ?P = "\<lambda>y. Fenced s \<in># snd y \<and> slots (fst y) ! unat s = slots t ! unat s"
  have P: "?P (t', M')"
  proof (rule slots.stable_along [OF assms(1,3)])
    show "?P (t, M)" using assms(2) by simp
    show "?P b" if "slot_inv n a" "?P a" "slot_step a b" for a b
      using slot_step_keeps_fence [OF that(3,1), of s] that(2) by simp
  qed
  have "slot_inv n (t', M')"
    using reachable_steps [OF assms(1,3)] by (rule slots.reachable_inv)
  moreover obtain N where "M' = add_mset (Fenced s) N"
    using P by (auto dest: multi_member_split)
  ultimately have "s \<notin># owned_slots N" and "M' = add_mset (Fenced s) N"
    using owned_disjoint(1) [of n t' "Fenced s" N s] by auto
  moreover have "as_slot_id a \<noteq> s" if "Holding a \<in># M'" for a
    using that owned_slots_member [of "Holding a" N "as_slot_id a"] calculation by auto
  ultimately show ?thesis using P by simp
qed

text \<open>The uninterrupted operations are runs of the step relation.\<close>

lemma acquire_now_steps:
  assumes "acquire_now t = Ok (Some (t', a))"
  shows "slot_step\<^sup>*\<^sup>* (t, M) (t', add_mset (Holding a) M)"
proof -
  from assms obtain s pool where opn: "\<not> sem_closed t" "permits t > 0"
    and take: "pool_take (target_highest_slot_id t) (free_pool t) = Some (s, pool)"
    and acq: "acquired (t\<lparr>permits := permits t - 1, free_pool := pool\<rparr>) s = Ok (t', a)"
    by (auto simp: acquire_now_def split: if_splits option.splits)
  let ?t = "t\<lparr>permits := permits t - 1\<rparr>"
  have "slot_step (t, M) (t, add_mset Starting M)" by (rule spawn)
  moreover have "slot_step (t, add_mset Starting M) (?t, add_mset Permitted M)"
    by (rule permit [OF opn])
  moreover have "slot_step (?t, add_mset Permitted M)
      (?t, add_mset (Targeted (target_highest_slot_id t)) M)"
    using load_target [of ?t M] by simp
  moreover have "slot_step (?t, add_mset (Targeted (target_highest_slot_id t)) M)
      (?t\<lparr>free_pool := pool\<rparr>, add_mset (Picked s) M)"
    by (rule pick) (simp add: take)
  moreover have "slot_step (?t\<lparr>free_pool := pool\<rparr>, add_mset (Picked s) M) (t', add_mset (Holding a) M)"
    by (rule hold) (use acq in simp)
  ultimately show ?thesis by (meson converse_rtranclp_into_rtranclp rtranclp.rtrancl_refl)
qed

lemma drop_release_steps:
  assumes "as_disposition a = Release"
  shows "slot_step\<^sup>*\<^sup>* (t, add_mset (Holding a) M) (drop_guard t a, M)"
proof -
  let ?s = "as_slot_id a"
  have "slot_step (t, add_mset (Holding a) M) (release_clear t ?s, add_mset (Cleared ?s) M)"
    by (rule drop_release [OF assms])
  moreover have "slot_step (release_clear t ?s, add_mset (Cleared ?s) M)
      (release_push (release_clear t ?s) ?s, add_mset Pushed M)" by (rule push)
  moreover have "slot_step (release_push (release_clear t ?s) ?s, add_mset Pushed M) (drop_guard t a, M)"
    using repay assms by (simp add: drop_guard_def release_def)
  ultimately show ?thesis by (meson converse_rtranclp_into_rtranclp rtranclp.rtrancl_refl)
qed

lemma drop_fence_steps:
  assumes "as_disposition a = Fence"
  shows "slot_step\<^sup>*\<^sup>* (t, add_mset (Holding a) M) (drop_guard t a, add_mset (Fenced (as_slot_id a)) M)"
proof -
  let ?f = "fenced_slots t + 1" and ?s = "as_slot_id a"
  let ?full = "unat ?f \<ge> length (slots t)"
  have "slot_step (t, add_mset (Holding a) M)
      (t\<lparr>fenced_slots := ?f\<rparr>, add_mset (Counted ?s ?full) M)"
    by (rule drop_fence [OF assms])
  moreover have "slot_step (t\<lparr>fenced_slots := ?f\<rparr>, add_mset (Counted ?s ?full) M)
      (drop_guard t a, add_mset (Fenced ?s) M)"
    using assms close [of "t\<lparr>fenced_slots := ?f\<rparr>" ?s M] stay_open [of "t\<lparr>fenced_slots := ?f\<rparr>" ?s M]
    by (cases ?full) (auto simp: drop_guard_def Let_def)
  ultimately show ?thesis by (meson converse_rtranclp_into_rtranclp rtranclp.rtrancl_refl)
qed

definition settled :: "phase \<Rightarrow> bool" where
  "settled p \<longleftrightarrow> (case p of Starting \<Rightarrow> True | Waiting \<Rightarrow> True | Refused \<Rightarrow> True | Holding _ \<Rightarrow> True
                       | Fenced _ \<Rightarrow> True | _ \<Rightarrow> False)"

definition holders :: "phase multiset \<Rightarrow> nat" where
  "holders M = size (filter_mset (\<lambda>p. case p of Holding _ \<Rightarrow> True | _ \<Rightarrow> False) M)"

lemma settled_sums:
  "\<forall>p\<in>#M. settled p \<Longrightarrow> permits_owed M = 0 \<and> size (owned_slots M) = fences M + holders M"
  by (induction M) (auto simp: settled_def holders_def split: phase.splits)

text \<open>Capacity is exact: the semaphore is closed only once every slot is fenced, and when no
  acquisition or release is under way the free permits are the free slots and account, with
  the fenced and the held slots, for the whole table.\<close>

theorem slot_capacity_exact:
  assumes "reachable (slot_init n) slot_step (t, M)"
  shows "(sem_closed t \<longrightarrow> free_pool t = [] \<and> fences M = unat n)
       \<and> ((\<forall>p\<in>#M. settled p) \<longrightarrow>
            permits t = length (free_pool t) \<and> permits t + holders M + fences M = unat n)"
proof -
  have inv: "slot_inv n (t, M)" using assms by (rule slots.reachable_inv)
  have closed: "sem_closed t \<Longrightarrow> unat n \<le> fences M"
    and permits: "permits t + permits_owed M = length (free_pool t)"
    using inv by (simp_all add: slot_inv_def)
  note size = slot_inv_size [OF inv] and le = fences_le_owned [of M]
  show ?thesis
  proof (intro conjI impI)
    assume "sem_closed t"
    with closed size le have "length (free_pool t) = 0 \<and> fences M = unat n" by linarith
    then show "free_pool t = []" "fences M = unat n" by simp_all
  next
    assume "\<forall>p\<in>#M. settled p"
    from settled_sums [OF this] size permits
    show "permits t = length (free_pool t)" "permits t + holders M + fences M = unat n"
      by linarith+
  qed
qed

lemma leading_zeros_ge: "bit w i \<Longrightarrow> i \<le> 63 - leading_zeros w" for w :: u64
proof -
  assume i: "bit w i"
  then have "i < 64" using bit_imp_le_length by fastforce
  then have split: "rev [0..<64] = rev [Suc i..<64] @ i # rev [0..<i]"
    using upt_add_eq_append [of 0 i "64 - i"] upt_conv_Cons [of i 64] by simp
  have "length (takeWhile (\<lambda>j. \<not> bit w j) (rev [Suc i..<64] @ i # rev [0..<i])) \<le> 64 - Suc i"
    using i length_takeWhile_le [of "\<lambda>j. \<not> bit w j" "rev [Suc i..<64]"]
    by (subst takeWhile_append) (auto split: if_splits)
  with \<open>i < 64\<close> show ?thesis unfolding leading_zeros_def split by linarith
qed

text \<open>The highest slot id a client reports in SEQUENCE covers every slot it has in use, held or
  fenced, on every schedule.\<close>

theorem highest_slot_id_covers_held:
  assumes "reachable (slot_init n) slot_step (t, add_mset (Holding a) M)"
  shows "as_slot_id a \<le> highest_slot_id t"
proof -
  have "slot_inv n (t, add_mset (Holding a) M)" using assms by (rule slots.reachable_inv)
  then have i: "unat (as_slot_id a) < 64" "bit (active_or_fenced_slots t) (unat (as_slot_id a))"
    by (auto simp: slot_inv_def)
  let ?h = "63 - leading_zeros (active_or_fenced_slots t)"
  have "unat (as_slot_id a) \<le> ?h" using leading_zeros_ge [OF i(2)] .
  moreover have "unat (word_of_nat ?h :: u32) = ?h" by (rule unat_of_nat_small) simp
  ultimately have "as_slot_id a \<le> word_of_nat ?h" by (simp add: word_le_nat_alt)
  moreover have "active_or_fenced_slots t \<noteq> 0" using i(2) by auto
  ultimately show ?thesis
    by (auto simp: highest_slot_id_def Let_def intro: max.coboundedI1)
qed

fun waits_on :: "u32 \<Rightarrow> phase \<Rightarrow> bool" where
  "waits_on target (Targeted x) \<longleftrightarrow> x = target"
| "waits_on target Starting \<longleftrightarrow> True"
| "waits_on target Permitted \<longleftrightarrow> True"
| "waits_on target Returning \<longleftrightarrow> True"
| "waits_on target Waiting \<longleftrightarrow> True"
| "waits_on target (Fenced _) \<longleftrightarrow> True"
| "waits_on target _ \<longleftrightarrow> False"

definition wedged :: "slot_table \<times> phase multiset \<Rightarrow> bool" where
  "wedged = (\<lambda>(t, M). \<not> sem_closed t \<and> (\<forall>s\<in>set (free_pool t). target_highest_slot_id t < s)
     \<and> (\<forall>p\<in>#M. waits_on (target_highest_slot_id t) p))"

text \<open>The target moves only with the reply to a SEQUENCE (\<open>update_sequence_slot_limits\<close>).  Every caller,
  in \<open>compound\<close>, \<open>compound_ds\<close>, the recall worker, the lease renewal, the bootstrap requests and
  \<open>establish\<close>, still holds the slot on which it sent that SEQUENCE.\<close>

definition sequenced_step :: "slot_table \<times> phase multiset \<Rightarrow> slot_table \<times> phase multiset \<Rightarrow> bool" where
  "sequenced_step x y \<longleftrightarrow> slot_step x y
     \<and> (target_highest_slot_id (fst y) \<noteq> target_highest_slot_id (fst x) \<longrightarrow> (\<exists>a. Holding a \<in># snd x))"

lemma wedged_step: "slot_step x y \<Longrightarrow> wedged x
    \<Longrightarrow> target_highest_slot_id (fst y) = target_highest_slot_id (fst x) \<Longrightarrow> wedged y"
proof (induction rule: slot_step.induct)
  case (pick target t s pool M)
  then show ?case using pool_take_None_iff [of target "free_pool t"] by (auto simp: wedged_def)
next
  case (retarget t target t' M)
  then have "t' = t" by (auto simp: update_target_highest_slot_id_def split: if_splits)
  with retarget show ?case by simp
qed (auto simp: wedged_def add_permit_def)

lemma wedged_sequenced: "wedged x \<Longrightarrow> sequenced_step x y \<Longrightarrow> wedged y"
  using wedged_step [of x y] by (force simp: sequenced_step_def wedged_def case_prod_beta)

text \<open>C25. A session can wedge for good.  Suppose the server has lowered its target below every free
  slot, no task holds or is giving back a slot (those at or below the target are fenced), and every
  acquisition under way has read that target or has yet to read it.  Then the table stays open, so
  no acquisition is ever refused, and none ever succeeds, on every further schedule: only the reply
  to a request could move the target, and no request can get the slot it needs, lease renewals
  included.\<close>

theorem wedged_table_never_grants:
  assumes "wedged (t, M)" and "sequenced_step\<^sup>*\<^sup>* (t, M) (t', M')"
  shows "\<not> sem_closed t' \<and> Holding a \<notin># M' \<and> Refused \<notin># M'
    \<and> target_highest_slot_id t' = target_highest_slot_id t"
proof -
  have "wedged (t', M') \<and> target_highest_slot_id (fst (t', M')) = target_highest_slot_id t"
    using assms(2,1)
  proof (induction rule: rtranclp_induct)
    case (step y z)
    then have "wedged y" "sequenced_step y z" by simp_all
    moreover from this have "target_highest_slot_id (fst z) = target_highest_slot_id (fst y)"
      by (force simp: sequenced_step_def wedged_def case_prod_beta)
    ultimately show ?case using step wedged_sequenced [of y z] by simp
  qed simp
  then show ?thesis by (auto simp: wedged_def)
qed

subsection \<open>A table of two slots\<close>

definition two_held :: slot_table where
  "two_held = \<lparr>slots = [1, 1], free_pool = [], permits = 0, sem_closed = False, fenced_slots = 0,
     target_highest_slot_id = 1, active_or_fenced_slots = 3\<rparr>"

abbreviation guard0 :: acquired_slot where
  "guard0 \<equiv> \<lparr>as_slot_id = 0, as_sequence_id = 1, as_disposition = Release\<rparr>"

abbreviation guard1 :: acquired_slot where
  "guard1 \<equiv> \<lparr>as_slot_id = 1, as_sequence_id = 1, as_disposition = Release\<rparr>"

lemma one_held_run:
  "acquire_now (slot_table_new 2) = Ok (Some (two_held\<lparr>free_pool := [1], permits := 1,
     active_or_fenced_slots := 1\<rparr>, guard0))"
  by code_simp

lemma two_held_run:
  "acquire_now (two_held\<lparr>free_pool := [1], permits := 1, active_or_fenced_slots := 1\<rparr>)
   = Ok (Some (two_held, guard1))"
  by code_simp

lemma one_held_reachable:
  "reachable (slot_init 2) slot_step
     (two_held\<lparr>free_pool := [1], permits := 1, active_or_fenced_slots := 1\<rparr>, {#Holding guard0#})"
  by (rule reachable_steps [OF reachable_init acquire_now_steps [OF one_held_run]])
     (simp add: slot_init_def)

lemma two_held_reachable:
  "reachable (slot_init 2) slot_step (two_held, {#Holding guard1, Holding guard0#})"
  by (rule reachable_steps [OF one_held_reachable acquire_now_steps [OF two_held_run]])

theorem slot_held_exclusively_witness:
  "reachable (slot_init 2) slot_step (two_held, {#Holding guard1, Holding guard0#})
   \<and> as_slot_id guard1 \<notin># owned (Holding guard0) \<and> length (slots two_held) = 2"
  using slot_held_exclusively [of 2 two_held guard1 "Holding guard0" "{#}"] two_held_reachable
  by (simp add: two_held_def)

abbreviation fenced0 :: slot_table where
  "fenced0 \<equiv> two_held\<lparr>free_pool := [1], permits := 1, active_or_fenced_slots := 1, fenced_slots := 1\<rparr>"

lemma fenced0_reachable: "reachable (slot_init 2) slot_step (fenced0, {#Fenced 0#})"
proof -
  let ?t = "two_held\<lparr>free_pool := [1], permits := 1, active_or_fenced_slots := 1\<rparr>"
  have drop: "drop_guard ?t (fence_on_drop guard0) = fenced0" by code_simp
  have fence: "reachable (slot_init 2) slot_step (?t, {#Holding (fence_on_drop guard0)#})"
    by (rule reachable_step [OF one_held_reachable slot_step.fence])
  have "as_disposition (fence_on_drop guard0) = Fence" and id: "as_slot_id (fence_on_drop guard0) = 0"
    by (simp_all add: fence_on_drop_def)
  from reachable_steps [OF fence drop_fence_steps [OF this(1)]] show ?thesis
    unfolding drop id .
qed

theorem fenced_slot_never_reused_witness:
  "reachable (slot_init 2) slot_step (fenced0, {#Fenced 0#}) \<and> slots fenced0 ! 0 = 1
   \<and> 0 \<notin> as_slot_id ` {a. Holding a \<in># {#Fenced 0, Starting#}}"
  using fenced_slot_never_reused [OF fenced0_reachable, of 0 fenced0 "{#Fenced 0, Starting#}"]
    fenced0_reachable spawn [of fenced0 "{#Fenced 0#}"]
  by (auto simp: two_held_def add_mset_commute)

theorem slot_capacity_exact_witness:
  "reachable (slot_init 2) slot_step (two_held, {#Holding guard1, Holding guard0#})
   \<and> permits two_held + holders {#Holding guard1, Holding guard0#} = 2"
  using slot_capacity_exact [OF two_held_reachable] two_held_reachable
  by (simp add: settled_def)

theorem highest_slot_id_covers_held_witness:
  "reachable (slot_init 2) slot_step (two_held, {#Holding guard1, Holding guard0#})
   \<and> as_slot_id guard1 \<le> highest_slot_id two_held"
  using highest_slot_id_covers_held [OF two_held_reachable] two_held_reachable by simp

theorem wedged_table_never_grants_witness:
  "reachable (slot_init 2) slot_step (fenced0\<lparr>target_highest_slot_id := 0\<rparr>, {#Fenced 0#})
   \<and> wedged (fenced0\<lparr>target_highest_slot_id := 0\<rparr>, {#Fenced 0#})
   \<and> sequenced_step\<^sup>*\<^sup>* (fenced0\<lparr>target_highest_slot_id := 0\<rparr>, {#Fenced 0#})
        (fenced0\<lparr>target_highest_slot_id := 0\<rparr>, {#Starting, Fenced 0#})
   \<and> \<not> sem_closed (fenced0\<lparr>target_highest_slot_id := 0\<rparr>) \<and> Holding guard0 \<notin># {#Starting, Fenced 0#}"
proof -
  let ?t = "fenced0\<lparr>target_highest_slot_id := 0\<rparr>"
  have "reachable (slot_init 2) slot_step (?t, {#Fenced 0#})"
    by (rule reachable_step [OF fenced0_reachable retarget [of _ 0]])
       (simp add: update_target_highest_slot_id_def two_held_def)
  moreover have w: "wedged (?t, {#Fenced 0#})" by (simp add: wedged_def two_held_def)
  moreover have run: "sequenced_step\<^sup>*\<^sup>* (?t, {#Fenced 0#}) (?t, {#Starting, Fenced 0#})"
    using spawn [of ?t "{#Fenced 0#}"] by (intro r_into_rtranclp) (simp add: sequenced_step_def)
  ultimately show ?thesis using wedged_table_never_grants [OF w run, of guard0] by blast
qed

end
