(* ===== verification/Xdr.thy ===== *)
theory Xdr
  imports Errors
begin

text \<open>
  Wire primitives shared by the NFSv4 minor versions (\<open>src/src/nfs4/compound.rs\<close>): the XDR
  integers and opaques, the COMPOUND builder of NFSv4.0, the reply prologue and the decoder of
  a path walk; and \<open>String::from_utf8\<close>, which every decoder of a name goes through.

  The decoder of a status word is generated by the build from \<open>nfs4.x\<close>.  It is the parameter
  \<open>stat_error\<close>: \<open>None\<close> when the word is a variant of \<open>nfsstat4\<close>, the decoder's error text
  otherwise.

  \<open>usize\<close> has 64 bits, so the length of an opaque, a \<open>u32\<close>, never overflows when it is padded.
\<close>

subsection \<open>Codecs\<close>

text \<open>The contract between an encoder and a decoder: on the values the encoder can represent, the
  decoder returns the value and exactly the bytes that follow it.\<close>

locale codec =
  fixes enc :: "'a \<Rightarrow> bytes" and dec :: "('a, 'e) reader" and valid :: "'a \<Rightarrow> bool"
  assumes dec_enc: "valid x \<Longrightarrow> dec (enc x @ d) = Ok (x, d)"
begin

lemma dec_enc_nil: "valid x \<Longrightarrow> dec (enc x) = Ok (x, [])"
  using dec_enc [of x "[]"] by simp

lemma enc_prefix_free:
  assumes "valid x" "valid y" "enc x @ d = enc y @ d'"
  shows "x = y \<and> d = d'"
proof -
  have "Ok (x, d) = (Ok (y, d') :: ('a \<times> bytes, 'e) outcome)"
    using dec_enc [OF assms(1), of d] dec_enc [OF assms(2), of d'] unfolding assms(3) by (rule subst)
  then show ?thesis by simp
qed

lemma rbind_dec_enc: "valid x \<Longrightarrow> rbind dec f (enc x @ d) = f x d"
  by (simp add: rbind_def dec_enc)

lemma read_n_enc:
  "list_all valid xs \<Longrightarrow> read_n (length xs) dec (concat (map enc xs) @ d) = Ok (xs, d)"
  by (induction xs) (simp_all add: rreturn_def rbind_def dec_enc)

end

subsection \<open>UTF-8\<close>

text \<open>A \<open>String\<close> is its bytes.  \<open>utf8_scan\<close> is the validation of \<open>String::from_utf8\<close>: the index of
  the first sequence that is not well formed, with the number of bytes to skip, or \<open>None\<close> for
  a sequence the input cuts off.\<close>

definition continuation :: "u8 \<Rightarrow> bool" where
  "continuation b \<longleftrightarrow> 0x80 \<le> b \<and> b \<le> 0xBF"

definition second_ok :: "u8 \<Rightarrow> u8 \<Rightarrow> bool" where
  "second_ok a b \<longleftrightarrow>
     (if a = 0xE0 then 0xA0 \<le> b \<and> b \<le> 0xBF
      else if a = 0xED then 0x80 \<le> b \<and> b \<le> 0x9F
      else if a = 0xF0 then 0x90 \<le> b \<and> b \<le> 0xBF
      else if a = 0xF4 then 0x80 \<le> b \<and> b \<le> 0x8F
      else continuation b)"

definition utf8_width :: "u8 \<Rightarrow> nat" where
  "utf8_width a =
     (if a < 0x80 then 1
      else if 0xC2 \<le> a \<and> a \<le> 0xDF then 2
      else if 0xE0 \<le> a \<and> a \<le> 0xEF then 3
      else if 0xF0 \<le> a \<and> a \<le> 0xF4 then 4
      else 0)"

text \<open>The check of the bytes after the first, \<open>k\<close> bytes into the sequence.\<close>

fun utf8_tail :: "u8 \<Rightarrow> nat \<Rightarrow> nat \<Rightarrow> bytes \<Rightarrow> nat option option" where
  "utf8_tail a k 0 r = None"
| "utf8_tail a k (Suc n) [] = Some None"
| "utf8_tail a k (Suc n) (b # r) =
     (if (if k = 1 then second_ok a b else continuation b) then utf8_tail a (Suc k) n r
      else Some (Some k))"

function utf8_scan :: "nat \<Rightarrow> bytes \<Rightarrow> (nat \<times> nat option) option" where
  "utf8_scan i [] = None"
| "utf8_scan i (a # r) =
     (if utf8_width a = 0 then Some (i, Some 1)
      else case utf8_tail a 1 (utf8_width a - 1) r of
             None \<Rightarrow> utf8_scan (i + utf8_width a) (drop (utf8_width a - 1) r)
           | Some l \<Rightarrow> Some (i, l))"
  by pat_completeness auto
termination by (relation "measure (\<lambda>(i, bs). length bs)") auto

definition utf8_error_text :: "nat \<times> nat option \<Rightarrow> string" where
  "utf8_error_text e =
     (case e of
        (i, Some l) \<Rightarrow> ''invalid utf-8 sequence of '' @ show_nat l @ '' bytes from index '' @ show_nat i
      | (i, None) \<Rightarrow> ''incomplete utf-8 byte sequence from index '' @ show_nat i)"

definition utf8_valid :: "bytes \<Rightarrow> bool" where
  "utf8_valid bs \<longleftrightarrow> utf8_scan 0 bs = None"

definition from_utf8 :: "bytes \<Rightarrow> (bytes, string) outcome" where
  "from_utf8 bs = (case utf8_scan 0 bs of None \<Rightarrow> Ok bs | Some e \<Rightarrow> Err (utf8_error_text e))"

text \<open>The bytes of an ASCII literal.\<close>

definition str_bytes :: "string \<Rightarrow> bytes" where
  "str_bytes s = map (\<lambda>c. word_of_nat (of_char c)) s"

lemma from_utf8_valid [simp]: "utf8_valid bs \<Longrightarrow> from_utf8 bs = Ok bs"
  by (simp add: from_utf8_def utf8_valid_def)

lemma from_utf8_eq_Ok: "from_utf8 bs = Ok s \<longleftrightarrow> utf8_valid bs \<and> s = bs"
  by (auto simp: from_utf8_def utf8_valid_def split: option.splits)

lemma from_utf8_not_Panic [simp]: "from_utf8 bs \<noteq> Panic"
  by (auto simp: from_utf8_def split: option.splits)

lemma utf8_ascii: "list_all (\<lambda>b. b < 0x80) bs \<Longrightarrow> utf8_scan i bs = None"
proof (induction bs arbitrary: i)
  case (Cons a bs)
  then have "utf8_width a = 1" by (simp add: utf8_width_def)
  with Cons show ?case by simp
qed simp

subsection \<open>Encoding\<close>

definition xdr_u32 :: "bytes \<Rightarrow> u32 \<Rightarrow> bytes" where
  "xdr_u32 buf value = buf @ u32_to_be value"

definition xdr_opaque :: "bytes \<Rightarrow> bytes \<Rightarrow> bytes" where
  "xdr_opaque buf value =
     (let buf = xdr_u32 buf (word_of_nat (length value)); buf = buf @ value
      in buf @ replicate ((4 - length value mod 4) mod 4) 0)"

text \<open>What \<open>xdr_opaque\<close> appends.\<close>

definition opaque_enc :: "bytes \<Rightarrow> bytes" where
  "opaque_enc value = u32_to_be (word_of_nat (length value)) @ value @ replicate (pad_len (length value)) 0"

lemma xdr_opaque_eq: "xdr_opaque buf value = buf @ opaque_enc value"
  by (simp add: xdr_opaque_def xdr_u32_def opaque_enc_def Let_def pad_len_def)

lemma xdr_u32_eq: "xdr_u32 buf v = buf @ u32_to_be v"
  by (simp add: xdr_u32_def)

lemma length_opaque_enc: "length (opaque_enc value) = 4 + pad_up (length value)"
  by (simp add: opaque_enc_def pad_up_eq)

record compound_builder =
  cb_tag :: bytes
  cb_minor_version :: u32
  cb_ops :: "(u32 \<times> bytes) list"

definition OP_GETFH :: u32 where "OP_GETFH = 10"
definition OP_LOOKUP :: u32 where "OP_LOOKUP = 15"
definition OP_PUTFH :: u32 where "OP_PUTFH = 22"
definition OP_PUTROOTFH :: u32 where "OP_PUTROOTFH = 24"

definition compound_new :: "bytes \<Rightarrow> u32 \<Rightarrow> compound_builder" where
  "compound_new tag minor_version = \<lparr>cb_tag = tag, cb_minor_version = minor_version, cb_ops = []\<rparr>"

definition cb_operation :: "compound_builder \<Rightarrow> u32 \<Rightarrow> bytes \<Rightarrow> compound_builder" where
  "cb_operation b opcode args = b\<lparr>cb_ops := cb_ops b @ [(opcode, args)]\<rparr>"

definition cb_putrootfh :: "compound_builder \<Rightarrow> compound_builder" where
  "cb_putrootfh b = cb_operation b OP_PUTROOTFH []"

definition cb_putfh :: "compound_builder \<Rightarrow> bytes \<Rightarrow> compound_builder" where
  "cb_putfh b fh = cb_operation b OP_PUTFH (xdr_opaque [] fh)"

definition cb_lookup :: "compound_builder \<Rightarrow> bytes \<Rightarrow> compound_builder" where
  "cb_lookup b name = cb_operation b OP_LOOKUP (xdr_opaque [] name)"

definition cb_getfh :: "compound_builder \<Rightarrow> compound_builder" where
  "cb_getfh b = cb_operation b OP_GETFH []"

definition encode_body :: "compound_builder \<Rightarrow> bytes" where
  "encode_body b =
     foldl (\<lambda>buf (opcode, args). xdr_u32 buf opcode @ args)
       (xdr_u32 (xdr_u32 (xdr_opaque [] (cb_tag b)) (cb_minor_version b))
         (word_of_nat (length (cb_ops b))))
       (cb_ops b)"

subsection \<open>Decoding\<close>

text \<open>\<open>slice(..n)\<close> followed by \<open>advance(m)\<close>.\<close>

definition slice_advance :: "nat \<Rightarrow> nat \<Rightarrow> (bytes, 'e) reader" where
  "slice_advance n m d = (if length d < n \<or> length d < m then Panic else Ok (take n d, drop m d))"

definition take_u32 :: "string \<Rightarrow> (u32, nfs_error) reader" where
  "take_u32 what = rbind (need 4 (Xdr (what @ '' truncated''))) (\<lambda>_. get_u32)"

definition take_opaque :: "string \<Rightarrow> (bytes, nfs_error) reader" where
  "take_opaque what =
     rbind (take_u32 (what @ '' length'')) (\<lambda>len.
       let padded = pad_up (unat len) in
       rbind (need padded (Xdr (what @ '' data truncated'')))
         (\<lambda>_. slice_advance (unat len) padded))"

definition check_status :: "(u32 \<Rightarrow> string option) \<Rightarrow> u32 \<Rightarrow> unit result" where
  "check_status stat_error status =
     (if status = 0 then Ok ()
      else case stat_error status of
             Some e \<Rightarrow> Err (Xdr (''invalid NFSv4 status: '' @ e))
           | None \<Rightarrow> Err (Nfs4 status))"

text \<open>A computation that leaves the buffer alone, inside a reader.\<close>

definition lift :: "('a, 'e) outcome \<Rightarrow> ('a, 'e) reader" where
  "lift r d = and_then r (\<lambda>x. Ok (x, d))"

definition response_ops :: "(u32 \<Rightarrow> string option) \<Rightarrow> (u32, nfs_error) reader" where
  "response_ops stat_error =
     rbind (take_u32 ''COMPOUND status'') (\<lambda>status.
     rbind (lift (check_status stat_error status)) (\<lambda>_.
     rbind (take_opaque ''COMPOUND tag'') (\<lambda>tag.
     take_u32 ''COMPOUND result count'')))"

fun navigation_ops :: "(u32 \<Rightarrow> string option) \<Rightarrow> u32 list \<Rightarrow> (unit, nfs_error) reader" where
  "navigation_ops stat_error [] = rreturn ()"
| "navigation_ops stat_error (expected # rest) =
     rbind (take_u32 ''navigation opcode'') (\<lambda>opcode.
       if opcode \<noteq> expected
       then rfail (Xdr (''navigation opcode '' @ show_nat (unat opcode)
              @ '' does not match '' @ show_nat (unat expected)))
       else rbind (take_u32 ''navigation operation status'') (\<lambda>status.
            rbind (lift (check_status stat_error status)) (\<lambda>_.
            navigation_ops stat_error rest)))"

definition decode_navigation_response ::
  "(u32 \<Rightarrow> string option) \<Rightarrow> nat \<Rightarrow> (bytes, nfs_error) reader" where
  "decode_navigation_response stat_error component_count =
     rbind (response_ops stat_error) (\<lambda>count.
       if unat count \<noteq> component_count + 2
       then rfail (Xdr (''navigation response has '' @ show_nat (unat count)
              @ '' operations, expected '' @ show_nat (component_count + 2)))
       else rbind (navigation_ops stat_error
                     (OP_PUTROOTFH # replicate component_count OP_LOOKUP @ [OP_GETFH])) (\<lambda>_.
            take_opaque ''GETFH filehandle''))"

subsection \<open>Laws of the primitives\<close>

lemma safe_get_u32_final [reader_safe]: "4 \<le> n \<Longrightarrow> safe_with n get_u32"
  by (auto simp: safe_with_def get_u32_def)

lemma safe_get_u64_final [reader_safe]: "8 \<le> n \<Longrightarrow> safe_with n get_u64"
  by (auto simp: safe_with_def get_u64_def)

lemma safe_get_bytes_final [reader_safe]: "k \<le> n \<Longrightarrow> safe_with n (get_bytes k)"
  by (auto simp: safe_with_def get_bytes_def)

lemma safe_advance_final [reader_safe]: "k \<le> n \<Longrightarrow> safe_with n (advance k)"
  by (auto simp: safe_with_def advance_def)

lemma safe_need_final [reader_safe]: "safe_with n (need k e)"
  by (auto simp: safe_with_def need_def)

lemma safe_slice_advance [reader_safe]: "i \<le> n \<Longrightarrow> k \<le> n \<Longrightarrow> safe_with n (slice_advance i k)"
  by (auto simp: safe_with_def slice_advance_def)

lemma safe_slice_advance_bind [reader_safe]:
  "i \<le> n \<Longrightarrow> k \<le> n \<Longrightarrow> (\<And>x. safe_with (n - k) (f x)) \<Longrightarrow> safe_with n (rbind (slice_advance i k) f)"
  by (auto simp: safe_with_def slice_advance_def rbind_def)

lemma safe_lift [reader_safe]: "r \<noteq> Panic \<Longrightarrow> safe_with n (lift r)"
  by (cases r) (auto simp: safe_with_def lift_def)

lemma safe_lift_bind [reader_safe]:
  "r \<noteq> Panic \<Longrightarrow> (\<And>x. safe_with n (f x)) \<Longrightarrow> safe_with n (rbind (lift r) f)"
  by (cases r) (auto simp: safe_with_def lift_def rbind_def)

lemma safe_If [reader_safe]:
  "(b \<Longrightarrow> safe_with n r) \<Longrightarrow> (\<not> b \<Longrightarrow> safe_with n s) \<Longrightarrow> safe_with n (if b then r else s)"
  by simp

lemma take_u32_safe [simp]: "safe_with n (take_u32 what)"
  unfolding take_u32_def by (rule safe_any) (rule reader_safe | simp)+

lemma take_opaque_safe [simp]: "safe_with n (take_opaque what)"
  unfolding take_opaque_def Let_def by (rule safe_any) (rule reader_safe | rule safe_rbind | simp)+

lemma check_status_not_Panic [simp]: "check_status stat_error s \<noteq> Panic"
  by (auto simp: check_status_def split: option.splits)

lemma take_u32_enc [roundtrip]: "take_u32 what (u32_to_be w @ d) = Ok (w, d)"
  by (simp add: take_u32_def)

lemma take_opaque_enc [roundtrip]:
  "length v < 2 ^ 32 \<Longrightarrow> take_opaque what (opaque_enc v @ d) = Ok (v, d)"
  by (simp add: take_opaque_def opaque_enc_def rbind_def [of "take_u32 _"] take_u32_enc
      unat_of_nat_small slice_advance_def pad_up_eq Let_def)

interpretation opaque: codec opaque_enc "take_opaque what" "\<lambda>v. length v < 2 ^ 32" for what
  by unfold_locales (rule take_opaque_enc)

lemma rbind_take_u32_enc [simp]: "rbind (take_u32 what) f (u32_to_be w @ d) = f w d"
  by (simp add: rbind_def take_u32_enc)

lemma rbind_take_opaque_enc [simp]:
  "length v < 2 ^ 32 \<Longrightarrow> rbind (take_opaque what) f (opaque_enc v @ d) = f v d"
  by (rule opaque.rbind_dec_enc)

lemma rbind_lift_Ok [simp]: "rbind (lift (Ok x)) f d = f x d"
  by (simp add: rbind_def lift_def)

lemma check_status_0 [simp]: "check_status stat_error 0 = Ok ()"
  by (simp add: check_status_def)

lemma check_status_Ok: "check_status stat_error s = Ok () \<longleftrightarrow> s = 0"
  by (auto simp: check_status_def split: option.splits)

subsection \<open>Builder and navigation\<close>

definition op_enc :: "u32 \<times> bytes \<Rightarrow> bytes" where
  "op_enc = (\<lambda>(opcode, args). u32_to_be opcode @ args)"

lemma foldl_ops: "foldl (\<lambda>buf (opcode, args). xdr_u32 buf opcode @ args) buf ops
  = buf @ concat (map op_enc ops)"
  by (induction ops arbitrary: buf) (auto simp: xdr_u32_def op_enc_def)

lemma encode_body_eq:
  "encode_body b = opaque_enc (cb_tag b) @ u32_to_be (cb_minor_version b)
     @ u32_to_be (word_of_nat (length (cb_ops b))) @ concat (map op_enc (cb_ops b))"
  unfolding encode_body_def foldl_ops by (simp add: xdr_opaque_eq xdr_u32_eq)

text \<open>The reply of a server that walked every component: status, tag, count and one successful
  result per operation, then the file handle.\<close>

definition navigation_reply :: "bytes \<Rightarrow> nat \<Rightarrow> bytes \<Rightarrow> bytes" where
  "navigation_reply tag component_count fh =
     u32_to_be 0 @ opaque_enc tag @ u32_to_be (word_of_nat (component_count + 2))
     @ concat (map (\<lambda>op. u32_to_be op @ u32_to_be 0)
         (OP_PUTROOTFH # replicate component_count OP_LOOKUP @ [OP_GETFH]))
     @ opaque_enc fh"

lemma navigation_ops_enc:
  "navigation_ops stat_error ops (concat (map (\<lambda>op. u32_to_be op @ u32_to_be 0) ops) @ d) = Ok ((), d)"
  by (induction ops) (simp_all add: rreturn_def)

lemma decode_navigation_reply:
  assumes "length tag < 2 ^ 32" and "length fh < 2 ^ 32" and "component_count + 2 < 2 ^ 32"
  shows "decode_navigation_response stat_error component_count
           (navigation_reply tag component_count fh @ d) = Ok (fh, d)"
proof -
  let ?ops = "OP_PUTROOTFH # replicate component_count OP_LOOKUP @ [OP_GETFH]"
  have "response_ops stat_error (navigation_reply tag component_count fh @ d) =
      Ok (word_of_nat (component_count + 2),
          concat (map (\<lambda>op. u32_to_be op @ u32_to_be 0) ?ops) @ opaque_enc fh @ d)"
    using assms unfolding response_ops_def navigation_reply_def append_assoc
    by (simp only: rbind_take_u32_enc check_status_0 rbind_lift_Ok rbind_take_opaque_enc take_u32_enc)
  moreover have "unat (word_of_nat (component_count + 2) :: u32) = component_count + 2"
    using assms(3) by (intro unat_of_nat_small) simp
  ultimately show ?thesis
    unfolding decode_navigation_response_def rbind_def [of "response_ops stat_error"]
    by (simp only: and_then.simps prod.case if_False rbind_def [of "navigation_ops _ _"]
        navigation_ops_enc take_opaque_enc [OF assms(2)] not_True_eq_False simp_thms)
qed

end
