(* ===== verification/Acl.thy ===== *)
theory Acl
  imports Xdr
begin

text \<open>
  NFSv4 access control lists (\<open>src/src/nfs4/acl.rs\<close>) with the two pieces of
  \<open>src/src/nfs4/attrs.rs\<close> they are built on: the UTF-8 string and the GETATTR envelope.

  The ACE and ACL decoders are shown total (no panic on any input) and to invert the encoders;
  \<open>skip_acl\<close> is shown to move past exactly what \<open>decode_acl\<close> reads.
\<close>

subsection \<open>Strings and the GETATTR envelope\<close>

definition decode_utf8str :: "(bytes, nfs_error) reader" where
  "decode_utf8str =
     rbind (need 4 (Xdr ''utf8str length truncated'')) (\<lambda>_.
     rbind get_u32 (\<lambda>len.
     rbind (need (pad_up (unat len)) (Xdr ''utf8str data truncated'')) (\<lambda>_.
     rbind (slice_advance (unat len) (pad_up (unat len))) (\<lambda>bytes.
     case from_utf8 bytes of
       Ok s \<Rightarrow> rreturn s
     | _ \<Rightarrow> rfail (Xdr ''invalid UTF-8 in string attribute'')))))"

definition getattr_bitmap_word :: "(u32, nfs_error) reader" where
  "getattr_bitmap_word =
     rbind (need 4 (Xdr ''GETATTR bitmap word truncated'')) (\<lambda>_. get_u32)"

definition decode_getattr_envelope :: "(u32 list \<times> bytes, nfs_error) reader" where
  "decode_getattr_envelope =
     rbind (need 4 (Xdr ''GETATTR bitmap length truncated'')) (\<lambda>_.
     rbind get_u32 (\<lambda>bitmap_len.
     if unat bitmap_len > 16
     then rfail (Xdr (''GETATTR bitmap has '' @ show_nat (unat bitmap_len) @ '' words, max 16''))
     else
     rbind (read_n (unat bitmap_len) getattr_bitmap_word) (\<lambda>bitmap.
     rbind (need 4 (Xdr ''GETATTR attr_vals length truncated'')) (\<lambda>_.
     rbind get_u32 (\<lambda>vals_len.
     rbind (need (unat vals_len) (Xdr ''GETATTR attr_vals truncated'')) (\<lambda>_.
     rbind (get_bytes (unat vals_len)) (\<lambda>vals.
     (\<lambda>data. let pad = pad_len (unat vals_len) in
        if length data \<ge> pad then rbind (advance pad) (\<lambda>_. rreturn (bitmap, vals)) data
        else rreturn (bitmap, vals) data))))))))"

subsection \<open>ACLs\<close>

datatype ace_type = AccessAllowed | AccessDenied | SystemAudit | SystemAlarm

record nfs_ace =
  ace_type :: ace_type
  ace_flags :: u32
  ace_access_mask :: u32
  ace_who :: bytes

type_synonym acl = "nfs_ace list"

record nfs_acl41 =
  acl41_flags :: u32
  acl41_aces :: "nfs_ace list"

definition ACL_ATTR :: nat where "ACL_ATTR = 12"
definition ACLSUPPORT_ATTR :: nat where "ACLSUPPORT_ATTR = 13"
definition DACL_ATTR :: nat where "DACL_ATTR = 58"
definition SACL_ATTR :: nat where "SACL_ATTR = 59"
definition FILEHANDLE_ATTR :: nat where "FILEHANDLE_ATTR = 19"
definition FILEID_ATTR :: nat where "FILEID_ATTR = 20"
definition MODE_ATTR :: nat where "MODE_ATTR = 33"

definition MAX_ACES :: nat where "MAX_ACES = 8192"

primrec ace_type_code :: "ace_type \<Rightarrow> u32" where
  "ace_type_code AccessAllowed = 0"
| "ace_type_code AccessDenied = 1"
| "ace_type_code SystemAudit = 2"
| "ace_type_code SystemAlarm = 3"

definition ace_type_try_from :: "u32 \<Rightarrow> ace_type result" where
  "ace_type_try_from v =
     (if v = 0 then Ok AccessAllowed
      else if v = 1 then Ok AccessDenied
      else if v = 2 then Ok SystemAudit
      else if v = 3 then Ok SystemAlarm
      else Err (Xdr (''unknown ACE type '' @ show_nat (unat v))))"

definition decode_nfsace4 :: "(nfs_ace, nfs_error) reader" where
  "decode_nfsace4 =
     rbind (need 12 (Xdr ''nfsace4 truncated'')) (\<lambda>_.
     rbind get_u32 (\<lambda>v.
     rbind (lift (ace_type_try_from v)) (\<lambda>ty.
     rbind get_u32 (\<lambda>flags.
     rbind get_u32 (\<lambda>access_mask.
     rbind decode_utf8str (\<lambda>who.
     rreturn \<lparr>ace_type = ty, ace_flags = flags, ace_access_mask = access_mask, ace_who = who\<rparr>))))))"

definition decode_acl :: "(acl, nfs_error) reader" where
  "decode_acl =
     rbind (need 4 (Xdr ''ACL count truncated'')) (\<lambda>_.
     rbind get_u32 (\<lambda>count.
     if unat count > MAX_ACES
     then rfail (Xdr (''ACL has '' @ show_nat (unat count) @ '' entries, max '' @ show_nat MAX_ACES))
     else read_n (unat count) decode_nfsace4))"

definition skip_ace :: "(unit, nfs_error) reader" where
  "skip_ace =
     rbind (need 12 (Xdr ''nfsace4 truncated'')) (\<lambda>_.
     rbind (advance 12) (\<lambda>_.
     rbind (need 4 (Xdr ''nfsace4 who length truncated'')) (\<lambda>_.
     rbind get_u32 (\<lambda>len.
     rbind (need (pad_up (unat len)) (Xdr ''nfsace4 who data truncated'')) (\<lambda>_.
     advance (pad_up (unat len)))))))"

definition skip_acl :: "(unit, nfs_error) reader" where
  "skip_acl =
     rbind (need 4 (Xdr ''ACL count truncated'')) (\<lambda>_.
     rbind get_u32 (\<lambda>count.
     if unat count > MAX_ACES
     then rfail (Xdr (''ACL has '' @ show_nat (unat count) @ '' entries, max '' @ show_nat MAX_ACES))
     else rbind (read_n (unat count) skip_ace) (\<lambda>_. rreturn ())))"

definition skip_acl41 :: "(unit, nfs_error) reader" where
  "skip_acl41 =
     rbind (need 4 (Xdr ''NFSv4.1 ACL flags truncated'')) (\<lambda>_. rbind (advance 4) (\<lambda>_. skip_acl))"

definition encode_nfsace4 :: "nfs_ace \<Rightarrow> bytes" where
  "encode_nfsace4 ace =
     u32_to_be (ace_type_code (ace_type ace)) @ u32_to_be (ace_flags ace)
     @ u32_to_be (ace_access_mask ace) @ u32_to_be (word_of_nat (length (ace_who ace)))
     @ ace_who ace @ replicate ((4 - length (ace_who ace) mod 4) mod 4) 0"

definition encode_acl :: "acl \<Rightarrow> bytes" where
  "encode_acl acl = u32_to_be (word_of_nat (length acl)) @ concat (map encode_nfsace4 acl)"

definition encode_setattr_acl :: "acl \<Rightarrow> u32 list \<times> bytes" where
  "encode_setattr_acl acl = ([push_bit ACL_ATTR 1], encode_acl acl)"

text \<open>The attribute is checked by a \<open>debug_assert!\<close>; a violation is a panic of a debug build.\<close>

definition encode_setattr_acl41 :: "nfs_acl41 \<Rightarrow> nat \<Rightarrow> (u32 list \<times> bytes) result" where
  "encode_setattr_acl41 acl attribute =
     (if attribute = DACL_ATTR \<or> attribute = SACL_ATTR
      then Ok ([0, push_bit (attribute - 32) 1],
               u32_to_be (acl41_flags acl) @ encode_acl (acl41_aces acl))
      else Panic)"

definition attrnotsupp_as_unsupported :: "string \<Rightarrow> 'a result \<Rightarrow> 'a result" where
  "attrnotsupp_as_unsupported op r =
     (if r = Err (Nfs4 10032)
      then Err (Unsupported (op @ '' is unavailable for this request: server returned NFS4ERR_ATTRNOTSUPP''))
      else r)"

subsection \<open>ACL attributes of a GETATTR reply\<close>

definition first_word :: "u32 list \<Rightarrow> u32" where
  "first_word bitmap = (case bitmap of [] \<Rightarrow> 0 | w # _ \<Rightarrow> w)"

definition word_at :: "u32 list \<Rightarrow> nat \<Rightarrow> u32" where
  "word_at bitmap i = (if i < length bitmap then bitmap ! i else 0)"

definition run :: "('a, 'e) reader \<Rightarrow> bytes \<Rightarrow> ('a, 'e) outcome" where
  "run r d = and_then (r d) (\<lambda>(x, _). Ok x)"

definition decode_getattr_acl :: "(acl, nfs_error) reader" where
  "decode_getattr_acl =
     rbind decode_getattr_envelope (\<lambda>(bitmap, vals).
     if first_word bitmap AND push_bit ACL_ATTR 1 = 0
     then rfail (Xdr ''server did not return FATTR4_ACL'')
     else if first_word bitmap AND (push_bit ACL_ATTR 1 - 1) \<noteq> 0
     then rfail (Xdr ''server returned unexpected attributes before FATTR4_ACL'')
     else lift (run decode_acl vals))"

definition decode_getattr_aclsupport :: "(u32, nfs_error) reader" where
  "decode_getattr_aclsupport =
     rbind decode_getattr_envelope (\<lambda>(bitmap, vals).
     if first_word bitmap AND push_bit ACLSUPPORT_ATTR 1 = 0
     then rfail (Xdr ''server did not return FATTR4_ACLSUPPORT'')
     else if first_word bitmap AND (push_bit ACLSUPPORT_ATTR 1 - 1) \<noteq> 0
     then rfail (Xdr ''server returned unexpected attributes before FATTR4_ACLSUPPORT'')
     else lift (run (rbind (need 4 (Xdr ''ACLSUPPORT value truncated'')) (\<lambda>_. get_u32)) vals))"

definition decode_getattr_acl41 :: "nat \<Rightarrow> (nfs_acl41, nfs_error) reader" where
  "decode_getattr_acl41 attribute =
     (if attribute \<noteq> DACL_ATTR \<and> attribute \<noteq> SACL_ATTR then (\<lambda>_. Panic)
      else rbind decode_getattr_envelope (\<lambda>(bitmap, vals).
        if word_at bitmap 1 AND push_bit (attribute - 32) 1 = 0
        then rfail (Unsupported (''server does not support NFSv4.1 ACL attribute '' @ show_nat attribute))
        else lift (run
          (rbind (need 4 (Xdr ''NFSv4.1 ACL flags truncated'')) (\<lambda>_.
           rbind get_u32 (\<lambda>flags.
           rbind decode_acl (\<lambda>aces.
           rreturn \<lparr>acl41_flags = flags, acl41_aces = aces\<rparr>)))) vals)))"

subsection \<open>Panic freedom\<close>

lemma safe_case_utf8 [reader_safe]:
  "(\<And>s. safe_with n (f s)) \<Longrightarrow> safe_with n (case from_utf8 b of Ok s \<Rightarrow> f s | Err e \<Rightarrow> rfail g | Panic \<Rightarrow> rfail h)"
  by (cases "from_utf8 b") (auto intro: safe_rfail)

lemma decode_utf8str_safe [simp]: "safe_with n decode_utf8str"
  unfolding decode_utf8str_def by (rule safe_any) (rule reader_safe | simp)+

lemma getattr_bitmap_word_safe [simp]: "safe_with n getattr_bitmap_word"
  unfolding getattr_bitmap_word_def by (rule safe_any) (rule reader_safe | simp)+

lemma safe_prod [reader_safe]: "(\<And>x y. safe_with n (f x y)) \<Longrightarrow> safe_with n (case p of (x, y) \<Rightarrow> f x y)"
  by (cases p) simp

lemma safe_read_n_any [reader_safe]: "safe_with 0 r \<Longrightarrow> safe_with m (read_n n r)"
  by (rule safe_read_n)

lemma optional_pad_safe [reader_safe]:
  "safe_with n (\<lambda>d. let pad = k in if length d \<ge> pad then rbind (advance pad) (\<lambda>_. rreturn x) d else rreturn x d)"
  by (auto simp: safe_with_def Let_def rreturn_def)

lemma decode_getattr_envelope_safe [simp]: "safe_with n decode_getattr_envelope"
  unfolding decode_getattr_envelope_def
  by (rule safe_any) (rule reader_safe | rule safe_rbind | simp)+

lemma ace_type_try_from_not_Panic [simp]: "ace_type_try_from v \<noteq> Panic"
  by (simp add: ace_type_try_from_def)

lemma decode_nfsace4_safe [simp]: "safe_with n decode_nfsace4"
  unfolding decode_nfsace4_def by (rule safe_any) (rule reader_safe | rule safe_rbind | simp)+

lemma decode_acl_safe [simp]: "safe_with n decode_acl"
  unfolding decode_acl_def by (rule safe_any) (rule reader_safe | rule safe_rbind | simp)+

lemma skip_ace_safe [simp]: "safe_with n skip_ace"
  unfolding skip_ace_def by (rule safe_any) (rule reader_safe | simp)+

lemma skip_acl_safe [simp]: "safe_with n skip_acl"
  unfolding skip_acl_def by (rule safe_any) (rule reader_safe | rule safe_rbind | simp)+

lemma skip_acl41_safe [simp]: "safe_with n skip_acl41"
  unfolding skip_acl41_def by (rule safe_any) (rule reader_safe | rule safe_rbind | simp)+

lemma run_not_Panic [simp]: "safe_with 0 r \<Longrightarrow> run r d \<noteq> Panic"
  by (auto simp: run_def and_then_eq_Panic dest: safe_withD)

subsection \<open>Round trips\<close>

definition valid_ace :: "nfs_ace \<Rightarrow> bool" where
  "valid_ace ace \<longleftrightarrow> length (ace_who ace) < 2 ^ 32 \<and> utf8_valid (ace_who ace)"

definition valid_acl :: "acl \<Rightarrow> bool" where
  "valid_acl acl \<longleftrightarrow> length acl \<le> MAX_ACES \<and> list_all valid_ace acl"

lemma encode_nfsace4_eq:
  "encode_nfsace4 ace = u32_to_be (ace_type_code (ace_type ace)) @ u32_to_be (ace_flags ace)
     @ u32_to_be (ace_access_mask ace) @ opaque_enc (ace_who ace)"
  by (simp add: encode_nfsace4_def opaque_enc_def pad_len_def)

lemma decode_utf8str_enc [roundtrip]:
  "length s < 2 ^ 32 \<Longrightarrow> utf8_valid s \<Longrightarrow> decode_utf8str (opaque_enc s @ d) = Ok (s, d)"
  by (simp add: decode_utf8str_def opaque_enc_def unat_of_nat_small pad_up_eq rbind_def [of "slice_advance _ _"]
      slice_advance_def rreturn_def)

lemma ace_type_code_inverse [simp]: "ace_type_try_from (ace_type_code ty) = Ok ty"
  by (cases ty) (simp_all add: ace_type_try_from_def)

interpretation ustr: codec opaque_enc decode_utf8str "\<lambda>s. length s < 2 ^ 32 \<and> utf8_valid s"
  by unfold_locales (simp add: decode_utf8str_enc)

lemma decode_nfsace4_enc [roundtrip]:
  "valid_ace ace \<Longrightarrow> decode_nfsace4 (encode_nfsace4 ace @ d) = Ok (ace, d)"
  by (simp add: decode_nfsace4_def encode_nfsace4_eq valid_ace_def ustr.rbind_dec_enc rreturn_def)

interpretation ace: codec encode_nfsace4 decode_nfsace4 valid_ace
  by unfold_locales (rule decode_nfsace4_enc)

lemma decode_acl_enc [roundtrip]:
  "valid_acl acl \<Longrightarrow> decode_acl (encode_acl acl @ d) = Ok (acl, d)"
  by (simp add: decode_acl_def encode_acl_def valid_acl_def MAX_ACES_def unat_of_nat_small ace.read_n_enc)

interpretation acl: codec encode_acl decode_acl valid_acl
  by unfold_locales (rule decode_acl_enc)

subsection \<open>Skipping is decoding\<close>

lemma slice_advance_eq_Ok:
  "slice_advance i k d = Ok (x, d') \<longleftrightarrow> i \<le> length d \<and> k \<le> length d \<and> x = take i d \<and> d' = drop k d"
  by (auto simp: slice_advance_def)

lemma need_eq_Ok: "need k e d = Ok (x, d') \<longleftrightarrow> k \<le> length d \<and> d' = d"
  by (auto simp: need_def)

lemma get_u32_eq_Ok:
  "get_u32 d = Ok (w, d') \<longleftrightarrow> 4 \<le> length d \<and> w = u32_from_be (take 4 d) \<and> d' = drop 4 d"
  by (auto simp: get_u32_def)

lemma lift_eq_Ok: "lift r d = Ok (x, d') \<longleftrightarrow> r = Ok x \<and> d' = d"
  by (cases r) (auto simp: lift_def)

lemmas reader_eq_Ok = rbind_eq_Ok slice_advance_eq_Ok need_eq_Ok get_u32_eq_Ok lift_eq_Ok

lemma decode_utf8str_Ok:
  "decode_utf8str d = Ok (s, d') \<Longrightarrow>
     4 \<le> length d \<and> pad_up (unat (u32_from_be (take 4 d))) \<le> length d - 4
   \<and> d' = drop (4 + pad_up (unat (u32_from_be (take 4 d)))) d"
  by (auto simp: decode_utf8str_def reader_eq_Ok rreturn_def rfail_def add.commute split: outcome.splits)

lemma decode_nfsace4_Ok:
  assumes "decode_nfsace4 d = Ok (ace, d')"
  shows "16 \<le> length d \<and> pad_up (unat (u32_from_be (take 4 (drop 12 d)))) \<le> length d - 16
       \<and> d' = drop (16 + pad_up (unat (u32_from_be (take 4 (drop 12 d))))) d"
proof -
  from assms have "12 \<le> length d" and "decode_utf8str (drop 12 d) = Ok (ace_who ace, d')"
    by (auto simp: decode_nfsace4_def reader_eq_Ok rreturn_def)
  with decode_utf8str_Ok [OF this(2)] show ?thesis by (auto simp: add.commute)
qed

lemma skip_ace_of_decode: "decode_nfsace4 d = Ok (ace, d') \<Longrightarrow> skip_ace d = Ok ((), d')"
  by (drule decode_nfsace4_Ok, elim conjE)
     (simp add: skip_ace_def rbind_def [of get_u32] get_u32_def advance_def add.commute)

lemma read_n_skip:
  assumes "\<And>d x d'. r d = Ok (x, d') \<Longrightarrow> s d = Ok ((), d')"
  shows "read_n n r d = Ok (xs, d') \<Longrightarrow> read_n n s d = Ok (replicate n (), d')"
proof (induction n arbitrary: d xs)
  case (Suc n)
  then show ?case by (auto simp: rbind_eq_Ok rreturn_def dest!: assms)
qed (simp add: rreturn_def)

lemma skip_acl_of_decode: "decode_acl d = Ok (acl, d') \<Longrightarrow> skip_acl d = Ok ((), d')"
  using read_n_skip [of decode_nfsace4 skip_ace, OF skip_ace_of_decode]
  by (auto simp: decode_acl_def skip_acl_def rbind_def need_def get_u32_def rreturn_def rfail_def split: if_splits)

text \<open>An ACL survives the wire: what \<open>encode_acl\<close> writes for a list of at most 8192 entries
  with valid names, \<open>decode_acl\<close> reads back unchanged, leaving exactly the bytes that follow,
  and \<open>skip_acl\<close>, which stands in for it where the ACL is not wanted, stops at the same
  place.\<close>

theorem acl_roundtrip:
  assumes "length acl \<le> MAX_ACES"
    and "\<And>ace. ace \<in> set acl \<Longrightarrow> length (ace_who ace) < 2 ^ 32 \<and> utf8_valid (ace_who ace)"
  shows "decode_acl (encode_acl acl @ rest) = Ok (acl, rest)
       \<and> skip_acl (encode_acl acl @ rest) = Ok ((), rest)"
proof -
  have "valid_acl acl" using assms by (auto simp: valid_acl_def list_all_iff valid_ace_def)
  then have "decode_acl (encode_acl acl @ rest) = Ok (acl, rest)" by (rule decode_acl_enc)
  with skip_acl_of_decode show ?thesis by blast
qed

theorem acl_roundtrip_witness:
  "let ace = \<lparr>ace_type = AccessDenied, ace_flags = 0x40, ace_access_mask = 2, ace_who = str_bytes ''GROUP@''\<rparr>
   in utf8_valid (ace_who ace) \<and> decode_acl (encode_acl [ace] @ [7]) = Ok ([ace], [7])"
proof -
  let ?ace = "\<lparr>ace_type = AccessDenied, ace_flags = 0x40, ace_access_mask = 2, ace_who = str_bytes ''GROUP@''\<rparr> :: nfs_ace"
  have "utf8_valid (str_bytes ''GROUP@'')" by code_simp
  moreover have "length (str_bytes ''GROUP@'') < 2 ^ 32" by (simp add: str_bytes_def)
  ultimately show ?thesis
    using acl_roundtrip [of "[?ace]" "[7]"] by (simp add: MAX_ACES_def)
qed

end
