(* ===== verification/Mount_Common.thy ===== *)
theory Mount_Common
  imports Errors
begin

text \<open>
  The protocol-neutral pieces of \<open>src/src/mount.rs\<close> the three protocol engines share: the
  directory cursor, the negotiated sizes, the WRITE acknowledgements and their check after a
  COMMIT, and the validation of open options.
\<close>

subsection \<open>Directory cursor\<close>

record directory_cookie =
  dk_cookie :: u64
  dk_verifier :: bytes

record directory_cursor =
  dc_cookie :: u64
  dc_verifier :: bytes
  dc_seen :: "u64 set"

definition cursor_default :: directory_cursor where
  "cursor_default = \<lparr>dc_cookie = 0, dc_verifier = replicate 8 0, dc_seen = {0}\<rparr>"

definition cursor_resume :: "directory_cookie \<Rightarrow> directory_cursor" where
  "cursor_resume position =
     \<lparr>dc_cookie = dk_cookie position, dc_verifier = dk_verifier position,
      dc_seen = {0, dk_cookie position}\<rparr>"

text \<open>\<open>advance\<close>: the insertion into \<open>seen\<close> is evaluated only for a page with entries.\<close>

definition cursor_advance ::
  "directory_cursor \<Rightarrow> u64 \<Rightarrow> bytes \<Rightarrow> nat \<Rightarrow> bool \<Rightarrow> (directory_cursor \<times> bool) result" where
  "cursor_advance c cookie verifier entries eof =
     (if (\<not> eof \<and> entries = 0) \<or> (entries > 0 \<and> cookie \<in> dc_seen c)
      then Err (Xdr ''READDIR page made no progress or repeated a cookie'')
      else Ok (\<lparr>dc_cookie = cookie, dc_verifier = verifier,
                dc_seen = (if entries > 0 then insert cookie (dc_seen c) else dc_seen c)\<rparr>, \<not> eof))"

definition cursor_page ::
  "directory_cursor \<Rightarrow> u64 \<Rightarrow> bytes \<Rightarrow> nat \<Rightarrow> bool \<Rightarrow> directory_cookie result" where
  "cursor_page c last_cookie verifier entries eof =
     and_then (cursor_advance c last_cookie verifier entries eof) (\<lambda>(c', _).
       if entries = 0 then Ok \<lparr>dk_cookie = dc_cookie c, dk_verifier = dc_verifier c\<rparr>
       else Ok \<lparr>dk_cookie = dc_cookie c', dk_verifier = dc_verifier c'\<rparr>)"

subsection \<open>Sizes\<close>

definition MAX_IO_SIZE :: u32 where "MAX_IO_SIZE = 4 * 1024 * 1024"
definition DEFAULT_READDIR_BUFFER :: u32 where "DEFAULT_READDIR_BUFFER = 8192"

fun directory_reply_limits :: "(u32 \<times> u32) option \<Rightarrow> u32 option \<Rightarrow> u32 \<times> u32" where
  "directory_reply_limits (Some explicit) _ = explicit"
| "directory_reply_limits None (Some limit) = (limit, limit)"
| "directory_reply_limits None None = (DEFAULT_READDIR_BUFFER, DEFAULT_READDIR_BUFFER)"

definition negotiated_io_size :: "u64 \<Rightarrow> u32 result" where
  "negotiated_io_size server_max =
     (let size = ucast (min server_max (ucast MAX_IO_SIZE)) :: u32 in
      if size = 0 then Err (Xdr ''server reported a zero maximum I/O size'') else Ok size)"

definition read_reply :: "bytes \<Rightarrow> bool \<Rightarrow> bytes result" where
  "read_reply data eof =
     (if data = [] \<and> \<not> eof then Err (Rpc ''READ made no progress without EOF'') else Ok data)"

subsection \<open>Write acknowledgements\<close>

datatype write_committed = Unstable | DataSync | FileSync

primrec committed_code :: "write_committed \<Rightarrow> nat" where
  "committed_code Unstable = 0"
| "committed_code DataSync = 1"
| "committed_code FileSync = 2"

instantiation write_committed :: linorder
begin

definition less_eq_write_committed :: "write_committed \<Rightarrow> write_committed \<Rightarrow> bool" where
  "less_eq_write_committed a b \<longleftrightarrow> committed_code a \<le> committed_code b"

definition less_write_committed :: "write_committed \<Rightarrow> write_committed \<Rightarrow> bool" where
  "less_write_committed a b \<longleftrightarrow> committed_code a < committed_code b"

instance
proof
  show "(a = b)" if "a \<le> b" "b \<le> a" for a b :: write_committed
    using that by (cases a; cases b) (auto simp: less_eq_write_committed_def)
qed (auto simp: less_eq_write_committed_def less_write_committed_def)

end

definition write_committed_try_from :: "u32 \<Rightarrow> write_committed result" where
  "write_committed_try_from value =
     (if value = 0 then Ok Unstable
      else if value = 1 then Ok DataSync
      else if value = 2 then Ok FileSync
      else Err (Xdr (''invalid WRITE committed value: '' @ show_nat (unat value))))"

text \<open>The opaque pNFS receipt of an acknowledgement is the parameter \<open>'p\<close>; see \<open>Pnfs_Commit\<close>.\<close>

record 'p write_outcome =
  wo_count :: u32
  wo_committed :: write_committed
  wo_verifier :: "bytes option"
  wo_pnfs :: "'p option"

definition write_outcome_new :: "u32 \<Rightarrow> write_committed \<Rightarrow> bytes option \<Rightarrow> 'p write_outcome" where
  "write_outcome_new count committed verifier =
     \<lparr>wo_count = count, wo_committed = committed, wo_verifier = verifier, wo_pnfs = None\<rparr>"

definition write_verifier_changed :: "nfs_version \<Rightarrow> nfs_error" where
  "write_verifier_changed protocol =
     OperationOutcome (new_operation_outcome Uncertain ReplaySensitive VerifyThenResume
       \<lparr>ctx_operation = ''write_verifier'', ctx_protocol = protocol, ctx_request_id = None\<rparr>
       (Rpc ''WRITE verifier changed before COMMIT''))"

fun verify_write_batch :: "nfs_version \<Rightarrow> 'p write_outcome list \<Rightarrow> bytes option \<Rightarrow> unit result" where
  "verify_write_batch protocol [] actual = Ok ()"
| "verify_write_batch protocol (w # writes) actual =
     (if wo_committed w = FileSync then verify_write_batch protocol writes actual
      else case wo_verifier w of
             None \<Rightarrow> verify_write_batch protocol writes actual
           | Some expected \<Rightarrow>
               if actual \<noteq> Some expected then Err (write_verifier_changed protocol)
               else verify_write_batch protocol writes actual)"

subsection \<open>Open options\<close>

record open_options =
  oo_access :: u32
  oo_create_mode :: "u32 option"
  oo_truncate :: bool

definition open_options_validate :: "open_options \<Rightarrow> unit result" where
  "open_options_validate opts =
     (if oo_access opts \<notin> {1, 2, 3} \<or> (oo_truncate opts \<and> oo_access opts = 1)
      then Err (InvalidInput ''invalid stateful open options'') else Ok ())"

end
