(* ===== verification/V42.thy ===== *)
theory V42
  imports Acl Mount_Common
begin

text \<open>
  The reply decoders of the NFSv4.2 operations (\<open>src/src/nfs41/v42_ops.rs\<close>,
  \<open>src/src/nfs41/v42_xattr.rs\<close>, \<open>src/src/nfs42.rs\<close>) and the clipping of a READ_PLUS reply to the
  requested interval.
\<close>

subsection \<open>Words\<close>

definition word42 :: "(u32, nfs_error) reader" where
  "word42 = rbind (need 4 (Xdr ''NFSv4.2 u32 truncated'')) (\<lambda>_. get_u32)"

definition decode_u64 :: "(u64, nfs_error) reader" where
  "decode_u64 = rbind (need 8 (Xdr ''NFSv4.2 u64 truncated'')) (\<lambda>_. get_u64)"

definition decode_bool :: "(bool, nfs_error) reader" where
  "decode_bool = rbind word42 (\<lambda>w.
     if w = 0 then rreturn False
     else if w = 1 then rreturn True
     else rfail (Xdr ''invalid NFSv4.2 XDR boolean''))"

definition opaque42 :: "(bytes, nfs_error) reader" where
  "opaque42 = take_opaque ''NFSv4.2 opaque''"

subsection \<open>COPY\<close>

record copy_reply =
  cp_callback :: "bytes option"
  cp_count :: u64
  cp_committed :: write_committed
  cp_verifier :: bytes
  cp_consecutive :: bool
  cp_synchronous :: bool

definition decode_copy :: "(copy_reply, nfs_error) reader" where
  "decode_copy =
     rbind word42 (\<lambda>w.
     rbind (\<lambda>d. if w = 0 then Ok (None, d)
                else if w = 1 \<and> length d \<ge> 16 then rbind (get_bytes 16) (\<lambda>b. rreturn (Some b)) d
                else Err (Xdr ''invalid COPY callback stateid array'')) (\<lambda>callback.
     rbind decode_u64 (\<lambda>count.
     rbind word42 (\<lambda>c.
     rbind (lift (write_committed_try_from c)) (\<lambda>committed.
     rbind (need 8 (Xdr ''COPY verifier truncated'')) (\<lambda>_.
     rbind (get_bytes 8) (\<lambda>verifier.
     rbind decode_bool (\<lambda>consecutive.
     rbind decode_bool (\<lambda>synchronous.
     rreturn \<lparr>cp_callback = callback, cp_count = count, cp_committed = committed,
              cp_verifier = verifier, cp_consecutive = consecutive,
              cp_synchronous = synchronous\<rparr>)))))))))"

subsection \<open>READ_PLUS\<close>

datatype read_plus_content =
    Data (rp_offset: u64) (rp_data: bytes)
  | Hole (rp_offset: u64) (rp_length: u64)

definition read_plus_extent :: "(read_plus_content, nfs_error) reader" where
  "read_plus_extent =
     rbind word42 (\<lambda>kind.
     rbind decode_u64 (\<lambda>offset.
     if kind = 0 then rbind opaque42 (\<lambda>data. rreturn (Data offset data))
     else if kind = 1 then rbind decode_u64 (\<lambda>len. rreturn (Hole offset len))
     else rfail (Xdr ''READ_PLUS unknown content kind'')))"

definition decode_read_plus :: "(bool \<times> read_plus_content list, nfs_error) reader" where
  "decode_read_plus =
     rbind decode_bool (\<lambda>eof.
     rbind word42 (\<lambda>count.
     (\<lambda>d. if unat count > 4096 \<or> unat count > length d div 16
          then Err (Xdr ''READ_PLUS excessive/truncated contents array'')
          else rbind (read_n (unat count) read_plus_extent) (\<lambda>contents. rreturn (eof, contents)) d)))"

fun ext_length :: "read_plus_content \<Rightarrow> u64" where
  "ext_length (Data _ data) = word_of_nat (length data)"
| "ext_length (Hole _ len) = len"

text \<open>The loop of \<open>clip_read_plus\<close>: \<open>lo\<close> is the requested offset and \<open>hi\<close> its end.\<close>

fun clip_loop :: "u64 \<Rightarrow> u64 \<Rightarrow> read_plus_content list \<Rightarrow> u64 \<Rightarrow> u64 option \<Rightarrow> bool
    \<Rightarrow> (bool \<times> read_plus_content list) result" where
  "clip_loop lo hi [] cursor previous_end eof = Ok (eof, [])"
| "clip_loop lo hi (e # es) cursor previous_end eof =
     (case checked_add (rp_offset e) (ext_length e) of
        None \<Rightarrow> Err (Xdr ''READ_PLUS extent overflow'')
      | Some extent_end \<Rightarrow>
          if ext_length e = 0 \<or> (\<exists>last\<in>set_option previous_end. last \<noteq> rp_offset e)
             \<or> rp_offset e > cursor \<or> extent_end \<le> cursor \<or> cursor = hi
          then Err (Xdr ''READ_PLUS gaps, overlaps or zero progress'')
          else if (case e of Data _ _ \<Rightarrow> True | Hole _ _ \<Rightarrow> False) \<and> (rp_offset e < lo \<or> extent_end > hi)
          then Err (Xdr ''READ_PLUS data outside requested range'')
          else
            let clipped_end = min extent_end hi;
                piece = (case e of Data _ data \<Rightarrow> Data cursor data
                         | Hole _ _ \<Rightarrow> Hole cursor (clipped_end - cursor))
            in and_then (clip_loop lo hi es clipped_end (Some extent_end) (eof \<and> \<not> extent_end > hi))
                 (\<lambda>(eof', rest). Ok (eof', piece # rest)))"

definition clip_read_plus ::
  "bool \<times> read_plus_content list \<Rightarrow> u64 \<Rightarrow> u32 \<Rightarrow> (bool \<times> read_plus_content list) result" where
  "clip_read_plus reply offset count =
     (case checked_add offset (ucast count) of
        None \<Rightarrow> Err (InvalidInput ''READ_PLUS range overflow'')
      | Some hi \<Rightarrow>
          and_then (clip_loop offset hi (snd reply) offset None (fst reply)) (\<lambda>(eof, contents).
            if contents = [] \<and> \<not> fst reply \<and> count \<noteq> 0
            then Err (Xdr ''READ_PLUS empty non-EOF response'')
            else Ok (eof, contents)))"

subsection \<open>Extended attributes\<close>

definition validate_name :: "bytes \<Rightarrow> unit result" where
  "validate_name name =
     (if name = [] \<or> 0 \<in> set name \<or> length name > 2 ^ 32 - 1
      then Err (InvalidInput ''xattr name must be nonempty text without NUL'') else Ok ())"

definition xattr_key :: "(bytes, nfs_error) reader" where
  "xattr_key =
     rbind opaque42 (\<lambda>raw.
     case from_utf8 raw of
       Ok name \<Rightarrow> if name = [] \<or> 0 \<in> set name then rfail (Xdr ''LISTXATTRS invalid key'')
                 else rreturn name
     | _ \<Rightarrow> rfail (Xdr ''LISTXATTRS key is not UTF-8''))"

definition decode_list :: "(u64 \<times> bytes list \<times> bool, nfs_error) reader" where
  "decode_list =
     rbind decode_u64 (\<lambda>cookie.
     rbind word42 (\<lambda>count.
     (\<lambda>d. if unat count > 65536 \<or> unat count > (length d - 4) div 4
          then Err (Xdr ''LISTXATTRS excessive/truncated name array'')
          else rbind (read_n (unat count) xattr_key) (\<lambda>names.
               rbind decode_bool (\<lambda>eof. rreturn (cookie, names, eof))) d)))"

definition supports_attribute :: "u32 list \<Rightarrow> nat \<Rightarrow> bool" where
  "supports_attribute supported attribute =
     (attribute div 32 < length supported
      \<and> supported ! (attribute div 32) AND push_bit (attribute mod 32) 1 \<noteq> 0)"

subsection \<open>Panic freedom\<close>

lemma word42_safe [simp]: "safe_with n word42"
  unfolding word42_def by (rule safe_any) (rule reader_safe | simp)+

lemma decode_u64_safe [simp]: "safe_with n decode_u64"
  unfolding decode_u64_def by (rule safe_any) (rule reader_safe | simp)+

lemma decode_bool_safe [simp]: "safe_with n decode_bool"
  unfolding decode_bool_def by (rule safe_any) (rule safe_rbind reader_safe | simp)+

lemma opaque42_safe [simp]: "safe_with n opaque42"
  by (simp add: opaque42_def)

lemma write_committed_try_from_not_Panic [simp]: "write_committed_try_from v \<noteq> Panic"
  by (simp add: write_committed_try_from_def)

lemma safe_cond:
  "(\<And>d. b d \<Longrightarrow> r d \<noteq> Panic) \<Longrightarrow> (\<And>d. \<not> b d \<Longrightarrow> s d \<noteq> Panic) \<Longrightarrow> safe_with n (\<lambda>d. if b d then r d else s d)"
  by (simp add: safe_with_def)

lemma copy_callback_safe:
  "safe_with n (\<lambda>d. if w = (0 :: u32) then Ok (None, d)
     else if w = 1 \<and> length d \<ge> 16 then rbind (get_bytes 16) (\<lambda>b. rreturn (Some b)) d else Err e)"
  by (auto simp: safe_with_def rreturn_def)

lemma decode_copy_safe [simp]: "safe_with n decode_copy"
  unfolding decode_copy_def
  by (rule safe_any) (rule reader_safe | rule copy_callback_safe | rule safe_rbind | simp)+

lemma read_plus_extent_safe [simp]: "safe_with n read_plus_extent"
  unfolding read_plus_extent_def by (rule safe_any) (rule safe_rbind reader_safe | simp)+

lemma guarded_array_safe:
  "safe_with 0 (rbind (read_n m r) f) \<Longrightarrow> safe_with n (\<lambda>d. if b d then Err e else rbind (read_n m r) f d)"
  by (auto simp: safe_with_def)

lemma decode_read_plus_safe [simp]: "safe_with n decode_read_plus"
  unfolding decode_read_plus_def
  by (rule safe_any) (rule guarded_array_safe | rule safe_rbind | rule reader_safe | simp)+

lemma xattr_key_safe [simp]: "safe_with n xattr_key"
  unfolding xattr_key_def by (rule safe_any) (rule safe_rbind reader_safe | simp)+

lemma decode_list_safe [simp]: "safe_with n decode_list"
  unfolding decode_list_def
  by (rule safe_any) (rule guarded_array_safe | rule safe_rbind | rule reader_safe | simp)+

subsection \<open>What a clipped reply describes\<close>

text \<open>The byte of the file at a position, as a list of extents describes it.\<close>

fun content_at :: "read_plus_content list \<Rightarrow> nat \<Rightarrow> u8 option" where
  "content_at [] p = None"
| "content_at (e # es) p =
     (if unat (rp_offset e) \<le> p \<and> p < unat (rp_offset e) + unat (ext_length e)
      then Some (case e of Data _ data \<Rightarrow> data ! (p - unat (rp_offset e)) | Hole _ _ \<Rightarrow> 0)
      else content_at es p)"

text \<open>The extents are non-empty and adjoin each other from \<open>a\<close> up to \<open>b\<close>.\<close>

fun tiles :: "nat \<Rightarrow> read_plus_content list \<Rightarrow> nat \<Rightarrow> bool" where
  "tiles a [] b \<longleftrightarrow> a = b"
| "tiles a (e # es) b \<longleftrightarrow>
     unat (rp_offset e) = a \<and> 0 < unat (ext_length e) \<and> tiles (a + unat (ext_length e)) es b"

lemma tiles_ge: "tiles a es b \<Longrightarrow> a \<le> b"
  by (induction es arbitrary: a) fastforce+

lemma content_at_below: "tiles a es b \<Longrightarrow> p < a \<Longrightarrow> content_at es p = None"
  by (induction es arbitrary: a) auto

lemma clip_loop_sound:
  assumes "clip_loop lo hi es cursor previous_end eof = Ok (eof', out)"
    and "lo \<le> cursor" and "cursor \<le> hi"
    and "case previous_end of None \<Rightarrow> cursor = lo | Some l \<Rightarrow> cursor = min l hi"
  shows "\<exists>m\<le>unat hi. tiles (unat cursor) out m
       \<and> (\<forall>p. unat cursor \<le> p \<and> p < m \<longrightarrow> content_at out p = content_at es p)"
  using assms
proof (induction es arbitrary: cursor previous_end eof eof' out)
  case Nil
  then show ?case by (auto simp: word_le_nat_alt)
next
  case (Cons e es)
  obtain x where x: "checked_add (rp_offset e) (ext_length e) = Some x"
    using Cons.prems(1) by (auto split: option.splits)
  have ux: "unat x = unat (rp_offset e) + unat (ext_length e)" using checked_add_Some [OF x] by blast
  have len: "ext_length e \<noteq> 0" and le: "rp_offset e \<le> cursor" and prog: "cursor < x" and ne: "cursor \<noteq> hi"
    and prev: "\<And>l. previous_end = Some l \<Longrightarrow> l = rp_offset e"
    and inside: "\<And>d. e = Data (rp_offset e) d \<Longrightarrow> lo \<le> rp_offset e \<and> x \<le> hi"
    using Cons.prems(1) x by (auto split: if_splits read_plus_content.splits simp: not_less not_le)
  let ?c = "min x hi"
  let ?piece = "case e of Data _ data \<Rightarrow> Data cursor data | Hole _ _ \<Rightarrow> Hole cursor (?c - cursor)"
  obtain rest where rest: "clip_loop lo hi es ?c (Some x) (eof \<and> \<not> x > hi) = Ok (eof', rest)"
    and out: "out = ?piece # rest"
    using Cons.prems(1) x by (auto split: if_splits simp: Let_def)
  have hi: "cursor < hi" using ne Cons.prems(3) by simp
  have c: "cursor < ?c" "?c \<le> hi" using prog hi by auto
  obtain m where m: "m \<le> unat hi" "tiles (unat ?c) rest m"
    "\<forall>p. unat ?c \<le> p \<and> p < m \<longrightarrow> content_at rest p = content_at es p"
    using Cons.IH [OF rest] c Cons.prems(2) by fastforce
  have data: "rp_offset e = cursor \<and> x \<le> hi" if "e = Data (rp_offset e) d" for d
    using inside [OF that] le prev Cons.prems(2,4) ne by (cases previous_end) (auto simp: min_def split: if_splits)
  have poff: "rp_offset ?piece = cursor" by (cases e) simp_all
  have plen: "unat (ext_length ?piece) = unat ?c - unat cursor"
  proof (cases e)
    case (Data off d)
    then have "off = cursor" "x \<le> hi" using data [of d] by simp_all
    then show ?thesis using Data ux by (simp add: min_absorb1)
  next
    case (Hole off l)
    have "cursor \<le> ?c" using c(1) by (rule less_imp_le)
    then show ?thesis using Hole unat_sub_le [of cursor ?c] by simp
  qed
  have first: "content_at (?piece # rest) p = content_at (e # es) p"
    if "unat cursor \<le> p" "p < unat ?c" for p
  proof -
    have "unat (rp_offset e) \<le> p" "p < unat (rp_offset e) + unat (ext_length e)"
      using that le ux by (auto simp: word_le_nat_alt min_def split: if_splits)
    moreover have "unat (rp_offset ?piece) \<le> p" "p < unat (rp_offset ?piece) + unat (ext_length ?piece)"
      unfolding plen poff using that by simp_all
    moreover have "(case ?piece of Data _ b \<Rightarrow> b ! (p - unat (rp_offset ?piece)) | Hole _ _ \<Rightarrow> 0)
        = (case e of Data _ b \<Rightarrow> b ! (p - unat (rp_offset e)) | Hole _ _ \<Rightarrow> 0)"
      unfolding poff by (cases e) (use data in simp_all)
    ultimately show ?thesis by simp
  qed
  have later: "content_at (?piece # rest) p = content_at (e # es) p" if "unat ?c \<le> p" "p < m" for p
  proof -
    have "x \<le> hi" using that m(1) by (auto simp: min_def word_le_nat_alt not_le split: if_splits)
    then have "unat x \<le> p" using that(1) by (simp add: min_absorb1)
    moreover have "unat cursor \<le> unat ?c" using c(1) by (simp add: word_less_nat_alt)
    then have "\<not> p < unat (rp_offset ?piece) + unat (ext_length ?piece)"
      unfolding plen poff using that(1) by simp
    ultimately show ?thesis
      using that m(3) ux by simp
  qed
  have "tiles (unat cursor) (?piece # rest) m"
    using m(2) plen poff c(1) by (simp add: word_less_nat_alt)
  with m(1) first later show ?case unfolding out by (metis not_le)
qed

text \<open>A READ_PLUS reply that passes the clip describes a prefix of the requested range and
  nothing else: its extents are non-empty and adjoin each other from the requested offset, stay
  within the requested count, and give every byte the value the server's extents gave it.\<close>

theorem clip_read_plus_sound:
  assumes "clip_read_plus (eof, contents) offset count = Ok (eof', out)"
  shows "\<exists>m\<le>unat offset + unat count. tiles (unat offset) out m
       \<and> (\<forall>p. unat offset \<le> p \<and> p < m \<longrightarrow> content_at out p = content_at contents p)"
proof -
  obtain hi where hi: "checked_add offset (ucast count) = Some hi"
    using assms by (auto simp: clip_read_plus_def split: option.splits)
  have u: "unat hi = unat offset + unat count" using checked_add_Some [OF hi] by auto
  have "clip_loop offset hi contents offset None eof = Ok (eof', out)"
    using assms hi by (auto simp: clip_read_plus_def split: if_splits)
  moreover have "offset \<le> hi" using u by (simp add: word_le_nat_alt)
  ultimately show ?thesis using clip_loop_sound [of offset hi contents offset None eof eof' out] u by simp
qed

theorem clip_read_plus_sound_witness:
  "clip_read_plus (True, [Hole 0 6, Data 6 [1, 2]]) 4 3 = Err (Xdr ''READ_PLUS data outside requested range'')
   \<and> clip_read_plus (True, [Hole 0 6, Data 6 [1, 2]]) 4 5 = Ok (True, [Hole 4 2, Data 6 [1, 2]])
   \<and> (\<exists>m\<le>9. tiles 4 [Hole 4 2, Data 6 [1, 2]] m \<and> content_at [Hole 4 2, Data 6 [1, 2]] 7 = Some 2)"
proof -
  have run: "clip_read_plus (True, [Hole 0 6, Data 6 [1, 2]]) 4 5 = Ok (True, [Hole 4 2, Data 6 [1, 2]])"
    by code_simp
  have "clip_read_plus (True, [Hole 0 6, Data 6 [1, 2]]) 4 3 = Err (Xdr ''READ_PLUS data outside requested range'')"
    by code_simp
  moreover have "content_at [Hole 4 2, Data 6 [1, 2]] 7 = Some 2" by code_simp
  ultimately show ?thesis using clip_read_plus_sound [OF run] run by auto
qed

end
