(* ===== verification/Compound41.thy ===== *)
theory Compound41
  imports V42
begin

text \<open>
  The COMPOUND of NFSv4.1 and NFSv4.2 (\<open>src/src/nfs41/compound.rs\<close>): the operation numbers and
  their side-effect classes, the request builder with the reply-cache policy, and the decoder
  that splits a reply into one result per operation.

  A builder is a value; each of its methods appends one encoded operation.  \<open>xdr_u32\<close>, \<open>xdr_u64\<close>
  and \<open>xdr_var_bytes\<close> append to the argument buffer, so the arguments are written here as the
  concatenation of what is appended.
\<close>

subsection \<open>Operations\<close>

datatype (plugins only: code) op_num =
    Op_Access | Op_Close | Op_Commit | Op_Create | Op_GetAttr | Op_GetFh | Op_Link | Op_Lookup
  | Op_Lookupp | Op_Open | Op_PutFh | Op_PutRootFh | Op_Read | Op_ReadDir | Op_ReadLink
  | Op_Remove | Op_Rename | Op_RestoreFh | Op_SaveFh | Op_SetAttr | Op_Write | Op_OpenAttr
  | Op_Lock | Op_Lockt | Op_Locku | Op_LayoutGet | Op_LayoutCommit | Op_LayoutReturn
  | Op_GetDeviceInfo | Op_ExchangeId | Op_CreateSession | Op_DestroySession
  | Op_BindConnToSession | Op_Sequence | Op_ReclaimComplete | Op_DestroyClientId
  | Op_DelegReturn | Op_TestStateId | Op_FreeStateId | Op_Allocate | Op_Copy | Op_Deallocate
  | Op_OffloadCancel | Op_ReadPlus | Op_Seek | Op_Clone | Op_GetXattr | Op_SetXattr
  | Op_ListXattrs | Op_RemoveXattr

primrec op_code :: "op_num \<Rightarrow> u32" where
  "op_code Op_Access = 3" | "op_code Op_Close = 4" | "op_code Op_Commit = 5"
| "op_code Op_Create = 6" | "op_code Op_GetAttr = 9" | "op_code Op_GetFh = 10"
| "op_code Op_Link = 11" | "op_code Op_Lookup = 15" | "op_code Op_Lookupp = 16"
| "op_code Op_Open = 18" | "op_code Op_PutFh = 22" | "op_code Op_PutRootFh = 24"
| "op_code Op_Read = 25" | "op_code Op_ReadDir = 26" | "op_code Op_ReadLink = 27"
| "op_code Op_Remove = 28" | "op_code Op_Rename = 29" | "op_code Op_RestoreFh = 31"
| "op_code Op_SaveFh = 32" | "op_code Op_SetAttr = 34" | "op_code Op_Write = 38"
| "op_code Op_OpenAttr = 20" | "op_code Op_Lock = 12" | "op_code Op_Lockt = 13"
| "op_code Op_Locku = 14" | "op_code Op_LayoutGet = 50" | "op_code Op_LayoutCommit = 49"
| "op_code Op_LayoutReturn = 51" | "op_code Op_GetDeviceInfo = 47" | "op_code Op_ExchangeId = 42"
| "op_code Op_CreateSession = 43" | "op_code Op_DestroySession = 44"
| "op_code Op_BindConnToSession = 41" | "op_code Op_Sequence = 53"
| "op_code Op_ReclaimComplete = 58" | "op_code Op_DestroyClientId = 57"
| "op_code Op_DelegReturn = 8" | "op_code Op_TestStateId = 55" | "op_code Op_FreeStateId = 56"
| "op_code Op_Allocate = 59" | "op_code Op_Copy = 60" | "op_code Op_Deallocate = 62"
| "op_code Op_OffloadCancel = 66" | "op_code Op_ReadPlus = 68" | "op_code Op_Seek = 69"
| "op_code Op_Clone = 71" | "op_code Op_GetXattr = 72" | "op_code Op_SetXattr = 73"
| "op_code Op_ListXattrs = 74" | "op_code Op_RemoveXattr = 75"

definition op_class :: "op_num \<Rightarrow> operation_class" where
  "op_class op =
     (if op \<in> {Op_Access, Op_GetAttr, Op_GetFh, Op_GetDeviceInfo, Op_Lockt, Op_Lookup, Op_Lookupp,
               Op_PutFh, Op_PutRootFh, Op_Read, Op_ReadDir, Op_ReadLink, Op_RestoreFh, Op_SaveFh,
               Op_TestStateId, Op_ReadPlus, Op_Seek, Op_GetXattr, Op_ListXattrs}
      then ReadOnly
      else if op \<in> {Op_BindConnToSession, Op_CreateSession, Op_DestroyClientId, Op_DestroySession,
                    Op_ExchangeId, Op_ReclaimComplete, Op_Sequence}
      then SessionControl
      else ReplaySensitive)"

text \<open>The derived order of \<open>OperationClass\<close>.\<close>

primrec class_rank :: "operation_class \<Rightarrow> nat" where
  "class_rank ReadOnly = 0"
| "class_rank SessionControl = 1"
| "class_rank ReplaySensitive = 2"

instantiation operation_class :: linorder
begin

definition less_eq_operation_class :: "operation_class \<Rightarrow> operation_class \<Rightarrow> bool" where
  "less_eq_operation_class a b \<longleftrightarrow> class_rank a \<le> class_rank b"

definition less_operation_class :: "operation_class \<Rightarrow> operation_class \<Rightarrow> bool" where
  "less_operation_class a b \<longleftrightarrow> class_rank a < class_rank b"

instance
proof
  show "a = b" if "a \<le> b" "b \<le> a" for a b :: operation_class
    using that by (cases a; cases b) (auto simp: less_eq_operation_class_def)
qed (auto simp: less_eq_operation_class_def less_operation_class_def)

end

definition max_class :: "operation_class list \<Rightarrow> operation_class option" where
  "max_class cs = (case cs of [] \<Rightarrow> None | c # rest \<Rightarrow> Some (fold max rest c))"

datatype minor_version = V1 | V2

primrec minor_code :: "minor_version \<Rightarrow> u32" where
  "minor_code V1 = 1"
| "minor_code V2 = 2"

primrec minor_nfs_version :: "minor_version \<Rightarrow> nfs_version" where
  "minor_nfs_version V1 = NFSv4p1"
| "minor_nfs_version V2 = NFSv4p2"

subsection \<open>Builder\<close>

record encoded_op =
  eo_opcode :: op_num
  eo_args :: bytes

record builder =
  b_tag :: bytes
  b_ops :: "encoded_op list"
  b_required_generation :: "u64 option"

definition bool_enc :: "bool \<Rightarrow> bytes" where
  "bool_enc v = u32_to_be (if v then 1 else 0)"

definition bitmap_enc :: "u32 list \<Rightarrow> bytes" where
  "bitmap_enc bitmap = u32_to_be (word_of_nat (length bitmap)) @ concat (map u32_to_be bitmap)"

definition builder_new :: "bytes \<Rightarrow> builder" where
  "builder_new tag = \<lparr>b_tag = tag, b_ops = [], b_required_generation = None\<rparr>"

definition push_op :: "builder \<Rightarrow> op_num \<Rightarrow> bytes \<Rightarrow> builder" where
  "push_op b opcode args = b\<lparr>b_ops := b_ops b @ [\<lparr>eo_opcode = opcode, eo_args = args\<rparr>]\<rparr>"

definition enforce_max_operations :: "builder \<Rightarrow> u32 \<Rightarrow> unit result" where
  "enforce_max_operations b maximum =
     (if length (b_ops b) \<ge> 2 ^ 32 then Err (Rpc ''COMPOUND operation count exceeds u32'')
      else if length (b_ops b) = 0 \<or> length (b_ops b) > unat maximum
      then Err (Rpc (''COMPOUND contains '' @ show_nat (length (b_ops b))
             @ '' operations; channel maximum is '' @ show_nat (unat maximum)))
      else Ok ())"

definition b_operation_class :: "builder \<Rightarrow> operation_class" where
  "b_operation_class b =
     (case max_class (map (op_class \<circ> eo_opcode) (drop 1 (b_ops b))) of
        Some c \<Rightarrow> c | None \<Rightarrow> SessionControl)"

definition requires_original_session :: "builder \<Rightarrow> bool" where
  "requires_original_session b =
     list_ex (\<lambda>op. eo_opcode op \<in> {Op_Allocate, Op_Deallocate, Op_Copy, Op_Clone, Op_OffloadCancel,
                                    Op_SetXattr, Op_RemoveXattr}) (b_ops b)"

definition require_generation :: "builder \<Rightarrow> u64 \<Rightarrow> builder" where
  "require_generation b generation =
     (if generation \<noteq> 0 then b\<lparr>b_required_generation := Some generation\<rparr> else b)"

subsection \<open>Session operations\<close>

definition b_sequence :: "builder \<Rightarrow> bytes \<Rightarrow> u32 \<Rightarrow> u32 \<Rightarrow> u32 \<Rightarrow> builder" where
  "b_sequence b session_id sequence_id slot_id highest_slot_id =
     push_op b Op_Sequence (session_id @ u32_to_be sequence_id @ u32_to_be slot_id
       @ u32_to_be highest_slot_id @ bool_enc False)"

definition SEQUENCE_CACHE_THIS_OFFSET :: nat where "SEQUENCE_CACHE_THIS_OFFSET = 28"
definition MIN_RPC_REPLY_ENVELOPE_SIZE :: nat where "MIN_RPC_REPLY_ENVELOPE_SIZE = 24"
definition MIN_COMPOUND_REPLY_ENVELOPE_SIZE :: nat where "MIN_COMPOUND_REPLY_ENVELOPE_SIZE = 12"
definition SEQUENCE_SUCCESS_REPLY_SIZE :: nat where "SEQUENCE_SUCCESS_REPLY_SIZE = 44"
definition MIN_OPERATION_REPLY_SIZE :: nat where "MIN_OPERATION_REPLY_SIZE = 8"

definition op_extra :: "op_num \<Rightarrow> nat" where
  "op_extra op = (if op = Op_Copy then 32 else if op = Op_SetXattr \<or> op = Op_RemoveXattr then 20 else 0)"

text \<open>The sums saturate at \<open>usize::MAX\<close>; a builder that exists in memory does not reach it.\<close>

definition minimum_cached_response_size :: "builder \<Rightarrow> u32" where
  "minimum_cached_response_size b =
     (let padded_tag_len = pad_up (length (b_tag b));
          remaining_ops = length (b_ops b) - 1;
          extra = sum_list (map (op_extra \<circ> eo_opcode) (b_ops b));
          size = MIN_RPC_REPLY_ENVELOPE_SIZE + MIN_COMPOUND_REPLY_ENVELOPE_SIZE + padded_tag_len
                 + SEQUENCE_SUCCESS_REPLY_SIZE + remaining_ops * MIN_OPERATION_REPLY_SIZE + extra
      in if size < 2 ^ 32 then word_of_nat size else - 1)"

definition apply_sequence_cache_policy :: "builder \<Rightarrow> u32 \<Rightarrow> builder result" where
  "apply_sequence_cache_policy b max_cached_response_size =
     (let cachethis = (b_operation_class b = ReplaySensitive);
          required_minimum = minimum_cached_response_size b
      in if cachethis \<and> max_cached_response_size < required_minimum
         then Err (Rpc (''replay-sensitive COMPOUND requires at least '' @ show_nat (unat required_minimum)
                @ '' cached response bytes, server negotiated '' @ show_nat (unat max_cached_response_size)))
         else case b_ops b of
                [] \<Rightarrow> Err (Rpc ''COMPOUND has no SEQUENCE operation'')
              | sequence # rest \<Rightarrow>
                  if op_code (eo_opcode sequence) \<noteq> op_code Op_Sequence
                     \<or> length (eo_args sequence) < SEQUENCE_CACHE_THIS_OFFSET + 4
                  then Err (Rpc ''COMPOUND first operation is not a valid SEQUENCE'')
                  else Ok (b\<lparr>b_ops := sequence\<lparr>eo_args :=
                         take SEQUENCE_CACHE_THIS_OFFSET (eo_args sequence) @ bool_enc cachethis
                         @ drop (SEQUENCE_CACHE_THIS_OFFSET + 4) (eo_args sequence)\<rparr> # rest\<rparr>))"

definition b_exchange_id :: "builder \<Rightarrow> bytes \<Rightarrow> bytes \<Rightarrow> u32 \<Rightarrow> bytes \<Rightarrow> bytes \<Rightarrow> builder" where
  "b_exchange_id b co_verifier co_ownerid flags impl_domain impl_name =
     push_op b Op_ExchangeId (co_verifier @ opaque_enc co_ownerid @ u32_to_be flags @ u32_to_be 0
       @ u32_to_be 1 @ opaque_enc impl_domain @ opaque_enc impl_name @ u64_to_be 0 @ u32_to_be 0)"

record channel_attrs_args =
  ca_headerpadsize :: u32
  ca_maxrequestsize :: u32
  ca_maxresponsesize :: u32
  ca_maxresponsesize_cached :: u32
  ca_maxoperations :: u32
  ca_maxrequests :: u32

definition channel_attrs_enc :: "channel_attrs_args \<Rightarrow> bytes" where
  "channel_attrs_enc a =
     u32_to_be (ca_headerpadsize a) @ u32_to_be (ca_maxrequestsize a) @ u32_to_be (ca_maxresponsesize a)
     @ u32_to_be (ca_maxresponsesize_cached a) @ u32_to_be (ca_maxoperations a)
     @ u32_to_be (ca_maxrequests a) @ u32_to_be 0"

definition b_create_session ::
  "builder \<Rightarrow> u64 \<Rightarrow> u32 \<Rightarrow> u32 \<Rightarrow> channel_attrs_args \<Rightarrow> channel_attrs_args \<Rightarrow> u32 \<Rightarrow> builder" where
  "b_create_session b client_id sequence_id flags fore back cb_program =
     push_op b Op_CreateSession (u64_to_be client_id @ u32_to_be sequence_id @ u32_to_be flags
       @ channel_attrs_enc fore @ channel_attrs_enc back @ u32_to_be cb_program @ u32_to_be 1 @ u32_to_be 0)"

definition b_destroy_session :: "builder \<Rightarrow> bytes \<Rightarrow> builder" where
  "b_destroy_session b session_id = push_op b Op_DestroySession session_id"

definition b_bind_conn_to_session :: "builder \<Rightarrow> bytes \<Rightarrow> u32 \<Rightarrow> bool \<Rightarrow> builder" where
  "b_bind_conn_to_session b session_id dir use_rdma =
     push_op b Op_BindConnToSession (session_id @ u32_to_be dir @ bool_enc use_rdma)"

definition b_reclaim_complete :: "builder \<Rightarrow> bool \<Rightarrow> builder" where
  "b_reclaim_complete b one_fs = push_op b Op_ReclaimComplete (bool_enc one_fs)"

definition b_destroy_client_id :: "builder \<Rightarrow> u64 \<Rightarrow> builder" where
  "b_destroy_client_id b client_id = push_op b Op_DestroyClientId (u64_to_be client_id)"

subsection \<open>File handle and file operations\<close>

definition b_putrootfh :: "builder \<Rightarrow> builder" where
  "b_putrootfh b = push_op b Op_PutRootFh []"

definition b_putfh :: "builder \<Rightarrow> bytes \<Rightarrow> builder" where
  "b_putfh b fh = push_op b Op_PutFh (opaque_enc fh)"

definition b_getfh :: "builder \<Rightarrow> builder" where
  "b_getfh b = push_op b Op_GetFh []"

definition b_savefh :: "builder \<Rightarrow> builder" where
  "b_savefh b = push_op b Op_SaveFh []"

definition b_restorefh :: "builder \<Rightarrow> builder" where
  "b_restorefh b = push_op b Op_RestoreFh []"

definition b_openattr :: "builder \<Rightarrow> bool \<Rightarrow> builder" where
  "b_openattr b create_dir = push_op b Op_OpenAttr (bool_enc create_dir)"

definition b_lookup :: "builder \<Rightarrow> bytes \<Rightarrow> builder" where
  "b_lookup b name = push_op b Op_Lookup (opaque_enc name)"

definition b_lookupp :: "builder \<Rightarrow> builder" where
  "b_lookupp b = push_op b Op_Lookupp []"

definition b_getattr :: "builder \<Rightarrow> u32 list \<Rightarrow> builder" where
  "b_getattr b bitmap = push_op b Op_GetAttr (bitmap_enc bitmap)"

definition b_setattr :: "builder \<Rightarrow> bytes \<Rightarrow> u32 list \<Rightarrow> bytes \<Rightarrow> builder" where
  "b_setattr b stateid attrmask attr_vals =
     push_op b Op_SetAttr (stateid @ bitmap_enc attrmask @ opaque_enc attr_vals)"

definition b_access :: "builder \<Rightarrow> u32 \<Rightarrow> builder" where
  "b_access b access_mask = push_op b Op_Access (u32_to_be access_mask)"

definition b_read :: "builder \<Rightarrow> bytes \<Rightarrow> u64 \<Rightarrow> u32 \<Rightarrow> builder" where
  "b_read b stateid offset count = push_op b Op_Read (stateid @ u64_to_be offset @ u32_to_be count)"

definition b_write :: "builder \<Rightarrow> bytes \<Rightarrow> u64 \<Rightarrow> u32 \<Rightarrow> bytes \<Rightarrow> builder" where
  "b_write b stateid offset stable_how data =
     push_op b Op_Write (stateid @ u64_to_be offset @ u32_to_be stable_how @ opaque_enc data)"

definition b_write_header :: "builder \<Rightarrow> bytes \<Rightarrow> u64 \<Rightarrow> u32 \<Rightarrow> u32 \<Rightarrow> builder" where
  "b_write_header b stateid offset stable_how data_len =
     push_op b Op_Write (stateid @ u64_to_be offset @ u32_to_be stable_how @ u32_to_be data_len)"

definition b_commit :: "builder \<Rightarrow> u64 \<Rightarrow> u32 \<Rightarrow> builder" where
  "b_commit b offset count = push_op b Op_Commit (u64_to_be offset @ u32_to_be count)"

definition b_readdir :: "builder \<Rightarrow> u64 \<Rightarrow> bytes \<Rightarrow> u32 \<Rightarrow> u32 \<Rightarrow> u32 list \<Rightarrow> builder" where
  "b_readdir b cookie cookieverf dircount maxcount attr_request =
     push_op b Op_ReadDir (u64_to_be cookie @ cookieverf @ u32_to_be dircount @ u32_to_be maxcount
       @ bitmap_enc attr_request)"

definition b_readlink :: "builder \<Rightarrow> builder" where
  "b_readlink b = push_op b Op_ReadLink []"

record open_args =
  oa_seqid :: u32
  oa_share_access :: u32
  oa_share_deny :: u32
  oa_client_id :: u64
  oa_owner :: bytes
  oa_create :: bool
  oa_create_attrs_mask :: "u32 list"
  oa_create_attrs_vals :: bytes
  oa_claim_file :: bytes
  oa_want_no_delegation :: bool

definition open_args_encode_create :: "open_args \<Rightarrow> bool \<Rightarrow> bytes" where
  "open_args_encode_create a guarded =
     u32_to_be (oa_seqid a)
     @ u32_to_be (oa_share_access a OR (if oa_want_no_delegation a then 0x0400 else 0x0200))
     @ u32_to_be (oa_share_deny a) @ u64_to_be (oa_client_id a) @ opaque_enc (oa_owner a)
     @ (if oa_create a
        then u32_to_be 1 @ u32_to_be (if guarded then 1 else 0) @ bitmap_enc (oa_create_attrs_mask a)
             @ opaque_enc (oa_create_attrs_vals a)
        else u32_to_be 0)
     @ u32_to_be 0 @ opaque_enc (oa_claim_file a)"

definition b_open :: "builder \<Rightarrow> open_args \<Rightarrow> builder" where
  "b_open b a = push_op b Op_Open (open_args_encode_create a False)"

definition b_open_guarded :: "builder \<Rightarrow> open_args \<Rightarrow> builder" where
  "b_open_guarded b a = push_op b Op_Open (open_args_encode_create a True)"

definition b_close :: "builder \<Rightarrow> u32 \<Rightarrow> bytes \<Rightarrow> builder" where
  "b_close b seqid stateid = push_op b Op_Close (u32_to_be seqid @ stateid)"

definition b_create :: "builder \<Rightarrow> u32 \<Rightarrow> bytes \<Rightarrow> u32 list \<Rightarrow> bytes \<Rightarrow> builder" where
  "b_create b objtype name attrmask attr_vals =
     push_op b Op_Create (u32_to_be objtype @ opaque_enc name @ bitmap_enc attrmask @ opaque_enc attr_vals)"

definition b_create_symlink :: "builder \<Rightarrow> bytes \<Rightarrow> bytes \<Rightarrow> u32 list \<Rightarrow> bytes \<Rightarrow> builder" where
  "b_create_symlink b name link_target attrmask attr_vals =
     push_op b Op_Create (u32_to_be 5 @ opaque_enc link_target @ opaque_enc name @ bitmap_enc attrmask
       @ opaque_enc attr_vals)"

definition b_remove :: "builder \<Rightarrow> bytes \<Rightarrow> builder" where
  "b_remove b name = push_op b Op_Remove (opaque_enc name)"

definition b_rename :: "builder \<Rightarrow> bytes \<Rightarrow> bytes \<Rightarrow> builder" where
  "b_rename b oldname newname = push_op b Op_Rename (opaque_enc oldname @ opaque_enc newname)"

definition b_link :: "builder \<Rightarrow> bytes \<Rightarrow> builder" where
  "b_link b newname = push_op b Op_Link (opaque_enc newname)"

subsection \<open>Layout, lock and NFSv4.2 operations\<close>

definition b_layoutget ::
  "builder \<Rightarrow> bool \<Rightarrow> u32 \<Rightarrow> u32 \<Rightarrow> u64 \<Rightarrow> u64 \<Rightarrow> u64 \<Rightarrow> bytes \<Rightarrow> u32 \<Rightarrow> builder" where
  "b_layoutget b signal_layout_avail layout_type iomode offset len min_length stateid max_count =
     push_op b Op_LayoutGet (bool_enc signal_layout_avail @ u32_to_be layout_type @ u32_to_be iomode
       @ u64_to_be offset @ u64_to_be len @ u64_to_be min_length @ stateid @ u32_to_be max_count)"

definition b_layoutcommit :: "builder \<Rightarrow> u64 \<Rightarrow> u64 \<Rightarrow> bool \<Rightarrow> bytes \<Rightarrow> u64 option \<Rightarrow> u32 \<Rightarrow> builder" where
  "b_layoutcommit b offset len reclaim stateid last_write_offset layout_type =
     push_op b Op_LayoutCommit (u64_to_be offset @ u64_to_be len @ bool_enc reclaim @ stateid
       @ (case last_write_offset of Some off \<Rightarrow> bool_enc True @ u64_to_be off | None \<Rightarrow> bool_enc False)
       @ u32_to_be 0 @ u32_to_be layout_type @ u32_to_be 0)"

definition b_layoutreturn ::
  "builder \<Rightarrow> bool \<Rightarrow> u32 \<Rightarrow> u32 \<Rightarrow> u32 \<Rightarrow> u64 \<Rightarrow> u64 \<Rightarrow> bytes \<Rightarrow> builder" where
  "b_layoutreturn b reclaim layout_type iomode return_type offset len stateid =
     push_op b Op_LayoutReturn (bool_enc reclaim @ u32_to_be layout_type @ u32_to_be iomode
       @ u32_to_be return_type
       @ (if return_type = 1 then u64_to_be offset @ u64_to_be len @ stateid @ u32_to_be 0 else []))"

definition b_getdeviceinfo :: "builder \<Rightarrow> bytes \<Rightarrow> u32 \<Rightarrow> u32 \<Rightarrow> builder" where
  "b_getdeviceinfo b device_id layout_type max_count =
     push_op b Op_GetDeviceInfo (device_id @ u32_to_be layout_type @ u32_to_be max_count
       @ u32_to_be 1 @ u32_to_be (push_bit 1 1 OR push_bit 2 1))"

definition b_lock ::
  "builder \<Rightarrow> u32 \<Rightarrow> bool \<Rightarrow> u64 \<Rightarrow> u64 \<Rightarrow> bool \<Rightarrow> bytes \<Rightarrow> u32 \<Rightarrow> u32 \<Rightarrow> bytes \<Rightarrow> u64 \<Rightarrow> builder" where
  "b_lock b lock_type reclaim offset len new_lock_owner open_stateid lock_seqid open_seqid lock_owner client_id =
     push_op b Op_Lock (u32_to_be lock_type @ bool_enc reclaim @ u64_to_be offset @ u64_to_be len
       @ (if new_lock_owner
          then bool_enc True @ u32_to_be open_seqid @ open_stateid @ u32_to_be lock_seqid
               @ u64_to_be client_id @ opaque_enc lock_owner
          else bool_enc False @ open_stateid @ u32_to_be lock_seqid))"

definition b_lockt :: "builder \<Rightarrow> u32 \<Rightarrow> u64 \<Rightarrow> u64 \<Rightarrow> bytes \<Rightarrow> u64 \<Rightarrow> builder" where
  "b_lockt b lock_type offset len lock_owner client_id =
     push_op b Op_Lockt (u32_to_be lock_type @ u64_to_be offset @ u64_to_be len @ u64_to_be client_id
       @ opaque_enc lock_owner)"

definition b_locku :: "builder \<Rightarrow> u32 \<Rightarrow> u32 \<Rightarrow> bytes \<Rightarrow> u64 \<Rightarrow> u64 \<Rightarrow> builder" where
  "b_locku b lock_type seqid lock_stateid offset len =
     push_op b Op_Locku (u32_to_be lock_type @ u32_to_be seqid @ lock_stateid @ u64_to_be offset
       @ u64_to_be len)"

definition b_test_stateid :: "builder \<Rightarrow> bytes list \<Rightarrow> builder" where
  "b_test_stateid b stateids =
     push_op b Op_TestStateId (u32_to_be (word_of_nat (length stateids)) @ concat stateids)"

definition b_delegreturn :: "builder \<Rightarrow> bytes \<Rightarrow> builder" where
  "b_delegreturn b stateid = push_op b Op_DelegReturn stateid"

definition b_free_stateid :: "builder \<Rightarrow> bytes \<Rightarrow> builder" where
  "b_free_stateid b stateid = push_op b Op_FreeStateId stateid"

definition b_space :: "builder \<Rightarrow> bool \<Rightarrow> bytes \<Rightarrow> u64 \<Rightarrow> u64 \<Rightarrow> builder" where
  "b_space b allocate stateid offset len =
     push_op b (if allocate then Op_Allocate else Op_Deallocate)
       (stateid @ u64_to_be offset @ u64_to_be len)"

datatype seek_content = Seek_Data | Seek_Hole

primrec seek_code :: "seek_content \<Rightarrow> u32" where
  "seek_code Seek_Data = 0"
| "seek_code Seek_Hole = 1"

datatype xattr_set_mode = Xattr_Either | Xattr_Create | Xattr_Replace

primrec xattr_mode_code :: "xattr_set_mode \<Rightarrow> u32" where
  "xattr_mode_code Xattr_Either = 0"
| "xattr_mode_code Xattr_Create = 1"
| "xattr_mode_code Xattr_Replace = 2"

definition b_seek :: "builder \<Rightarrow> bytes \<Rightarrow> u64 \<Rightarrow> seek_content \<Rightarrow> builder" where
  "b_seek b stateid offset what = push_op b Op_Seek (stateid @ u64_to_be offset @ u32_to_be (seek_code what))"

definition b_read_plus :: "builder \<Rightarrow> bytes \<Rightarrow> u64 \<Rightarrow> u32 \<Rightarrow> builder" where
  "b_read_plus b stateid offset count =
     push_op b Op_ReadPlus (stateid @ u64_to_be offset @ u32_to_be count)"

definition b_copy_range :: "builder \<Rightarrow> bool \<Rightarrow> bytes \<Rightarrow> bytes \<Rightarrow> u64 \<Rightarrow> u64 \<Rightarrow> u64 \<Rightarrow> builder" where
  "b_copy_range b clone source destination source_offset destination_offset count =
     push_op b (if clone then Op_Clone else Op_Copy)
       (source @ destination @ u64_to_be source_offset @ u64_to_be destination_offset @ u64_to_be count
        @ (if clone then [] else bool_enc True @ bool_enc True @ u32_to_be 0))"

definition b_offload_cancel :: "builder \<Rightarrow> bytes \<Rightarrow> builder" where
  "b_offload_cancel b stateid = push_op b Op_OffloadCancel stateid"

definition b_getxattr :: "builder \<Rightarrow> bytes \<Rightarrow> builder" where
  "b_getxattr b name = push_op b Op_GetXattr (opaque_enc name)"

definition b_setxattr :: "builder \<Rightarrow> bytes \<Rightarrow> bytes \<Rightarrow> xattr_set_mode \<Rightarrow> builder" where
  "b_setxattr b name value mode =
     push_op b Op_SetXattr (u32_to_be (xattr_mode_code mode) @ opaque_enc name @ opaque_enc value)"

definition b_listxattrs :: "builder \<Rightarrow> u64 \<Rightarrow> u32 \<Rightarrow> builder" where
  "b_listxattrs b cookie maxcount = push_op b Op_ListXattrs (u64_to_be cookie @ u32_to_be maxcount)"

definition b_removexattr :: "builder \<Rightarrow> bytes \<Rightarrow> builder" where
  "b_removexattr b name = push_op b Op_RemoveXattr (opaque_enc name)"

definition encode_body_for_version :: "builder \<Rightarrow> minor_version \<Rightarrow> bytes" where
  "encode_body_for_version b minor =
     opaque_enc (b_tag b) @ u32_to_be (minor_code minor) @ u32_to_be (word_of_nat (length (b_ops b)))
     @ concat (map (\<lambda>op. u32_to_be (op_code (eo_opcode op)) @ eo_args op) (b_ops b))"

subsection \<open>Reply decoder: skipping one result\<close>

definition MAX_COMPOUND_OPS :: nat where "MAX_COMPOUND_OPS = 256"
definition MAX_BITMAP_WORDS :: nat where "MAX_BITMAP_WORDS = 16"
definition MAX_ENTRY4_PER_PAGE :: nat where "MAX_ENTRY4_PER_PAGE = 65536"
definition MAX_LAYOUT_SEGMENTS :: nat where "MAX_LAYOUT_SEGMENTS = 1024"

definition decode_nfsstat4 :: "(u32 \<Rightarrow> string option) \<Rightarrow> u32 \<Rightarrow> u32 result" where
  "decode_nfsstat4 stat_error v =
     (case stat_error v of
        None \<Rightarrow> Ok v
      | Some e \<Rightarrow> Err (Xdr (''invalid nfsstat4 '' @ show_nat (unat v) @ '': '' @ e)))"

definition decode_string :: "(bytes, nfs_error) reader" where
  "decode_string =
     rbind (need 4 (Xdr ''string length truncated'')) (\<lambda>_.
     rbind get_u32 (\<lambda>len.
     rbind (need (pad_up (unat len)) (Xdr ''string data truncated'')) (\<lambda>_.
     rbind (slice_advance (unat len) (pad_up (unat len))) (\<lambda>raw.
     case from_utf8 raw of
       Ok s \<Rightarrow> rreturn s
     | Err e \<Rightarrow> rfail (Xdr (''invalid UTF-8 in string: '' @ e))
     | Panic \<Rightarrow> rfail (Xdr [])))))"

text \<open>\<open>if buf.remaining() < n { return Err(..) } buf.advance(n)\<close> and
  \<open>if buf.remaining() < 4 { return Err(..) } buf.get_u32()\<close>.\<close>

definition skip_n :: "nat \<Rightarrow> string \<Rightarrow> (unit, nfs_error) reader" where
  "skip_n n what = rbind (need n (Xdr what)) (\<lambda>_. advance n)"

definition word_or :: "string \<Rightarrow> (u32, nfs_error) reader" where
  "word_or what = rbind (need 4 (Xdr what)) (\<lambda>_. get_u32)"

definition forget :: "('a, 'e) reader \<Rightarrow> (unit, 'e) reader" where
  "forget r = rbind r (\<lambda>_. rreturn ())"

definition skip_var_bytes :: "(unit, nfs_error) reader" where
  "skip_var_bytes = rbind (word_or ''opaque length truncated'')
     (\<lambda>len. skip_n (pad_up (unat len)) ''opaque data truncated'')"

definition skip_bitmap :: "(unit, nfs_error) reader" where
  "skip_bitmap = rbind (word_or ''bitmap length truncated'') (\<lambda>n.
     if unat n > MAX_BITMAP_WORDS
     then rfail (Xdr (''bitmap has '' @ show_nat (unat n) @ '' words, max '' @ show_nat MAX_BITMAP_WORDS))
     else skip_n (unat n * 4) ''bitmap data truncated'')"

definition skip_fattr4 :: "(unit, nfs_error) reader" where
  "skip_fattr4 = rbind skip_bitmap (\<lambda>_. skip_var_bytes)"

definition skip_change_info :: "(unit, nfs_error) reader" where
  "skip_change_info = skip_n 20 ''change_info truncated''"

definition skip_stateid4 :: "(unit, nfs_error) reader" where
  "skip_stateid4 = skip_n 16 ''stateid4 truncated''"

text \<open>The loop over directory entries; the argument is the number of entries still allowed, so
  the loop runs at most \<open>MAX_ENTRY4_PER_PAGE + 1\<close> rounds whatever the server sends.\<close>

primrec skip_entries :: "nat \<Rightarrow> (unit, nfs_error) reader" where
  "skip_entries 0 = rbind (word_or ''entry4 list truncated'') (\<lambda>has_entry.
     if has_entry = 0 then skip_n 4 ''dirlist4 eof truncated''
     else rfail (Xdr (''entry4 list exceeds max '' @ show_nat MAX_ENTRY4_PER_PAGE)))"
| "skip_entries (Suc k) = rbind (word_or ''entry4 list truncated'') (\<lambda>has_entry.
     if has_entry = 0 then skip_n 4 ''dirlist4 eof truncated''
     else rbind (skip_n 8 ''entry4 cookie truncated'') (\<lambda>_.
          rbind skip_var_bytes (\<lambda>_.
          rbind skip_fattr4 (\<lambda>_. skip_entries k))))"

definition skip_entry4_list :: "(unit, nfs_error) reader" where
  "skip_entry4_list = skip_entries MAX_ENTRY4_PER_PAGE"

definition skip_space_limit :: "(unit, nfs_error) reader" where
  "skip_space_limit = rbind (word_or ''space_limit type truncated'') (\<lambda>limit_by.
     if limit_by = 1 then skip_n 8 ''space_limit size truncated''
     else if limit_by = 2 then skip_n 8 ''space_limit blocks truncated''
     else rfail (Xdr (''unknown limit_by '' @ show_nat (unat limit_by))))"

definition skip_open_delegation :: "(unit, nfs_error) reader" where
  "skip_open_delegation = rbind (word_or ''open_delegation type truncated'') (\<lambda>deleg_type.
     if deleg_type = 0 then rreturn ()
     else if deleg_type = 1 then
       rbind skip_stateid4 (\<lambda>_.
       rbind (skip_n 4 ''delegation recall truncated'') (\<lambda>_. forget decode_nfsace4))
     else if deleg_type = 2 then
       rbind skip_stateid4 (\<lambda>_.
       rbind (skip_n 4 ''delegation recall truncated'') (\<lambda>_.
       rbind skip_space_limit (\<lambda>_. forget decode_nfsace4)))
     else if deleg_type = 3 then
       rbind (word_or ''why_no_deleg truncated'') (\<lambda>why.
         if why = 1 \<or> why = 2 then skip_n 4 ''why_no_deleg bool truncated'' else rreturn ())
     else rfail (Xdr (''unknown delegation type '' @ show_nat (unat deleg_type))))"

definition skip_state_protect :: "(unit, nfs_error) reader" where
  "skip_state_protect = rbind (word_or ''state_protect4_r type truncated'') (\<lambda>sp.
     if sp = 0 then rreturn ()
     else if sp = 1 then rbind skip_bitmap (\<lambda>_. skip_bitmap)
     else if sp = 2 then
       rbind skip_bitmap (\<lambda>_.
       rbind skip_bitmap (\<lambda>_.
       rbind (skip_n 16 ''SP4_SSV fields truncated'') (\<lambda>_.
       rbind (word_or ''SP4_SSV gss_handles len truncated'') (\<lambda>nh.
         if unat nh > 64
         then rfail (Xdr (''SP4_SSV has '' @ show_nat (unat nh) @ '' gss_handles, max 64''))
         else forget (read_n (unat nh) skip_var_bytes)))))
     else rfail (Xdr (''unsupported state_protect type '' @ show_nat (unat sp))))"

definition skip_impl_id :: "(unit, nfs_error) reader" where
  "skip_impl_id = rbind skip_var_bytes (\<lambda>_. rbind skip_var_bytes (\<lambda>_.
     skip_n 12 ''impl_id time truncated''))"

definition skip_exchange_id_result :: "(unit, nfs_error) reader" where
  "skip_exchange_id_result =
     rbind (skip_n 16 ''EXCHANGE_ID result truncated'') (\<lambda>_.
     rbind skip_state_protect (\<lambda>_.
     rbind (skip_n 8 ''server_owner minor_id truncated'') (\<lambda>_.
     rbind skip_var_bytes (\<lambda>_.
     rbind skip_var_bytes (\<lambda>_.
     rbind (word_or ''impl_id array len truncated'') (\<lambda>n.
       if unat n > 1
       then rfail (Xdr (''nfs_impl_id4 has '' @ show_nat (unat n) @ '' elements, max 1''))
       else forget (read_n (unat n) skip_impl_id)))))))"

text \<open>The count is a \<open>u32\<close>, so the \<open>checked_mul(4)\<close> on a 64-bit \<open>usize\<close> never fails.\<close>

definition skip_channel_attrs :: "(unit, nfs_error) reader" where
  "skip_channel_attrs =
     rbind (skip_n 24 ''channel_attrs truncated'') (\<lambda>_.
     rbind (word_or ''ca_rdma_ird length truncated'') (\<lambda>n.
     skip_n (unat n * 4) ''ca_rdma_ird data truncated''))"

definition skip_create_session_result :: "(unit, nfs_error) reader" where
  "skip_create_session_result =
     rbind (skip_n 24 ''CREATE_SESSION result truncated'') (\<lambda>_.
     forget (read_n 2 skip_channel_attrs))"

definition skip_layout_segment :: "(unit, nfs_error) reader" where
  "skip_layout_segment = rbind (skip_n 24 ''layout4 segment truncated'') (\<lambda>_. skip_var_bytes)"

definition skip_layoutget_result :: "(unit, nfs_error) reader" where
  "skip_layoutget_result =
     rbind (need 20 (Xdr ''LAYOUTGET result truncated'')) (\<lambda>_.
     rbind (advance 4) (\<lambda>_.
     rbind skip_stateid4 (\<lambda>_.
     rbind (word_or ''LAYOUTGET segments len truncated'') (\<lambda>n.
       if unat n > MAX_LAYOUT_SEGMENTS
       then rfail (Xdr (''LAYOUTGET has '' @ show_nat (unat n) @ '' segments, max ''
              @ show_nat MAX_LAYOUT_SEGMENTS))
       else forget (read_n (unat n) skip_layout_segment)))))"

definition skip_layoutcommit_result :: "(unit, nfs_error) reader" where
  "skip_layoutcommit_result =
     rbind (word_or ''LAYOUTCOMMIT result truncated'') (\<lambda>has_newsize.
       (\<lambda>d. if has_newsize \<noteq> 0 \<and> length d \<ge> 8 then advance 8 d else rreturn () d))"

text \<open>The status is not \<open>NFS4_OK\<close>.\<close>

definition skip_failed_result :: "u32 \<Rightarrow> u32 \<Rightarrow> (unit, nfs_error) reader" where
  "skip_failed_result opcode status =
     rbind (if opcode = op_code Op_Copy \<and> status = 10094
            then rbind decode_bool (\<lambda>_. forget decode_bool) else rreturn ()) (\<lambda>_.
     rbind (if opcode = op_code Op_SetAttr then skip_bitmap else rreturn ()) (\<lambda>_.
     (\<lambda>d. if opcode = op_code Op_Lock \<and> status = 10012 \<and> length d \<ge> 28
          then rbind (advance 28) (\<lambda>_. skip_var_bytes) d else rreturn () d)))"

text \<open>The status is \<open>NFS4_OK\<close>: the arms of the \<open>match\<close> on the operation number, those without
  a body collected in \<open>void_results\<close>.  The numbers are distinct, so the order of the arms does not
  matter.\<close>

definition void_results :: "op_num list" where
  "void_results = [Op_Allocate, Op_Deallocate, Op_Clone, Op_OffloadCancel, Op_PutRootFh, Op_PutFh,
     Op_SaveFh, Op_RestoreFh, Op_Lookup, Op_Lookupp, Op_ReclaimComplete, Op_DestroySession,
     Op_DestroyClientId, Op_DelegReturn, Op_OpenAttr, Op_Lockt, Op_FreeStateId]"

definition result_arms :: "(op_num \<times> (unit, nfs_error) reader) list" where
  "result_arms =
     [(Op_Copy, forget decode_copy),
      (Op_Seek, rbind decode_bool (\<lambda>_. forget decode_u64)),
      (Op_ReadPlus, forget decode_read_plus),
      (Op_GetXattr, skip_var_bytes),
      (Op_SetXattr, rbind decode_bool (\<lambda>_. rbind decode_u64 (\<lambda>_. forget decode_u64))),
      (Op_RemoveXattr, rbind decode_bool (\<lambda>_. rbind decode_u64 (\<lambda>_. forget decode_u64))),
      (Op_ListXattrs, forget decode_list),
      (Op_Sequence, skip_n 36 ''SEQUENCE result truncated''),
      (Op_GetFh, skip_var_bytes),
      (Op_GetAttr, skip_fattr4),
      (Op_SetAttr, skip_bitmap),
      (Op_Access, skip_n 8 ''ACCESS result truncated''),
      (Op_Read, rbind (skip_n 4 ''READ result truncated'') (\<lambda>_. skip_var_bytes)),
      (Op_Write, skip_n 16 ''WRITE result truncated''),
      (Op_Commit, skip_n 8 ''COMMIT result truncated''),
      (Op_ReadDir, rbind (skip_n 8 ''READDIR result truncated'') (\<lambda>_. skip_entry4_list)),
      (Op_ReadLink, skip_var_bytes),
      (Op_Open, rbind skip_stateid4 (\<lambda>_. rbind skip_change_info (\<lambda>_.
         rbind (skip_n 4 ''OPEN rflags truncated'') (\<lambda>_. rbind skip_bitmap (\<lambda>_.
         skip_open_delegation))))),
      (Op_Close, skip_stateid4),
      (Op_Lock, skip_stateid4),
      (Op_Locku, skip_stateid4),
      (Op_TestStateId, rbind (word_or ''TEST_STATEID result truncated'') (\<lambda>n.
         skip_n (unat n * 4) ''TEST_STATEID statuses truncated'')),
      (Op_Create, rbind skip_change_info (\<lambda>_. skip_bitmap)),
      (Op_Remove, skip_change_info),
      (Op_Rename, rbind skip_change_info (\<lambda>_. skip_change_info)),
      (Op_Link, skip_change_info),
      (Op_ExchangeId, skip_exchange_id_result),
      (Op_CreateSession, skip_create_session_result),
      (Op_LayoutGet, skip_layoutget_result),
      (Op_LayoutCommit, skip_layoutcommit_result),
      (Op_LayoutReturn, rbind (word_or ''LAYOUTRETURN result truncated'') (\<lambda>has_stateid.
         if has_stateid \<noteq> 0 then skip_stateid4 else rreturn ())),
      (Op_GetDeviceInfo, rbind (skip_n 4 ''GETDEVICEINFO layout_type truncated'') (\<lambda>_.
         rbind skip_var_bytes (\<lambda>_. skip_bitmap))),
      (Op_BindConnToSession, skip_n 24 ''BIND_CONN_TO_SESSION result truncated'')]
     @ map (\<lambda>op. (op, rreturn ())) void_results"

definition skip_op_result :: "u32 \<Rightarrow> u32 \<Rightarrow> (unit, nfs_error) reader" where
  "skip_op_result opcode status =
     (if status \<noteq> 0 then skip_failed_result opcode status
      else case map_of (map (\<lambda>(op, r). (op_code op, r)) result_arms) opcode of
             Some r \<Rightarrow> r
           | None \<Rightarrow> rfail (Xdr (''unknown op '' @ show_nat (unat opcode)
                       @ '' in COMPOUND response, cannot skip'')))"

subsection \<open>Reply decoder\<close>

record op_response =
  or_opcode :: u32
  or_status :: u32
  or_data :: bytes

record compound_response =
  cr_tag :: bytes
  cr_status :: u32
  cr_results :: "op_response list"
  cr_session_generation :: u64

definition decode_result :: "(u32 \<Rightarrow> string option) \<Rightarrow> (op_response, nfs_error) reader" where
  "decode_result stat_error =
     rbind (need 8 (Xdr ''COMPOUND response truncated at op header'')) (\<lambda>_.
     rbind get_u32 (\<lambda>opcode.
     rbind get_u32 (\<lambda>op_status.
     rbind (lift (decode_nfsstat4 stat_error op_status)) (\<lambda>status.
     (\<lambda>buf. rbind (skip_op_result opcode op_status)
        (\<lambda>_. rreturn \<lparr>or_opcode = opcode, or_status = status, or_data = buf\<rparr>) buf)))))"

definition response_body :: "(u32 \<Rightarrow> string option) \<Rightarrow> (compound_response, nfs_error) reader" where
  "response_body stat_error =
     rbind (word_or ''COMPOUND response too short'') (\<lambda>status_val.
     rbind (lift (decode_nfsstat4 stat_error status_val)) (\<lambda>status.
     rbind decode_string (\<lambda>tag.
     rbind (word_or ''COMPOUND response missing resarray length'') (\<lambda>num_results.
       if unat num_results > MAX_COMPOUND_OPS
       then rfail (Xdr (''COMPOUND response has '' @ show_nat (unat num_results) @ '' ops, max ''
              @ show_nat MAX_COMPOUND_OPS))
       else rbind (read_n (unat num_results) (decode_result stat_error)) (\<lambda>results.
            rreturn \<lparr>cr_tag = tag, cr_status = status, cr_results = results,
                     cr_session_generation = 0\<rparr>)))))"

definition response_decode :: "(u32 \<Rightarrow> string option) \<Rightarrow> bytes \<Rightarrow> compound_response result" where
  "response_decode stat_error = run (response_body stat_error)"

definition response_check_status :: "compound_response \<Rightarrow> unit result" where
  "response_check_status r = (if cr_status r = 0 then Ok () else Err (Nfs4 (cr_status r)))"

definition op_ok :: "compound_response \<Rightarrow> nat \<Rightarrow> op_response result" where
  "op_ok r index =
     (if index < length (cr_results r)
      then if or_status (cr_results r ! index) \<noteq> 0 then Err (Nfs4 (or_status (cr_results r ! index)))
           else Ok (cr_results r ! index)
      else Err (Xdr (''COMPOUND response missing op at index '' @ show_nat index)))"

subsection \<open>Retrying a busy reply\<close>

fun busy_loop :: "encoded_op list \<Rightarrow> op_response list \<Rightarrow> u32 \<Rightarrow> bool \<Rightarrow> bool result" where
  "busy_loop (request # requests) (reply # replies) status safe =
     (if op_code (eo_opcode request) \<noteq> or_opcode reply then Err (Xdr ''busy COMPOUND opcode mismatch'')
      else if or_status reply \<noteq> 0 then
        if replies \<noteq> [] \<or> or_status reply \<noteq> status then Err (Xdr ''busy COMPOUND status mismatch'')
        else Ok safe
      else busy_loop requests replies status (safe \<and> op_class (eo_opcode request) \<noteq> ReplaySensitive))"
| "busy_loop _ _ status safe = Err (Xdr ''busy COMPOUND omitted its failing operation'')"

definition can_retry_busy :: "builder \<Rightarrow> compound_response \<Rightarrow> bool result" where
  "can_retry_busy b response =
     (if cr_results response = [] \<or> length (cr_results response) > length (b_ops b)
      then Err (Xdr ''invalid busy COMPOUND result count'')
      else busy_loop (b_ops b) (cr_results response) (cr_status response) True)"

subsection \<open>Panic freedom\<close>

lemma decode_nfsstat4_not_Panic [simp]: "decode_nfsstat4 stat_error v \<noteq> Panic"
  by (simp add: decode_nfsstat4_def split: option.split)

lemma skip_n_safe [simp]: "safe_with n (skip_n k what)"
  unfolding skip_n_def by (rule safe_any) (rule reader_safe | simp)+

lemma word_or_safe [simp]: "safe_with n (word_or what)"
  unfolding word_or_def by (rule safe_any) (rule reader_safe | simp)+

lemma forget_safe [simp]: "safe_with 0 r \<Longrightarrow> safe_with n (forget r)"
  unfolding forget_def by (rule safe_any) (rule safe_rbind, simp, rule safe_rreturn)

lemma safe_utf8_reader:
  "safe_with m (case from_utf8 raw of Ok s \<Rightarrow> rreturn s | Err e \<Rightarrow> rfail (f e) | Panic \<Rightarrow> rfail g)"
  by (cases "from_utf8 raw") (simp_all add: safe_rreturn safe_rfail)

lemma decode_string_safe [simp]: "safe_with n decode_string"
  unfolding decode_string_def
  by (rule safe_any, intro safe_need safe_get_u32 safe_slice_advance_bind safe_utf8_reader) simp_all

lemma skip_var_bytes_safe [simp]: "safe_with n skip_var_bytes"
  unfolding skip_var_bytes_def by (rule safe_rbind) simp_all

lemma skip_bitmap_safe [simp]: "safe_with n skip_bitmap"
  unfolding skip_bitmap_def by (rule safe_rbind) (auto intro: safe_rfail)

lemma skip_fattr4_safe [simp]: "safe_with n skip_fattr4"
  unfolding skip_fattr4_def by (rule safe_rbind) simp_all

lemma skip_entries_safe [simp]: "safe_with n (skip_entries k)"
  by (induction k arbitrary: n) (auto intro!: safe_rbind safe_rfail simp: skip_change_info_def)

lemma skip_fixed_results_safe [simp]:
  "safe_with n skip_change_info" "safe_with n skip_stateid4" "safe_with n skip_entry4_list"
  by (simp_all add: skip_change_info_def skip_stateid4_def skip_entry4_list_def)

lemma skip_open_delegation_safe [simp]: "safe_with n skip_open_delegation"
  unfolding skip_open_delegation_def skip_space_limit_def
  by (auto intro!: safe_rbind safe_rfail safe_rreturn)

lemma skip_impl_id_safe [simp]: "safe_with n skip_impl_id"
  unfolding skip_impl_id_def by (auto intro!: safe_rbind)

lemma skip_exchange_id_result_safe [simp]: "safe_with n skip_exchange_id_result"
  unfolding skip_exchange_id_result_def skip_state_protect_def
  by (auto intro!: safe_rbind safe_rfail safe_rreturn forget_safe safe_read_n)

lemma skip_channel_attrs_safe [simp]: "safe_with n skip_channel_attrs"
  unfolding skip_channel_attrs_def by (auto intro!: safe_rbind)

lemma skip_create_session_result_safe [simp]: "safe_with n skip_create_session_result"
  unfolding skip_create_session_result_def by (intro safe_rbind forget_safe safe_read_n) simp_all

lemma skip_layout_segment_safe [simp]: "safe_with n skip_layout_segment"
  unfolding skip_layout_segment_def by (auto intro!: safe_rbind)

lemma skip_layoutget_result_safe [simp]: "safe_with n skip_layoutget_result"
  unfolding skip_layoutget_result_def
  by (rule safe_any, rule safe_need, rule safe_advance) (auto intro!: safe_rbind safe_rfail forget_safe safe_read_n)

lemma skip_layoutcommit_result_safe [simp]: "safe_with n skip_layoutcommit_result"
  unfolding skip_layoutcommit_result_def
  by (rule safe_rbind [OF word_or_safe]) (auto simp: safe_with_def advance_def rreturn_def)

lemma skip_failed_result_safe [simp]: "safe_with n (skip_failed_result opcode status)"
proof -
  have "safe_with m (\<lambda>d. if b \<and> c \<and> length d \<ge> 28 then rbind (advance 28) (\<lambda>_. skip_var_bytes) d
      else rreturn () d)" for b c m
    using safe_withD [OF skip_var_bytes_safe] by (auto simp: safe_with_def rreturn_def)
  then show ?thesis unfolding skip_failed_result_def
    by (auto intro!: safe_rbind safe_rreturn)
qed

lemma result_arms_safe: "list_all (\<lambda>(op, r). safe_with 0 r) result_arms"
  unfolding result_arms_def void_results_def list_all_append list.map list.pred_inject prod.case
  by (intro conjI TrueI) (rule safe_rbind safe_rreturn safe_If | simp)+

lemma skip_op_result_safe [simp]: "safe_with n (skip_op_result opcode status)"
proof -
  have "safe_with 0 r" if "map_of (map (\<lambda>(op, r). (op_code op, r)) result_arms) opcode = Some r" for r
    using map_of_SomeD [OF that] result_arms_safe by (auto simp: list_all_iff)
  then show ?thesis
    by (auto simp: skip_op_result_def intro: safe_any safe_rfail split: option.split)
qed

lemma safe_with_buffer:
  "safe_with 0 r \<Longrightarrow> safe_with n (\<lambda>buf. rbind r (\<lambda>_. rreturn (f buf)) buf)"
  by (simp add: safe_with_def rbind_def rreturn_def and_then_eq_Panic split_beta)

lemma decode_result_safe [simp]: "safe_with n (decode_result stat_error)"
  unfolding decode_result_def
  by (rule safe_any, intro safe_need safe_get_u32 safe_lift_bind safe_with_buffer) simp_all

lemma response_body_safe [simp]: "safe_with n (response_body stat_error)"
  unfolding response_body_def
  by (auto intro!: safe_rbind safe_lift safe_rfail safe_rreturn safe_read_n)

text \<open>C18. Decoding a COMPOUND reply never panics, whatever bytes the server sends and whatever the
  generated status decoder accepts: it returns the results or an error.\<close>

theorem response_decode_never_panics: "response_decode stat_error buf \<noteq> Panic"
  unfolding response_decode_def by (rule run_not_Panic) simp

subsection \<open>Reply-cache policy\<close>

lemma ReplaySensitive_top: "c \<le> ReplaySensitive"
  by (cases c) (simp_all add: less_eq_operation_class_def)

lemma max_class_ReplaySensitive: "max_class cs = Some ReplaySensitive \<longleftrightarrow> ReplaySensitive \<in> set cs"
proof (cases cs)
  case (Cons c rest)
  have "max_class cs = Some (Max (set cs))"
    unfolding Cons by (simp only: max_class_def list.case Max.set_eq_fold)
  moreover have "Max (set cs) = ReplaySensitive \<longleftrightarrow> ReplaySensitive \<in> set cs"
    by (metis Cons List.finite_set Max_ge Max_in ReplaySensitive_top list.distinct(1) order_antisym set_empty)
  ultimately show ?thesis by simp
qed (simp add: max_class_def)

lemma b_operation_class_ReplaySensitive:
  "b_operation_class b = ReplaySensitive \<longleftrightarrow> (\<exists>op \<in> set (drop 1 (b_ops b)). op_class (eo_opcode op) = ReplaySensitive)"
proof -
  let ?cs = "map (op_class \<circ> eo_opcode) (drop 1 (b_ops b))"
  have "b_operation_class b = ReplaySensitive \<longleftrightarrow> max_class ?cs = Some ReplaySensitive"
    unfolding b_operation_class_def by (cases "max_class ?cs") simp_all
  also have "\<dots> \<longleftrightarrow> (\<exists>op \<in> set (drop 1 (b_ops b)). op_class (eo_opcode op) = ReplaySensitive)"
    unfolding max_class_ReplaySensitive by (metis (mono_tags, lifting) comp_apply imageE image_eqI list.set_map)
  finally show ?thesis .
qed

text \<open>C14. The reply-cache policy on a COMPOUND that starts with SEQUENCE.  It refuses exactly when
  some later operation is replay sensitive and the negotiated cache cannot hold the smallest
  successful reply; otherwise it changes nothing but the \<open>sa_cachethis\<close> word of SEQUENCE, which
  becomes TRUE exactly when some later operation is replay sensitive.\<close>

theorem cache_policy_exact:
  assumes "length session_id = 16"
    and "b_ops b = b_ops (b_sequence b0 session_id seq slot high) @ rest" and "b_ops b0 = []"
  defines "sensitive \<equiv> \<exists>op \<in> set rest. op_class (eo_opcode op) = ReplaySensitive"
  shows "apply_sequence_cache_policy b limit =
     (if sensitive \<and> limit < minimum_cached_response_size b
      then Err (Rpc (''replay-sensitive COMPOUND requires at least ''
             @ show_nat (unat (minimum_cached_response_size b))
             @ '' cached response bytes, server negotiated '' @ show_nat (unat limit)))
      else Ok (b\<lparr>b_ops := \<lparr>eo_opcode = Op_Sequence,
             eo_args = session_id @ u32_to_be seq @ u32_to_be slot @ u32_to_be high
               @ u32_to_be (if sensitive then 1 else 0)\<rparr> # rest\<rparr>))"
proof -
  let ?args = "session_id @ u32_to_be seq @ u32_to_be slot @ u32_to_be high"
  have ops: "b_ops b = \<lparr>eo_opcode = Op_Sequence, eo_args = ?args @ bool_enc False\<rparr> # rest"
    using assms(2,3) by (simp add: b_sequence_def push_op_def)
  have len: "length ?args = SEQUENCE_CACHE_THIS_OFFSET" "length (bool_enc v) = 4" for v
    using assms(1) by (simp_all add: SEQUENCE_CACHE_THIS_OFFSET_def bool_enc_def)
  have cls: "b_operation_class b = ReplaySensitive \<longleftrightarrow> sensitive"
    unfolding b_operation_class_ReplaySensitive sensitive_def ops by simp
  have tk: "take SEQUENCE_CACHE_THIS_OFFSET (?args @ bool_enc v) = ?args"
    and dr: "drop (SEQUENCE_CACHE_THIS_OFFSET + 4) (?args @ bool_enc v) = []" for v
    using len by (simp_all flip: len(1))
  have "\<not> length (?args @ bool_enc False) < SEQUENCE_CACHE_THIS_OFFSET + 4"
    using len by (simp flip: len(1))
  then show ?thesis
    unfolding apply_sequence_cache_policy_def Let_def cls ops list.case encoded_op.simps tk dr
    by (simp add: bool_enc_def)
qed

theorem cache_policy_exact_witness:
  "apply_sequence_cache_policy
     (b_remove (b_sequence (builder_new (str_bytes ''rm'')) (replicate 16 7) 5 0 0) (str_bytes ''x'')) 4096
   = Ok (builder_new (str_bytes ''rm'')\<lparr>b_ops :=
       [\<lparr>eo_opcode = Op_Sequence, eo_args = replicate 16 7 @ u32_to_be 5 @ u32_to_be 0 @ u32_to_be 0 @ u32_to_be 1\<rparr>,
        \<lparr>eo_opcode = Op_Remove, eo_args = opaque_enc (str_bytes ''x'')\<rparr>]\<rparr>)"
proof -
  let ?b = "b_remove (b_sequence (builder_new (str_bytes ''rm'')) (replicate 16 7) 5 0 0) (str_bytes ''x'')"
  have "minimum_cached_response_size ?b = 92"
    by (simp add: minimum_cached_response_size_def b_remove_def b_sequence_def push_op_def builder_new_def
        MIN_RPC_REPLY_ENVELOPE_SIZE_def MIN_COMPOUND_REPLY_ENVELOPE_SIZE_def op_extra_def
        SEQUENCE_SUCCESS_REPLY_SIZE_def MIN_OPERATION_REPLY_SIZE_def str_bytes_def pad_up_def)
  moreover have "b_ops ?b = b_ops (b_sequence (builder_new (str_bytes ''rm'')) (replicate 16 7) 5 0 0)
      @ [\<lparr>eo_opcode = Op_Remove, eo_args = opaque_enc (str_bytes ''x'')\<rparr>]"
    by (simp add: b_remove_def push_op_def)
  ultimately show ?thesis
    using cache_policy_exact [of "replicate 16 7" ?b "builder_new (str_bytes ''rm'')" 5 0 0
        "[\<lparr>eo_opcode = Op_Remove, eo_args = opaque_enc (str_bytes ''x'')\<rparr>]" 4096]
    by (simp add: builder_new_def op_class_def b_remove_def b_sequence_def push_op_def)
qed

subsection \<open>Busy replies\<close>

text \<open>The shape of a busy reply: the results of a prefix of the request, all successful but the
  last, whose status is the status of the COMPOUND.\<close>

definition busy_reply :: "encoded_op list \<Rightarrow> op_response list \<Rightarrow> u32 \<Rightarrow> bool" where
  "busy_reply requests replies status \<longleftrightarrow>
     replies \<noteq> [] \<and> length replies \<le> length requests
     \<and> map or_opcode replies = map (op_code \<circ> eo_opcode) (take (length replies) requests)
     \<and> list_all (\<lambda>p. or_status p = 0) (butlast replies)
     \<and> or_status (last replies) \<noteq> 0 \<and> or_status (last replies) = status"

lemma busy_reply_Cons:
  "busy_reply (q # requests) (p # replies) status \<longleftrightarrow>
     op_code (eo_opcode q) = or_opcode p
     \<and> (if replies = [] then or_status p \<noteq> 0 \<and> or_status p = status
        else or_status p = 0 \<and> busy_reply requests replies status)"
  by (cases replies) (auto simp: busy_reply_def)

lemma busy_loop_Ok:
  "busy_loop requests replies status safe = Ok r \<longleftrightarrow>
     busy_reply requests replies status
     \<and> r = (safe \<and> list_all (\<lambda>q. op_class (eo_opcode q) \<noteq> ReplaySensitive)
                      (take (length replies - 1) requests))"
proof (induction requests replies status safe rule: busy_loop.induct)
  case (1 request requests reply replies status safe)
  show ?case
  proof (cases replies)
    case Nil
    then show ?thesis by (cases requests) (auto simp: busy_reply_Cons)
  next
    case (Cons p ps)
    with 1 show ?thesis by (auto simp: busy_reply_Cons)
  qed
qed (auto simp: busy_reply_def)

text \<open>C17. \<open>can_retry_busy\<close> answers exactly for a busy reply: results that match a prefix of the
  request, each successful except the last, which carries the status of the COMPOUND.  It allows
  the retry exactly when none of the operations the server already executed is replay
  sensitive, so a retry never repeats a completed mutation.\<close>

theorem can_retry_busy_exact:
  "can_retry_busy b r = Ok retry \<longleftrightarrow>
     busy_reply (b_ops b) (cr_results r) (cr_status r)
     \<and> retry = list_all (\<lambda>q. op_class (eo_opcode q) \<noteq> ReplaySensitive)
                 (take (length (cr_results r) - 1) (b_ops b))"
proof (cases "cr_results r = [] \<or> length (cr_results r) > length (b_ops b)")
  case True
  then show ?thesis by (auto simp: can_retry_busy_def busy_reply_def)
next
  case False
  then show ?thesis by (auto simp: can_retry_busy_def busy_loop_Ok)
qed

subsection \<open>How much a successful result consumes\<close>

definition uses :: "nat \<Rightarrow> ('a, 'e) reader \<Rightarrow> bool" where
  "uses n r \<longleftrightarrow> (\<forall>d x d'. r d = Ok (x, d') \<longrightarrow> length d' + n \<le> length d)"

lemma usesD: "uses n r \<Longrightarrow> r d = Ok (x, d') \<Longrightarrow> length d' + n \<le> length d"
  by (simp add: uses_def)

lemma uses_le: "uses n r \<Longrightarrow> m \<le> n \<Longrightarrow> uses m r"
  by (fastforce simp: uses_def)

lemma uses_rbind:
  assumes "uses a m" and "\<And>x. uses c (f x)"
  shows "uses (a + c) (rbind m f)"
  unfolding uses_def rbind_eq_Ok
  using usesD [OF assms(1)] usesD [OF assms(2)] by fastforce

lemma uses_rbind_0: "uses 0 m \<Longrightarrow> (\<And>x. uses 0 (f x)) \<Longrightarrow> uses 0 (rbind m f)"
  using uses_rbind [of 0 m 0 f] by simp

lemma uses_basic [simp]:
  "uses 0 (rreturn x)" "uses n (rfail e)" "uses 0 (need k e)" "uses k (get_bytes k)"
  "uses k (advance k)" "uses 4 get_u32" "uses 8 get_u64" "uses k (slice_advance i k)" "uses 0 (lift r)"
  by (auto simp: uses_def reader_defs slice_advance_def lift_def split: if_splits)

lemma uses_any [simp]:
  "uses 0 (get_bytes k)" "uses 0 (advance k)" "uses 0 get_u32" "uses 0 get_u64" "uses 0 (slice_advance i k)"
  by (simp_all add: uses_le [OF uses_basic(4)] uses_le [OF uses_basic(5)] uses_le [OF uses_basic(6)]
      uses_le [OF uses_basic(7)] uses_le [OF uses_basic(8)])

lemma uses_need: "uses n (f ()) \<Longrightarrow> uses n (rbind (need k e) f)"
  by (auto simp: uses_def rbind_eq_Ok need_def split: if_splits)

lemma uses_lift: "(\<And>x. uses n (f x)) \<Longrightarrow> uses n (rbind (lift r) f)"
  using uses_rbind [of 0 "lift r" n f] by simp

lemma uses_If: "(b \<Longrightarrow> uses n r) \<Longrightarrow> (\<not> b \<Longrightarrow> uses n s) \<Longrightarrow> uses n (if b then r else s)"
  by simp

lemma uses_read_n: "uses 0 r \<Longrightarrow> uses 0 (read_n n r)"
  by (induction n) (auto intro!: uses_rbind_0)

lemma uses_skip_n [simp]: "uses k (skip_n k what)" "uses 0 (skip_n k what)"
  unfolding skip_n_def by (rule uses_need, simp)+

lemma uses_words [simp]:
  "uses 4 (word_or what)" "uses 4 word42" "uses 8 decode_u64" "uses 4 (take_u32 what)"
  unfolding word_or_def word42_def decode_u64_def take_u32_def by (rule uses_need, simp)+

lemma uses_decode_bool [simp]: "uses 4 decode_bool"
  unfolding decode_bool_def
  by (rule uses_le [OF uses_rbind [where a = 4 and c = 0]]) simp_all

lemma uses_0_words [simp]:
  "uses 0 (word_or what)" "uses 0 word42" "uses 0 decode_u64" "uses 0 (take_u32 what)" "uses 0 decode_bool"
  by (rule uses_le, rule uses_words uses_decode_bool, simp)+

lemma uses_forget: "uses n r \<Longrightarrow> uses n (forget r)"
  unfolding forget_def using uses_rbind [of n r 0 "\<lambda>_. rreturn ()"] by simp

lemma uses_opaque [simp]: "uses 0 (take_opaque what)" "uses 0 opaque42"
  unfolding opaque42_def take_opaque_def Let_def by (intro uses_rbind_0; simp)+

lemma uses_skip_var_bytes [simp]: "uses 0 skip_var_bytes"
  unfolding skip_var_bytes_def by (intro uses_rbind_0) simp_all

lemma uses_skip_bitmap [simp]: "uses 0 skip_bitmap"
  unfolding skip_bitmap_def by (intro uses_rbind_0 uses_If) simp_all

lemma uses_skip_fattr4 [simp]: "uses 0 skip_fattr4"
  unfolding skip_fattr4_def by (intro uses_rbind_0) simp_all

lemma uses_skip_entries [simp]: "uses 0 (skip_entries k)"
  by (induction k) (auto intro!: uses_rbind_0 uses_If)

lemma uses_skip_fixed [simp]:
  "uses 0 skip_change_info" "uses 0 skip_stateid4" "uses 0 skip_entry4_list"
  by (simp_all add: skip_change_info_def skip_stateid4_def skip_entry4_list_def)

lemma uses_case_utf8:
  "(\<And>s. uses 0 (f s)) \<Longrightarrow> uses 0 (case from_utf8 b of Ok s \<Rightarrow> f s | Err e \<Rightarrow> rfail (g e) | Panic \<Rightarrow> rfail h)"
  by (cases "from_utf8 b") simp_all

lemma uses_decode_nfsace4 [simp]: "uses 0 decode_nfsace4"
  unfolding decode_nfsace4_def decode_utf8str_def
  by (intro uses_rbind_0 uses_If uses_case_utf8; simp)

lemma uses_skip_open_delegation [simp]: "uses 0 skip_open_delegation"
  unfolding skip_open_delegation_def skip_space_limit_def
  by (intro uses_rbind_0 uses_If uses_forget) simp_all

lemma uses_skip_exchange_id_result [simp]: "uses 0 skip_exchange_id_result"
  unfolding skip_exchange_id_result_def skip_state_protect_def skip_impl_id_def
  by (intro uses_rbind_0 uses_If uses_forget uses_read_n) simp_all

lemma uses_skip_create_session_result [simp]: "uses 0 skip_create_session_result"
  unfolding skip_create_session_result_def skip_channel_attrs_def
  by (intro uses_rbind_0 uses_forget uses_read_n) simp_all

lemma uses_skip_layoutget_result [simp]: "uses 0 skip_layoutget_result"
  unfolding skip_layoutget_result_def skip_layout_segment_def
  by (intro uses_rbind_0 uses_If uses_forget uses_read_n) simp_all

lemma uses_guarded:
  "uses n r \<Longrightarrow> uses n s \<Longrightarrow> uses n (\<lambda>d. if b d then r d else s d)"
  "uses n s \<Longrightarrow> uses n (\<lambda>d. if b d then Err e else s d)"
  by (auto simp: uses_def)

lemma uses_skip_layoutcommit_result [simp]: "uses 0 skip_layoutcommit_result"
  unfolding skip_layoutcommit_result_def by (intro uses_rbind_0 uses_guarded) simp_all

lemma uses_skip_failed_result [simp]: "uses 0 (skip_failed_result opcode status)"
  unfolding skip_failed_result_def by (intro uses_rbind_0 uses_If uses_guarded uses_forget) simp_all

lemma uses_decode_read_plus [simp]: "uses 0 decode_read_plus"
  unfolding decode_read_plus_def read_plus_extent_def
  by (intro uses_rbind_0 uses_guarded uses_read_n uses_If) simp_all

lemma uses_decode_list [simp]: "uses 0 decode_list"
  unfolding decode_list_def xattr_key_def
  by (intro uses_rbind_0 uses_guarded uses_read_n uses_If uses_case_utf8) simp_all

lemma uses_copy_callback [simp]:
  "uses 0 (\<lambda>d. if w = (0 :: u32) then Ok (None, d)
      else if w = 1 \<and> length d \<ge> 16 then rbind (get_bytes 16) (\<lambda>b. rreturn (Some b)) d
      else Err e)"
  by (auto simp: uses_def rreturn_def)

lemma uses_decode_copy: "uses 32 decode_copy"
proof -
  have "uses (4 + (0 + (8 + (4 + (0 + (0 + (8 + (4 + (4 + 0))))))))) decode_copy"
    unfolding decode_copy_def by (rule uses_rbind uses_copy_callback | simp)+
  then show ?thesis by simp
qed

text \<open>The smallest body of a successful result that the cache policy counts.\<close>

definition counted_body :: "op_num \<Rightarrow> nat" where
  "counted_body op = (if op = Op_Sequence then 36 else op_extra op)"

lemma uses_changed_info: "uses 20 (rbind decode_bool (\<lambda>_. rbind decode_u64 (\<lambda>_. forget decode_u64)))"
  using uses_rbind [OF uses_decode_bool uses_rbind [OF uses_words(3) uses_forget [OF uses_words(3)]]] by simp

lemma result_arms_use: "list_all (\<lambda>(op, r). uses (counted_body op) r) result_arms"
  unfolding result_arms_def void_results_def list_all_append list.map list.pred_inject prod.case
  by (simp add: counted_body_def op_extra_def uses_forget uses_decode_copy uses_changed_info uses_rbind_0)

lemma op_code_inject: "op_code a = op_code b \<longleftrightarrow> a = b"
  by (cases a; simp only: op_code.simps; cases b; simp)

lemma skip_op_result_uses:
  "uses 0 (skip_op_result opcode status)" "uses (counted_body op) (skip_op_result (op_code op) 0)"
proof -
  have arm: "\<exists>op. opcode = op_code op \<and> uses (counted_body op) r"
    if "map_of (map (\<lambda>(op, r). (op_code op, r)) result_arms) opcode = Some r" for opcode r
    using map_of_SomeD [OF that] result_arms_use by (auto simp: list_all_iff)
  show "uses 0 (skip_op_result opcode status)"
    using arm by (fastforce simp: skip_op_result_def intro: uses_le split: option.split)
  show "uses (counted_body op) (skip_op_result (op_code op) 0)"
    using arm by (auto simp: skip_op_result_def op_code_inject dest!: arm split: option.split)
qed

definition result_cost :: "u32 \<Rightarrow> nat" where
  "result_cost opcode = 8 + (if opcode = op_code Op_Sequence then 36
     else if opcode = op_code Op_Copy then 32
     else if opcode = op_code Op_SetXattr \<or> opcode = op_code Op_RemoveXattr then 20 else 0)"

lemma result_cost_eq: "result_cost (op_code op) = 8 + counted_body op"
  unfolding result_cost_def counted_body_def op_extra_def op_code_inject by auto

lemma skip_ok_uses:
  assumes "skip_op_result opcode 0 d = Ok ((), d')"
  shows "length d' + (result_cost opcode - 8) \<le> length d"
proof (cases "\<exists>op. opcode = op_code op")
  case True
  with assms show ?thesis using usesD [OF skip_op_result_uses(2)] by (auto simp: result_cost_eq)
next
  case False
  then have "result_cost opcode = 8" by (auto simp: result_cost_def simp del: op_code.simps)
  with usesD [OF skip_op_result_uses(1) assms] show ?thesis by simp
qed

lemma decode_result_cost:
  assumes "decode_result stat_error d = Ok (p, d')" and "or_status p = 0"
  shows "length d' + result_cost (or_opcode p) \<le> length d"
proof -
  from assms obtain opcode where p: "or_opcode p = opcode" and len: "8 \<le> length d"
    and skip: "skip_op_result opcode 0 (drop 8 d) = Ok ((), d')"
    by (auto simp: decode_result_def rbind_eq_Ok need_def get_u32_def lift_def decode_nfsstat4_def
        rreturn_def split: if_splits option.splits)
  from skip_ok_uses [OF skip] len show ?thesis by (simp add: p result_cost_def)
qed

lemma read_results_cost:
  "read_n n (decode_result stat_error) d = Ok (ps, d') \<Longrightarrow> list_all (\<lambda>p. or_status p = 0) ps
   \<Longrightarrow> length d' + sum_list (map (result_cost \<circ> or_opcode) ps) \<le> length d"
proof (induction n arbitrary: d ps)
  case (Suc n)
  from Suc.prems(1) obtain p d1 qs where step: "decode_result stat_error d = Ok (p, d1)"
    and rest: "read_n n (decode_result stat_error) d1 = Ok (qs, d')" and ps: "ps = p # qs"
    by (auto simp: rbind_eq_Ok rreturn_def)
  from Suc.prems(2) ps have "or_status p = 0" "list_all (\<lambda>p. or_status p = 0) qs" by simp_all
  with decode_result_cost [OF step] Suc.IH [OF rest] show ?case by (simp add: ps)
qed (simp add: rreturn_def)

lemma decode_string_length:
  "decode_string d = Ok (s, d') \<Longrightarrow> length d' + 4 + pad_up (length s) \<le> length d"
  by (auto simp: decode_string_def rbind_eq_Ok need_def get_u32_def slice_advance_def rreturn_def rfail_def
      from_utf8_eq_Ok split: if_splits outcome.splits)

lemma response_cost:
  assumes "response_decode stat_error buf = Ok r" and "list_all (\<lambda>p. or_status p = 0) (cr_results r)"
  shows "12 + pad_up (length (cr_tag r)) + sum_list (map (result_cost \<circ> or_opcode) (cr_results r)) \<le> length buf"
proof -
  from assms(1) obtain d1 d2 d3 d4 n where
    "4 \<le> length buf" "d1 = drop 4 buf" "decode_string d1 = Ok (cr_tag r, d2)"
    and "4 \<le> length d2" "d3 = drop 4 d2"
    and rs: "read_n n (decode_result stat_error) d3 = Ok (cr_results r, d4)"
    by (auto simp: response_decode_def run_def response_body_def rbind_eq_Ok word_or_def need_def
        get_u32_def lift_def rreturn_def rfail_def split: if_splits)
  with read_results_cost [OF rs assms(2)] decode_string_length [of d1 "cr_tag r" d2]
  show ?thesis by simp
qed

lemma counted_sum:
  "sum_list (map (\<lambda>op. 8 + op_extra op) ops) = length ops * 8 + sum_list (map op_extra ops)"
  by (induction ops) simp_all

text \<open>C19. The size the cache policy asks for is a true minimum: every fully successful reply to the
  COMPOUND that the decoder accepts, with the 24 bytes of the RPC reply header in front, is at
  least that long.  So the policy never refuses a channel that could cache some such reply.\<close>

theorem minimum_cached_response_size_is_lower_bound:
  assumes "response_decode stat_error buf = Ok r"
    and "list_all (\<lambda>p. or_status p = 0) (cr_results r)"
    and "map or_opcode (cr_results r) = map (op_code \<circ> eo_opcode) (b_ops b)"
    and "cr_tag r = b_tag b"
    and "map eo_opcode (b_ops b) = Op_Sequence # ops"
  shows "unat (minimum_cached_response_size b) \<le> MIN_RPC_REPLY_ENVELOPE_SIZE + length buf"
proof -
  have opcodes: "map or_opcode (cr_results r) = map op_code (Op_Sequence # ops)"
    unfolding assms(3) assms(5) [symmetric] by simp
  have "map (result_cost \<circ> or_opcode) (cr_results r) = map (result_cost \<circ> op_code) (Op_Sequence # ops)"
    using opcodes by (metis map_map)
  moreover have "8 + op_extra op \<le> result_cost (op_code op)" for op
    by (auto simp: result_cost_eq counted_body_def op_extra_def)
  then have "sum_list (map (\<lambda>op. 8 + op_extra op) ops) \<le> sum_list (map (result_cost \<circ> op_code) ops)"
    by (intro sum_list_mono) simp
  moreover have "result_cost (op_code Op_Sequence) = 44" by (simp add: result_cost_def)
  ultimately have "12 + pad_up (length (b_tag b)) + 44 + (length ops * 8 + sum_list (map op_extra ops)) \<le> length buf"
    using response_cost [OF assms(1,2)] by (simp add: assms(4) counted_sum)
  moreover have "length (b_ops b) = Suc (length ops)" using arg_cong [OF assms(5), of length] by simp
  moreover have "sum_list (map (op_extra \<circ> eo_opcode) (b_ops b)) = sum_list (map op_extra ops)"
    using arg_cong [OF assms(5), of "sum_list \<circ> map op_extra"] by (simp add: op_extra_def)
  moreover define n where "n = 24 + 12 + pad_up (length (b_tag b)) + 44 + (length (b_ops b) - 1) * 8
      + sum_list (map (op_extra \<circ> eo_opcode) (b_ops b))"
  then have "minimum_cached_response_size b = (if n < 2 ^ 32 then word_of_nat n else - 1)"
    unfolding minimum_cached_response_size_def Let_def MIN_RPC_REPLY_ENVELOPE_SIZE_def
      MIN_COMPOUND_REPLY_ENVELOPE_SIZE_def SEQUENCE_SUCCESS_REPLY_SIZE_def MIN_OPERATION_REPLY_SIZE_def
    by (simp only:)
  then have "unat (minimum_cached_response_size b) \<le> n"
    using unat_of_nat_small [of n, where ?'a = 32] by (auto simp: unat_max_word)
  ultimately show ?thesis by (simp add: MIN_RPC_REPLY_ENVELOPE_SIZE_def n_def)
qed

text \<open>A reply as a server writes it: the results in order, each with its own body.  A body that the
  decoder skips exactly is handed to the caller together with what follows it.\<close>

lemma decode_string_enc:
  "length s < 2 ^ 32 \<Longrightarrow> utf8_valid s \<Longrightarrow> decode_string (opaque_enc s @ d) = Ok (s, d)"
  by (simp add: decode_string_def opaque_enc_def unat_of_nat_small pad_up_eq rbind_def [of "slice_advance _ _"]
      slice_advance_def rreturn_def)

lemma decode_result_enc:
  assumes "stat_error status = None" and "skip_op_result opcode status (body @ d) = Ok ((), d)"
  shows "decode_result stat_error (u32_to_be opcode @ u32_to_be status @ body @ d) =
    Ok (\<lparr>or_opcode = opcode, or_status = status, or_data = body @ d\<rparr>, d)"
  using assms by (simp add: decode_result_def decode_nfsstat4_def rbind_def [of "skip_op_result _ _"] rreturn_def)

lemma skip_n_enc: "length body = n \<Longrightarrow> skip_n n what (body @ d) = Ok ((), d)"
  by (simp add: skip_n_def advance_def)

text \<open>The reply of a server that executed SEQUENCE and REMOVE.\<close>

definition sample_reply :: bytes where
  "sample_reply = u32_to_be 0 @ opaque_enc (str_bytes ''rm'') @ u32_to_be 2
     @ (u32_to_be 53 @ u32_to_be 0 @ replicate 36 0 @ u32_to_be 28 @ u32_to_be 0 @ replicate 20 0 @ [])"

lemma sample_reply_decodes:
  "response_decode (\<lambda>_. None) sample_reply = Ok \<lparr>cr_tag = str_bytes ''rm'', cr_status = 0,
     cr_results = [\<lparr>or_opcode = 53, or_status = 0,
                      or_data = replicate 36 0 @ u32_to_be 28 @ u32_to_be 0 @ replicate 20 0 @ []\<rparr>,
                   \<lparr>or_opcode = 28, or_status = 0, or_data = replicate 20 0 @ []\<rparr>],
     cr_session_generation = 0\<rparr>"
proof -
  have seq: "decode_result (\<lambda>_. None) (u32_to_be 53 @ u32_to_be 0 @ replicate 36 0 @ d) =
      Ok (\<lparr>or_opcode = 53, or_status = 0, or_data = replicate 36 0 @ d\<rparr>, d)" for d
    by (rule decode_result_enc) (simp_all add: skip_op_result_def result_arms_def skip_n_enc)
  have rem: "decode_result (\<lambda>_. None) (u32_to_be 28 @ u32_to_be 0 @ replicate 20 0 @ d) =
      Ok (\<lparr>or_opcode = 28, or_status = 0, or_data = replicate 20 0 @ d\<rparr>, d)" for d
    by (rule decode_result_enc) (simp_all add: skip_op_result_def result_arms_def skip_change_info_def skip_n_enc)
  have "decode_string (opaque_enc (str_bytes ''rm'') @ d) = Ok (str_bytes ''rm'', d)" for d
    by (rule decode_string_enc) (simp_all add: str_bytes_def utf8_valid_def utf8_width_def)
  moreover have "read_n 2 (decode_result (\<lambda>_. None))
      (u32_to_be 53 @ u32_to_be 0 @ replicate 36 0 @ u32_to_be 28 @ u32_to_be 0 @ replicate 20 0 @ []) =
      Ok ([\<lparr>or_opcode = 53, or_status = 0,
              or_data = replicate 36 0 @ u32_to_be 28 @ u32_to_be 0 @ replicate 20 0 @ []\<rparr>,
           \<lparr>or_opcode = 28, or_status = 0, or_data = replicate 20 0 @ []\<rparr>], [])"
    unfolding numeral_2_eq_2 read_n.simps rbind_def [of "decode_result _"] seq and_then.simps prod.case
    using rem [of "[]"] by (simp add: rbind_def rreturn_def)
  ultimately show ?thesis
    unfolding response_decode_def run_def response_body_def sample_reply_def word_or_def
    by (simp add: rbind_assoc decode_nfsstat4_def rbind_def [of decode_string] rbind_def [of "read_n _ _"]
        MAX_COMPOUND_OPS_def rreturn_def)
qed

theorem minimum_cached_response_size_is_lower_bound_witness:
  "unat (minimum_cached_response_size
     (b_remove (b_sequence (builder_new (str_bytes ''rm'')) (replicate 16 7) 5 0 0) (str_bytes ''x'')))
   \<le> MIN_RPC_REPLY_ENVELOPE_SIZE + length sample_reply"
  by (rule minimum_cached_response_size_is_lower_bound [OF sample_reply_decodes, where ops = "[Op_Remove]"])
    (simp_all add: b_remove_def b_sequence_def push_op_def builder_new_def)

lemma word_or_enc [simp]: "rbind (word_or what) f (u32_to_be x @ d) = f x d" "rbind (word_or what) f (u32_to_be x) = f x []"
  using rbind_get_u32_append [of f x "[]"] by (simp_all add: word_or_def rbind_assoc)

end
