(* ===== verification/Std_Text.thy ===== *)
theory Std_Text
  imports Xdr
begin

text \<open>
  The operations of the Rust standard library on text that the client uses: \<open>str::parse\<close> for the
  unsigned integers, \<open>str::split\<close> and \<open>str::rfind\<close> for an ASCII character.  A \<open>str\<close> is its
  UTF-8 bytes.
\<close>

text \<open>The digits of a number below \<open>bound\<close>, after the number \<open>acc\<close>.\<close>

fun parse_digits :: "nat \<Rightarrow> nat \<Rightarrow> bytes \<Rightarrow> nat option" where
  "parse_digits bound acc [] = Some acc"
| "parse_digits bound acc (b # bs) =
     (if 48 \<le> unat b \<and> unat b \<le> 57 \<and> acc * 10 + (unat b - 48) < bound
      then parse_digits bound (acc * 10 + (unat b - 48)) bs else None)"

text \<open>\<open>parse::<uN>\<close>: decimal digits, after an optional plus sign.\<close>

definition parse_uint :: "bytes \<Rightarrow> 'a::len word option" where
  "parse_uint s =
     (let ds = (case s of b # bs \<Rightarrow> if b = 43 then bs else s | [] \<Rightarrow> []) in
      if ds = [] then None else map_option word_of_nat (parse_digits (2 ^ LENGTH('a)) 0 ds))"

text \<open>\<open>split(c)\<close>.\<close>

fun split_on :: "u8 \<Rightarrow> bytes \<Rightarrow> bytes list" where
  "split_on c [] = [[]]"
| "split_on c (b # bs) = (if b = c then [] # split_on c bs
     else case split_on c bs of p # ps \<Rightarrow> (b # p) # ps | [] \<Rightarrow> [[b]])"

text \<open>\<open>rfind(c)\<close>: the index of the last occurrence.\<close>

fun rfind :: "u8 \<Rightarrow> bytes \<Rightarrow> nat option" where
  "rfind c [] = None"
| "rfind c (b # bs) = (case rfind c bs of Some i \<Rightarrow> Some (Suc i) | None \<Rightarrow> if b = c then Some 0 else None)"

text \<open>The text of an error message that quotes a string of the wire.\<close>

definition quoted :: "bytes \<Rightarrow> string" where
  "quoted s = map (\<lambda>b. char_of (unat b)) s"

subsection \<open>Numbers written in decimal read back\<close>

lemma parse_digits_append:
  "parse_digits bound acc (xs @ ys) = Option.bind (parse_digits bound acc xs) (\<lambda>a. parse_digits bound a ys)"
  by (induction xs arbitrary: acc) auto

lemma str_bytes_append: "str_bytes (s @ t) = str_bytes s @ str_bytes t"
  by (simp add: str_bytes_def)

lemma digit_byte: "d < 10 \<Longrightarrow> unat (word_of_nat (of_char (char_of (48 + d) :: char)) :: u8) = 48 + d"
proof -
  assume d: "d < 10"
  then have "(of_char (char_of (48 + d) :: char) :: nat) = 48 + d" by simp
  with d show ?thesis by (simp only:) (rule unat_of_nat_small, simp)
qed

lemma parse_digits_show: "n < bound \<Longrightarrow> parse_digits bound 0 (str_bytes (show_nat n)) = Some n"
proof (induction n rule: show_nat.induct)
  case (1 n)
  show ?case
  proof (cases "n < 10")
    case True
    then show ?thesis using digit_byte [of n] 1(2) by (simp add: show_nat.simps [of n] str_bytes_def)
  next
    case False
    have "parse_digits bound 0 (str_bytes (show_nat (n div 10))) = Some (n div 10)"
      using 1 False by simp
    then show ?thesis
      using digit_byte [of "n mod 10"] False 1(2)
      by (subst show_nat.simps) (simp add: parse_digits_append str_bytes_append, simp add: str_bytes_def)
  qed
qed

lemma show_nat_nonempty: "show_nat n \<noteq> []"
  by (subst show_nat.simps) simp

lemma show_nat_digits: "c \<in> set (show_nat n) \<Longrightarrow> \<exists>d<10::nat. c = char_of (48 + d)"
proof (induction n rule: show_nat.induct)
  case (1 n)
  have last: "c = char_of (48 + n mod 10) \<Longrightarrow> \<exists>d<10::nat. c = char_of (48 + d)"
    by (rule exI [of _ "n mod 10"]) simp
  show ?case
  proof (cases "n < 10")
    case True
    with 1(2) have "c = char_of (48 + n mod 10)" by (subst (asm) show_nat.simps) simp
    then show ?thesis by (rule last)
  next
    case False
    with 1(2) have "c \<in> set (show_nat (n div 10)) \<or> c = char_of (48 + n mod 10)"
      by (subst (asm) show_nat.simps) auto
    with 1(1) False last show ?thesis by blast
  qed
qed

lemma str_bytes_digits: "b \<in> set (str_bytes (show_nat n)) \<Longrightarrow> 48 \<le> unat b \<and> unat b \<le> 57"
proof -
  assume "b \<in> set (str_bytes (show_nat n))"
  then obtain c where "c \<in> set (show_nat n)" and b: "b = word_of_nat (of_char c)" by (auto simp: str_bytes_def)
  then obtain d :: nat where "d < 10" "c = char_of (48 + d)" using show_nat_digits by blast
  with b show ?thesis using digit_byte [of d] by simp
qed

lemma parse_uint_show: "parse_uint (str_bytes (show_nat (unat w))) = Some w" for w :: "'a::len word"
proof -
  let ?s = "str_bytes (show_nat (unat w))"
  have ne: "?s \<noteq> []" using show_nat_nonempty by (simp add: str_bytes_def)
  have "hd ?s \<noteq> 43" using str_bytes_digits [OF hd_in_set [OF ne]] by auto
  with ne have "(case ?s of b # bs \<Rightarrow> if b = 43 then bs else ?s | [] \<Rightarrow> []) = ?s"
    by (auto split: list.splits)
  then show ?thesis
    using ne parse_digits_show [OF unat_word_less_exp [of w]] by (simp add: parse_uint_def)
qed

subsection \<open>Splitting\<close>

lemma split_on_none: "c \<notin> set p \<Longrightarrow> split_on c p = [p]"
  by (induction p) auto

lemma split_on_Cons: "c \<notin> set p \<Longrightarrow> split_on c (p @ c # rest) = p # split_on c rest"
  by (induction p) auto

lemma rfind_None: "rfind c s = None \<longleftrightarrow> c \<notin> set s"
  by (induction s) (auto split: option.splits)

lemma rfind_last: "c \<notin> set q \<Longrightarrow> rfind c (p @ c # q) = Some (length p)"
proof (induction p)
  case Nil
  then have "rfind c q = None" by (simp add: rfind_None)
  then show ?case by simp
qed simp

end
