(* ===== verification/Attrs.thy ===== *)
theory Attrs
  imports Acl Std_Text
begin

text \<open>
  The NFSv4 attribute codec (\<open>src/src/nfs4/attrs.rs\<close>): the bitmap, the decoder that walks the
  attribute values in bit order, the SETATTR encoder, and the owner strings.

  \<open>decode_fattr4_to_attr\<close> is a chain of 61 guarded blocks, one per attribute number.  The model
  keeps them as the table \<open>attr_blocks\<close>, in the order of the source, and runs the table; every
  block is the source's block for its attribute.
\<close>

subsection \<open>Data\<close>

record nfs_time =
  seconds :: u32
  nseconds :: u32

record attr =
  a_type :: u32
  a_file_mode :: u32
  a_nlink :: u32
  a_uid :: u32
  a_gid :: u32
  a_filesize :: u64
  a_used :: u64
  a_spec_data :: "u32 \<times> u32"
  a_fsid :: u64
  a_fileid :: u64
  a_atime :: nfs_time
  a_mtime :: nfs_time
  a_ctime :: nfs_time
  a_acl :: "acl option"
  a_owner :: bytes
  a_owner_group :: bytes
  a_filehandle :: bytes

definition time_default :: nfs_time where
  "time_default = \<lparr>seconds = 0, nseconds = 0\<rparr>"

definition attr_default :: attr where
  "attr_default = \<lparr>a_type = 0, a_file_mode = 0, a_nlink = 0, a_uid = 0, a_gid = 0, a_filesize = 0,
     a_used = 0, a_spec_data = (0, 0), a_fsid = 0, a_fileid = 0, a_atime = time_default,
     a_mtime = time_default, a_ctime = time_default, a_acl = None, a_owner = [], a_owner_group = [],
     a_filehandle = []\<rparr>"

subsection \<open>Numbers in text\<close>

definition show_u32 :: "u32 \<Rightarrow> bytes" where
  "show_u32 w = str_bytes (show_nat (unat w))"

definition parse_numeric_owner :: "bytes \<Rightarrow> u32" where
  "parse_numeric_owner s =
     (case parse_uint s of
        Some n \<Rightarrow> n
      | None \<Rightarrow>
          let name = takeWhile (\<lambda>b. b \<noteq> 64) s in
          (case parse_uint name of
             Some n \<Rightarrow> n
           | None \<Rightarrow> if name = str_bytes ''root'' then 0 else 65534))"

subsection \<open>Bitmaps\<close>

definition bitmap_has :: "u32 list \<Rightarrow> nat \<Rightarrow> bool" where
  "bitmap_has bitmap attr_num =
     (let word_idx = attr_num div 32; bit_idx = attr_num mod 32 in
      if word_idx \<ge> length bitmap then False
      else bitmap ! word_idx AND push_bit bit_idx 1 \<noteq> 0)"

definition standard_getattr_bitmap :: "u32 list" where
  "standard_getattr_bitmap =
     [push_bit 1 1 OR push_bit 4 1 OR push_bit 8 1 OR push_bit ACL_ATTR 1
        OR push_bit FILEHANDLE_ATTR 1 OR push_bit FILEID_ATTR 1,
      push_bit 1 1 OR push_bit 3 1 OR push_bit 4 1 OR push_bit 5 1 OR push_bit 9 1
        OR push_bit 13 1 OR push_bit 15 1 OR push_bit 20 1 OR push_bit 21 1]"

definition decode_fattr4_envelope :: "string \<Rightarrow> (u32 list \<times> bytes, nfs_error) reader" where
  "decode_fattr4_envelope label =
     rbind (need 4 (Xdr (label @ '' bitmap length truncated''))) (\<lambda>_.
     rbind get_u32 (\<lambda>count.
     if unat count > 16 then rfail (Xdr (label @ '' bitmap is invalid'')) else
     rbind (need (unat count * 4) (Xdr (label @ '' bitmap is invalid''))) (\<lambda>_.
     rbind (read_n (unat count) get_u32) (\<lambda>bitmap.
     rbind (need 4 (Xdr (label @ '' value length truncated''))) (\<lambda>_.
     rbind get_u32 (\<lambda>len.
     rbind (need (unat len) (Xdr (label @ '' values truncated''))) (\<lambda>_.
     rbind (get_bytes (unat len)) (\<lambda>vals. rreturn (bitmap, vals)))))))))"

subsection \<open>Attribute values\<close>

definition skip_fixed :: "nat \<Rightarrow> string \<Rightarrow> (unit, nfs_error) reader" where
  "skip_fixed n attr_name vals =
     (if length vals < n
      then Err (Xdr (''fattr4 '' @ attr_name @ '' truncated (need '' @ show_nat n @ '' have ''
             @ show_nat (length vals) @ '')''))
      else advance n vals)"

definition skip_settime4 :: "string \<Rightarrow> (unit, nfs_error) reader" where
  "skip_settime4 attr_name =
     rbind (need 4 (Xdr (''fattr4 '' @ attr_name @ '' settime4 truncated''))) (\<lambda>_.
     rbind get_u32 (\<lambda>how. if how = 1 then skip_fixed 12 attr_name else rreturn ()))"

definition decode_opaque :: "string \<Rightarrow> (bytes, nfs_error) reader" where
  "decode_opaque attr_name =
     rbind (need 4 (Xdr (''fattr4 '' @ attr_name @ '' opaque length truncated''))) (\<lambda>_.
     rbind get_u32 (\<lambda>len.
     (\<lambda>vals. let padded = pad_up (unat len) in
        if length vals < padded
        then Err (Xdr (''fattr4 '' @ attr_name @ '' opaque data truncated (need '' @ show_nat padded
               @ '' have '' @ show_nat (length vals) @ '')''))
        else slice_advance (unat len) padded vals)))"

definition skip_bitmap4 :: "string \<Rightarrow> (unit, nfs_error) reader" where
  "skip_bitmap4 attr_name =
     rbind (need 4 (Xdr (''fattr4 '' @ attr_name @ '' bitmap count truncated''))) (\<lambda>_.
     rbind get_u32 (\<lambda>count. skip_fixed (unat count * 4) attr_name))"

definition skip_strings :: "string \<Rightarrow> (unit, nfs_error) reader" where
  "skip_strings truncated =
     rbind (need 4 (Xdr truncated)) (\<lambda>_.
     rbind get_u32 (\<lambda>count.
     rbind (read_n (unat count) decode_utf8str) (\<lambda>_. rreturn ())))"

definition skip_fs_locations :: "(unit, nfs_error) reader" where
  "skip_fs_locations =
     rbind (skip_strings ''fattr4 fs_locations root truncated'') (\<lambda>_.
     rbind (need 4 (Xdr ''fattr4 fs_locations locations count truncated'')) (\<lambda>_.
     rbind get_u32 (\<lambda>loc_count.
     rbind (read_n (unat loc_count)
        (rbind (skip_strings ''fattr4 fs_location4 server count truncated'')
           (\<lambda>_. skip_strings ''fattr4 fs_location4 rootpath count truncated''))) (\<lambda>_.
     rreturn ()))))"

text \<open>\<open>get_i64\<close> reads the same eight bytes as \<open>get_u64\<close>; the sign is read off with \<open>sint\<close>.\<close>

definition decode_nfstime4 :: "(nfs_time, nfs_error) reader" where
  "decode_nfstime4 =
     rbind (need 12 (Xdr ''nfstime4 truncated'')) (\<lambda>_.
     rbind get_u64 (\<lambda>secs.
     rbind get_u32 (\<lambda>nsecs.
     rreturn \<lparr>seconds = (if sint secs < 0 then 0
                         else if sint secs > 4294967295 then - 1
                         else word_of_int (sint secs)),
              nseconds = nsecs\<rparr>)))"


definition u32_value :: "string \<Rightarrow> (u32, nfs_error) reader" where
  "u32_value truncated = rbind (need 4 (Xdr truncated)) (\<lambda>_. get_u32)"

definition u64_value :: "string \<Rightarrow> (u64, nfs_error) reader" where
  "u64_value truncated = rbind (need 8 (Xdr truncated)) (\<lambda>_. get_u64)"

definition fsid_value :: "(u64, nfs_error) reader" where
  "fsid_value =
     rbind (need 16 (Xdr ''fattr4 fsid truncated'')) (\<lambda>_.
     rbind get_u64 (\<lambda>major. rbind get_u64 (\<lambda>minor. rreturn major)))"

definition rdattr_error_value :: "(unit, nfs_error) reader" where
  "rdattr_error_value =
     rbind (u32_value ''fattr4 rdattr_error truncated'') (\<lambda>code.
     if code \<noteq> 0 then rfail (RdattrError code) else rreturn ())"

definition rawdev_value :: "(u32 \<times> u32, nfs_error) reader" where
  "rawdev_value =
     rbind (need 8 (Xdr ''fattr4 rawdev truncated'')) (\<lambda>_.
     rbind get_u32 (\<lambda>a. rbind get_u32 (\<lambda>b. rreturn (a, b))))"

text \<open>A block that stores what it reads, and one that only moves past it.\<close>

type_synonym attr_block = "attr \<Rightarrow> (attr, nfs_error) reader"

definition field :: "('a, nfs_error) reader \<Rightarrow> ('a \<Rightarrow> attr \<Rightarrow> attr) \<Rightarrow> attr_block" where
  "field r upd a = rbind r (\<lambda>x. rreturn (upd x a))"

definition skipping :: "(unit, nfs_error) reader \<Rightarrow> attr_block" where
  "skipping r a = rbind r (\<lambda>_. rreturn a)"

definition attr_blocks_word0 :: "(nat \<times> attr_block) list" where
  "attr_blocks_word0 =
     [(0, skipping (skip_bitmap4 ''supported_attrs'')),
      (1, field (u32_value ''fattr4 type truncated'') (\<lambda>v. a_type_update (\<lambda>_. v))),
      (2, skipping (skip_fixed 4 ''fh_expire_type'')),
      (3, skipping (skip_fixed 8 ''change'')),
      (4, field (u64_value ''fattr4 size truncated'') (\<lambda>v. a_filesize_update (\<lambda>_. v))),
      (5, skipping (skip_fixed 4 ''link_support'')),
      (6, skipping (skip_fixed 4 ''symlink_support'')),
      (7, skipping (skip_fixed 4 ''named_attr'')),
      (8, field fsid_value (\<lambda>v. a_fsid_update (\<lambda>_. v))),
      (9, skipping (skip_fixed 4 ''unique_handles'')),
      (10, skipping (skip_fixed 4 ''lease_time'')),
      (11, skipping rdattr_error_value),
      (ACL_ATTR, field decode_acl (\<lambda>v. a_acl_update (\<lambda>_. Some v))),
      (ACLSUPPORT_ATTR, skipping (skip_fixed 4 ''aclsupport'')),
      (14, skipping (skip_fixed 4 ''archive'')),
      (15, skipping (skip_fixed 4 ''cansettime'')),
      (16, skipping (skip_fixed 4 ''case_insensitive'')),
      (17, skipping (skip_fixed 4 ''case_preserving'')),
      (18, skipping (skip_fixed 4 ''chown_restricted'')),
      (FILEHANDLE_ATTR, field (decode_opaque ''filehandle'') (\<lambda>v. a_filehandle_update (\<lambda>_. v))),
      (FILEID_ATTR, field (u64_value ''fattr4 fileid truncated'') (\<lambda>v. a_fileid_update (\<lambda>_. v))),
      (21, skipping (skip_fixed 8 ''files_avail'')),
      (22, skipping (skip_fixed 8 ''files_free'')),
      (23, skipping (skip_fixed 8 ''files_total'')),
      (24, skipping skip_fs_locations),
      (25, skipping (skip_fixed 4 ''hidden'')),
      (26, skipping (skip_fixed 4 ''homogeneous'')),
      (27, skipping (skip_fixed 8 ''maxfilesize'')),
      (28, skipping (skip_fixed 4 ''maxlink'')),
      (29, skipping (skip_fixed 4 ''maxname'')),
      (30, skipping (skip_fixed 8 ''maxread'')),
      (31, skipping (skip_fixed 8 ''maxwrite''))]"

definition attr_blocks_word1 :: "(nat \<times> attr_block) list" where
  "attr_blocks_word1 =
     [(32, skipping (rbind decode_utf8str (\<lambda>_. rreturn ()))),
      (MODE_ATTR, field (u32_value ''fattr4 mode truncated'') (\<lambda>v. a_file_mode_update (\<lambda>_. v))),
      (34, skipping (skip_fixed 4 ''no_trunc'')),
      (35, field (u32_value ''fattr4 numlinks truncated'') (\<lambda>v. a_nlink_update (\<lambda>_. v))),
      (36, field decode_utf8str (\<lambda>s a. a\<lparr>a_uid := parse_numeric_owner s, a_owner := s\<rparr>)),
      (37, field decode_utf8str (\<lambda>s a. a\<lparr>a_gid := parse_numeric_owner s, a_owner_group := s\<rparr>)),
      (38, skipping (skip_fixed 8 ''quota_avail_hard'')),
      (39, skipping (skip_fixed 8 ''quota_avail_soft'')),
      (40, skipping (skip_fixed 8 ''quota_used'')),
      (41, field rawdev_value (\<lambda>v. a_spec_data_update (\<lambda>_. v))),
      (42, skipping (skip_fixed 8 ''space_avail'')),
      (43, skipping (skip_fixed 8 ''space_free'')),
      (44, skipping (skip_fixed 8 ''space_total'')),
      (45, field (u64_value ''fattr4 space_used truncated'') (\<lambda>v. a_used_update (\<lambda>_. v))),
      (46, skipping (skip_fixed 4 ''system'')),
      (47, field decode_nfstime4 (\<lambda>v. a_atime_update (\<lambda>_. v))),
      (48, skipping (skip_settime4 ''time_access_set'')),
      (49, skipping (skip_fixed 12 ''time_backup'')),
      (50, skipping (skip_fixed 12 ''time_create'')),
      (51, skipping (skip_fixed 12 ''time_delta'')),
      (52, field decode_nfstime4 (\<lambda>v. a_ctime_update (\<lambda>_. v))),
      (53, field decode_nfstime4 (\<lambda>v. a_mtime_update (\<lambda>_. v))),
      (54, skipping (skip_settime4 ''time_modify_set'')),
      (55, skipping (skip_fixed 8 ''mounted_on_fileid'')),
      (56, skipping (skip_fixed 12 ''dir_notif_delay'')),
      (57, skipping (skip_fixed 12 ''dirent_notif_delay'')),
      (58, skipping skip_acl41),
      (59, skipping skip_acl41),
      (60, skipping (skip_fixed 16 ''change_policy''))]"

fun run_blocks :: "u32 list \<Rightarrow> (nat \<times> attr_block) list \<Rightarrow> attr_block" where
  "run_blocks bitmap [] a = rreturn a"
| "run_blocks bitmap ((n, block) # rest) a =
     (if bitmap_has bitmap n then rbind (block a) (run_blocks bitmap rest)
      else run_blocks bitmap rest a)"

definition decode_fattr4_to_attr :: "u32 list \<Rightarrow> (attr, nfs_error) reader" where
  "decode_fattr4_to_attr bitmap = run_blocks bitmap (attr_blocks_word0 @ attr_blocks_word1) attr_default"

definition decode_getattr_response :: "(attr, nfs_error) reader" where
  "decode_getattr_response =
     rbind decode_getattr_envelope (\<lambda>(bitmap, vals). lift (run (decode_fattr4_to_attr bitmap) vals))"

subsection \<open>SETATTR\<close>

text \<open>The mask words and values of \<open>encode_setattr\<close>, extended one optional attribute at a time as
  the source does.\<close>

type_synonym setattr_acc = "u32 \<times> u32 \<times> bytes"

definition add_size :: "u64 option \<Rightarrow> setattr_acc \<Rightarrow> setattr_acc" where
  "add_size v = (\<lambda>(word0, word1, values). case v of None \<Rightarrow> (word0, word1, values)
     | Some x \<Rightarrow> (word0 OR push_bit 4 1, word1, values @ u64_to_be x))"

definition add_mode :: "u32 option \<Rightarrow> setattr_acc \<Rightarrow> setattr_acc" where
  "add_mode v = (\<lambda>(word0, word1, values). case v of None \<Rightarrow> (word0, word1, values)
     | Some x \<Rightarrow> (word0, word1 OR push_bit 1 1, values @ u32_to_be x))"

definition add_owner :: "u32 option \<times> nat \<Rightarrow> setattr_acc \<Rightarrow> setattr_acc" where
  "add_owner = (\<lambda>(v, b) (word0, word1, values). case v of None \<Rightarrow> (word0, word1, values)
     | Some x \<Rightarrow> (word0, word1 OR push_bit b 1,
         values @ u32_to_be (word_of_nat (length (show_u32 x))) @ show_u32 x
           @ replicate ((4 - length (show_u32 x) mod 4) mod 4) 0))"

definition add_time :: "nfs_time option \<times> nat \<Rightarrow> setattr_acc \<Rightarrow> setattr_acc" where
  "add_time = (\<lambda>(v, b) (word0, word1, values). case v of None \<Rightarrow> (word0, word1, values)
     | Some x \<Rightarrow> (word0, word1 OR push_bit b 1,
         values @ u32_to_be 1 @ u64_to_be (ucast (seconds x)) @ u32_to_be (nseconds x)))"

definition encode_setattr ::
  "u32 option \<Rightarrow> u32 option \<Rightarrow> u32 option \<Rightarrow> u64 option \<Rightarrow> nfs_time option \<Rightarrow> nfs_time option
    \<Rightarrow> u32 list \<times> bytes" where
  "encode_setattr mode uid gid sz atime mtime =
     (let (word0, word1, values) =
            fold add_time [(atime, 16), (mtime, 22)]
              (fold add_owner [(uid, 4), (gid, 5)] (add_mode mode (add_size sz (0, 0, []))))
      in (if word1 \<noteq> 0 then [word0, word1] else if word0 \<noteq> 0 then [word0] else [], values))"

subsection \<open>Panic freedom\<close>

lemma skip_fixed_safe [simp]: "safe_with n (skip_fixed k w)"
  by (auto simp: safe_with_def skip_fixed_def advance_def)

lemma skip_settime4_safe [simp]: "safe_with n (skip_settime4 w)"
  unfolding skip_settime4_def by (rule safe_any) (rule reader_safe | rule safe_rbind | simp)+

lemma decode_opaque_safe [simp]: "safe_with n (decode_opaque w)"
  by (auto simp: safe_with_def decode_opaque_def rbind_def need_def get_u32_def Let_def
      slice_advance_def dest: less_le_trans [OF _ pad_up_ge])

lemma skip_bitmap4_safe [simp]: "safe_with n (skip_bitmap4 w)"
  unfolding skip_bitmap4_def by (rule safe_any) (rule reader_safe | rule safe_rbind | simp)+

lemma skip_strings_safe [simp]: "safe_with n (skip_strings w)"
  unfolding skip_strings_def by (rule safe_any) (rule reader_safe | rule safe_rbind | simp)+

lemma skip_fs_locations_safe [simp]: "safe_with n skip_fs_locations"
  unfolding skip_fs_locations_def by (rule safe_any) (rule reader_safe | rule safe_rbind | simp)+

lemma decode_nfstime4_safe [simp]: "safe_with n decode_nfstime4"
  unfolding decode_nfstime4_def by (rule safe_any) (rule reader_safe | simp)+

lemma value_readers_safe [simp]:
  "safe_with n (u32_value w)" "safe_with n (u64_value w)" "safe_with n fsid_value"
  "safe_with n rawdev_value"
  unfolding u32_value_def u64_value_def fsid_value_def rawdev_value_def
  by (rule safe_any, (rule reader_safe | simp)+)+

lemma rdattr_error_value_safe [simp]: "safe_with n rdattr_error_value"
  unfolding rdattr_error_value_def by (rule safe_any) (rule safe_rbind reader_safe | simp)+

lemma field_safe: "safe_with 0 r \<Longrightarrow> safe_with n (field r upd a)"
  unfolding field_def by (rule safe_any) (rule safe_rbind reader_safe | assumption)+

lemma skipping_safe: "safe_with 0 r \<Longrightarrow> safe_with n (skipping r a)"
  unfolding skipping_def by (rule safe_any) (rule safe_rbind reader_safe | assumption)+

lemma run_blocks_safe:
  "(\<And>n block a. (n, block) \<in> set blocks \<Longrightarrow> safe_with 0 (block a)) \<Longrightarrow> safe_with 0 (run_blocks bitmap blocks a)"
  by (induction bitmap blocks a rule: run_blocks.induct) (auto intro!: safe_rbind reader_safe)

lemma attr_blocks_safe:
  "(n, block) \<in> set (attr_blocks_word0 @ attr_blocks_word1) \<Longrightarrow> safe_with 0 (block a)"
  unfolding attr_blocks_word0_def attr_blocks_word1_def
  by (auto simp: rreturn_def intro!: field_safe skipping_safe safe_rbind safe_rreturn)

lemma decode_fattr4_to_attr_safe [simp]: "safe_with n (decode_fattr4_to_attr bitmap)"
  unfolding decode_fattr4_to_attr_def
  by (rule safe_any, rule run_blocks_safe) (rule attr_blocks_safe)

lemma safe_read_n_get_u32 [reader_safe]:
  "m * 4 \<le> n \<Longrightarrow> (\<And>x. safe_with 0 (f x)) \<Longrightarrow> safe_with n (rbind (read_n m get_u32) f)"
proof (rule safe_rbind)
  assume "m * 4 \<le> n"
  moreover have "safe_with (m * 4) (read_n m get_u32)"
  proof (induction m)
    case (Suc m)
    then show ?case by (simp, intro safe_get_u32 safe_rbind safe_rreturn) simp_all
  qed (simp add: safe_rreturn)
  ultimately show "safe_with n (read_n m get_u32)" by (rule safe_with_mono [rotated])
qed

lemma decode_fattr4_envelope_safe [simp]: "safe_with n (decode_fattr4_envelope label)"
  unfolding decode_fattr4_envelope_def
  by (rule safe_any) (rule safe_read_n_get_u32 | rule reader_safe | rule safe_rbind | simp)+

subsection \<open>Alignment\<close>

text \<open>The values a server may send, by the XDR type of the attribute: \<open>Fixed\<close> for the fixed-size
  types, a string, a file handle, the two kinds of ACL, a bitmap, a \<open>settime4\<close> and
  \<open>fs_locations4\<close>.\<close>

datatype attr_value =
    Fixed bytes | Text bytes | Handle bytes | AclValue acl | Acl41Value u32 acl
  | Bits "u32 list" | SetTime "bytes option" u32
  | Locations "bytes list" "(bytes list \<times> bytes list) list"

definition strings_enc :: "bytes list \<Rightarrow> bytes" where
  "strings_enc ss = u32_to_be (word_of_nat (length ss)) @ concat (map opaque_enc ss)"

fun value_enc :: "attr_value \<Rightarrow> bytes" where
  "value_enc (Fixed b) = b"
| "value_enc (Text s) = opaque_enc s"
| "value_enc (Handle h) = opaque_enc h"
| "value_enc (AclValue acl) = encode_acl acl"
| "value_enc (Acl41Value flags acl) = u32_to_be flags @ encode_acl acl"
| "value_enc (Bits ws) = u32_to_be (word_of_nat (length ws)) @ concat (map u32_to_be ws)"
| "value_enc (SetTime (Some t) how) = u32_to_be 1 @ t"
| "value_enc (SetTime None how) = u32_to_be how"
| "value_enc (Locations root locs) =
     strings_enc root @ u32_to_be (word_of_nat (length locs))
     @ concat (map (\<lambda>(servers, path). strings_enc servers @ strings_enc path) locs)"

definition fixed_sizes :: "(nat \<times> nat) list" where
  "fixed_sizes = [(1, 4), (2, 4), (3, 8), (4, 8), (5, 4), (6, 4), (7, 4), (8, 16), (9, 4), (10, 4),
     (11, 4), (13, 4), (14, 4), (15, 4), (16, 4), (17, 4), (18, 4), (20, 8), (21, 8), (22, 8),
     (23, 8), (25, 4), (26, 4), (27, 8), (28, 4), (29, 4), (30, 8), (31, 8), (33, 4), (34, 4),
     (35, 4), (38, 8), (39, 8), (40, 8), (41, 8), (42, 8), (43, 8), (44, 8), (45, 8), (46, 4),
     (47, 12), (49, 12), (50, 12), (51, 12), (52, 12), (53, 12), (55, 8), (56, 12), (57, 12),
     (60, 16)]"

definition valid_string :: "bytes \<Rightarrow> bool" where
  "valid_string s \<longleftrightarrow> length s < 2 ^ 32 \<and> utf8_valid s"

definition valid_strings :: "bytes list \<Rightarrow> bool" where
  "valid_strings ss \<longleftrightarrow> length ss < 2 ^ 32 \<and> list_all valid_string ss"

text \<open>\<open>value_ok n v\<close>: \<open>v\<close> is a value of the type of attribute \<open>n\<close>.  The error status that attribute 11
  can carry is not a value: it makes the decoder fail.\<close>

fun value_ok :: "nat \<Rightarrow> attr_value \<Rightarrow> bool" where
  "value_ok n (Fixed b) \<longleftrightarrow> map_of fixed_sizes n = Some (length b) \<and> (n = 11 \<longrightarrow> b = [0, 0, 0, 0])"
| "value_ok n (Text s) \<longleftrightarrow> n \<in> {32, 36, 37} \<and> valid_string s"
| "value_ok n (Handle h) \<longleftrightarrow> n = 19 \<and> length h < 2 ^ 32"
| "value_ok n (AclValue acl) \<longleftrightarrow> n = 12 \<and> valid_acl acl"
| "value_ok n (Acl41Value flags acl) \<longleftrightarrow> n \<in> {58, 59} \<and> valid_acl acl"
| "value_ok n (Bits ws) \<longleftrightarrow> n = 0 \<and> length ws < 2 ^ 32"
| "value_ok n (SetTime t how) \<longleftrightarrow>
     n \<in> {48, 54} \<and> (case t of Some b \<Rightarrow> length b = 12 | None \<Rightarrow> how \<noteq> 1)"
| "value_ok n (Locations root locs) \<longleftrightarrow>
     n = 24 \<and> valid_strings root \<and> length locs < 2 ^ 32
     \<and> list_all (\<lambda>(servers, path). valid_strings servers \<and> valid_strings path) locs"

text \<open>The seconds of a wire time, clamped to the range of the client's \<open>Time\<close>.\<close>

definition clamp_time :: "bytes \<Rightarrow> nfs_time" where
  "clamp_time b =
     \<lparr>seconds = word_of_int (max 0 (min 4294967295 (sint (u64_from_be (take 8 b))))),
      nseconds = u32_from_be (drop 8 b)\<rparr>"

text \<open>What a value contributes to the decoded attributes.\<close>

fun attr_effect :: "nat \<Rightarrow> attr_value \<Rightarrow> attr \<Rightarrow> attr" where
  "attr_effect n (Fixed b) a =
     (if n = 1 then a\<lparr>a_type := u32_from_be b\<rparr>
      else if n = 4 then a\<lparr>a_filesize := u64_from_be b\<rparr>
      else if n = 8 then a\<lparr>a_fsid := u64_from_be (take 8 b)\<rparr>
      else if n = 20 then a\<lparr>a_fileid := u64_from_be b\<rparr>
      else if n = 33 then a\<lparr>a_file_mode := u32_from_be b\<rparr>
      else if n = 35 then a\<lparr>a_nlink := u32_from_be b\<rparr>
      else if n = 41 then a\<lparr>a_spec_data := (u32_from_be (take 4 b), u32_from_be (drop 4 b))\<rparr>
      else if n = 45 then a\<lparr>a_used := u64_from_be b\<rparr>
      else if n = 47 then a\<lparr>a_atime := clamp_time b\<rparr>
      else if n = 52 then a\<lparr>a_ctime := clamp_time b\<rparr>
      else if n = 53 then a\<lparr>a_mtime := clamp_time b\<rparr>
      else a)"
| "attr_effect n (Text s) a =
     (if n = 36 then a\<lparr>a_uid := parse_numeric_owner s, a_owner := s\<rparr>
      else if n = 37 then a\<lparr>a_gid := parse_numeric_owner s, a_owner_group := s\<rparr>
      else a)"
| "attr_effect n (Handle h) a = a\<lparr>a_filehandle := h\<rparr>"
| "attr_effect n (AclValue acl) a = a\<lparr>a_acl := Some acl\<rparr>"
| "attr_effect n _ a = a"

lemma run_blocks_aligned:
  assumes "\<And>n block a d. (n, block) \<in> set blocks \<Longrightarrow> bitmap_has bitmap n
      \<Longrightarrow> block a (value_enc (vs n) @ d) = Ok (attr_effect n (vs n) a, d)"
  shows "run_blocks bitmap blocks a
           (concat (map (\<lambda>n. value_enc (vs n)) (filter (bitmap_has bitmap) (map fst blocks))) @ d)
         = Ok (fold (\<lambda>n. attr_effect n (vs n)) (filter (bitmap_has bitmap) (map fst blocks)) a, d)"
  using assms
proof (induction blocks arbitrary: a)
  case (Cons b blocks)
  obtain n block where b: "b = (n, block)" by force
  have "block a (value_enc (vs n) @ e) = Ok (attr_effect n (vs n) a, e)" if "bitmap_has bitmap n" for a e
    using Cons.prems that b by auto
  moreover have "run_blocks bitmap blocks a
      (concat (map (\<lambda>n. value_enc (vs n)) (filter (bitmap_has bitmap) (map fst blocks))) @ d)
    = Ok (fold (\<lambda>n. attr_effect n (vs n)) (filter (bitmap_has bitmap) (map fst blocks)) a, d)" for a
    by (rule Cons.IH) (use Cons.prems in auto)
  ultimately show ?case by (auto simp: b rbind_def)
qed (simp add: rreturn_def)

text \<open>Each block reads exactly the encoding of a value of its attribute.\<close>

lemma skip_fixed_exact: "length b = k \<Longrightarrow> skip_fixed k w (b @ d) = Ok ((), d)"
  by (simp add: skip_fixed_def advance_def)

definition decoded_attrs :: "nat set" where
  "decoded_attrs = {0, 1, 4, 8, 11, 12, 19, 20, 24, 32, 33, 35, 36, 37, 41, 45, 47, 48, 52, 53, 54, 58, 59}"

lemma block_fixed:
  assumes "map_of fixed_sizes n = Some k" and "n \<notin> decoded_attrs" and "value_ok n v"
  shows "skipping (skip_fixed k w) a (value_enc v @ d) = Ok (attr_effect n v a, d)"
  using assms
  by (cases v) (auto simp: decoded_attrs_def skipping_def rbind_def skip_fixed_exact rreturn_def)

lemma block_u32:
  assumes "map_of fixed_sizes n = Some 4" and "value_ok n (Fixed b)"
  shows "u32_value w (b @ d) = Ok (u32_from_be b, d)"
  using assms by (simp add: u32_value_def get_u32_def)

lemma block_u64:
  assumes "map_of fixed_sizes n = Some 8" and "value_ok n (Fixed b)"
  shows "u64_value w (b @ d) = Ok (u64_from_be b, d)"
  using assms by (simp add: u64_value_def get_u64_def)

lemma block_time: "length b = 12 \<Longrightarrow> decode_nfstime4 (b @ d) = Ok (clamp_time b, d)"
proof -
  assume b: "length b = 12"
  have max: "(- 1 :: u32) = word_of_int 4294967295"
    by (rule word_eq_unatI) (simp add: unat_max_word)
  show ?thesis using b
    by (simp add: decode_nfstime4_def rbind_def [of get_u64] rbind_def [of get_u32] get_u64_def
        get_u32_def clamp_time_def rreturn_def max min_def max_def)
qed

lemma value_ok_kinds:
  "value_ok 0 v \<longleftrightarrow> (\<exists>ws. v = Bits ws \<and> length ws < 2 ^ 32)"
  "value_ok 12 v \<longleftrightarrow> (\<exists>acl. v = AclValue acl \<and> valid_acl acl)"
  "value_ok 19 v \<longleftrightarrow> (\<exists>h. v = Handle h \<and> length h < 2 ^ 32)"
  "value_ok 24 v \<longleftrightarrow> (\<exists>root locs. v = Locations root locs \<and> valid_strings root \<and> length locs < 2 ^ 32
     \<and> list_all (\<lambda>(servers, path). valid_strings servers \<and> valid_strings path) locs)"
  "value_ok 32 v \<longleftrightarrow> (\<exists>s. v = Text s \<and> valid_string s)"
  "value_ok 36 v \<longleftrightarrow> (\<exists>s. v = Text s \<and> valid_string s)"
  "value_ok 37 v \<longleftrightarrow> (\<exists>s. v = Text s \<and> valid_string s)"
  "value_ok 48 v \<longleftrightarrow> (\<exists>t how. v = SetTime t how \<and> (case t of Some b \<Rightarrow> length b = 12 | None \<Rightarrow> how \<noteq> 1))"
  "value_ok 54 v \<longleftrightarrow> (\<exists>t how. v = SetTime t how \<and> (case t of Some b \<Rightarrow> length b = 12 | None \<Rightarrow> how \<noteq> 1))"
  "value_ok 58 v \<longleftrightarrow> (\<exists>f acl. v = Acl41Value f acl \<and> valid_acl acl)"
  "value_ok 59 v \<longleftrightarrow> (\<exists>f acl. v = Acl41Value f acl \<and> valid_acl acl)"
  by (cases v; auto simp: fixed_sizes_def)+

lemma value_ok_fixed:
  "n \<in> {1, 4, 8, 11, 20, 33, 35, 41, 45, 47, 52, 53} \<Longrightarrow> value_ok n v \<longleftrightarrow>
     (\<exists>b. v = Fixed b \<and> map_of fixed_sizes n = Some (length b) \<and> (n = 11 \<longrightarrow> b = [0, 0, 0, 0]))"
  by (cases v) auto

lemma fsid_exact: "length b = 16 \<Longrightarrow> fsid_value (b @ d) = Ok (u64_from_be (take 8 b), d)"
  by (simp add: fsid_value_def rbind_def [of get_u64] get_u64_def rreturn_def)

lemma rawdev_exact:
  "length b = 8 \<Longrightarrow> rawdev_value (b @ d) = Ok ((u32_from_be (take 4 b), u32_from_be (drop 4 b)), d)"
  by (simp add: rawdev_value_def rbind_def [of get_u32] get_u32_def rreturn_def)

lemma rdattr_error_exact: "rdattr_error_value (0 # 0 # 0 # 0 # d) = Ok ((), d)"
  by (simp add: rdattr_error_value_def u32_value_def rbind_def need_def get_u32_def rreturn_def
      u32_from_be_def be_val_def)

lemma length_concat_u32: "length (concat (map u32_to_be ws)) = 4 * length ws"
  by (induction ws) auto

lemma skip_bitmap4_exact:
  "length ws < 2 ^ 32 \<Longrightarrow>
     skip_bitmap4 w (u32_to_be (word_of_nat (length ws)) @ concat (map u32_to_be ws) @ d) = Ok ((), d)"
  by (simp add: skip_bitmap4_def unat_of_nat_small skip_fixed_def advance_def length_concat_u32)

lemma skip_settime4_exact:
  "(case t of Some b \<Rightarrow> length b = 12 | None \<Rightarrow> how \<noteq> 1) \<Longrightarrow>
     skip_settime4 w (value_enc (SetTime t how) @ d) = Ok ((), d)"
  by (cases t) (simp_all add: skip_settime4_def rreturn_def skip_fixed_exact)

lemma decode_opaque_exact: "length h < 2 ^ 32 \<Longrightarrow> decode_opaque w (opaque_enc h @ d) = Ok (h, d)"
  by (simp add: decode_opaque_def opaque_enc_def unat_of_nat_small Let_def pad_up_eq slice_advance_def)

lemma skip_strings_exact: "valid_strings ss \<Longrightarrow> skip_strings w (strings_enc ss @ d) = Ok ((), d)"
  using ustr.read_n_enc [of ss d]
  by (simp add: skip_strings_def strings_enc_def valid_strings_def valid_string_def unat_of_nat_small
      list_all_iff rbind_def [of "read_n _ _"] rreturn_def)

lemma skip_locations_exact:
  "list_all (\<lambda>(servers, path). valid_strings servers \<and> valid_strings path) locs \<Longrightarrow>
   read_n (length locs) (rbind (skip_strings v) (\<lambda>_. skip_strings w))
     (concat (map (\<lambda>(servers, path). strings_enc servers @ strings_enc path) locs) @ d)
   = Ok (replicate (length locs) (), d)"
  by (induction locs) (auto simp: rreturn_def rbind_def skip_strings_exact)

lemma skip_fs_locations_exact:
  "valid_strings root \<Longrightarrow> length locs < 4294967296
    \<Longrightarrow> list_all (\<lambda>(servers, path). valid_strings servers \<and> valid_strings path) locs
    \<Longrightarrow> skip_fs_locations (strings_enc root @ u32_to_be (word_of_nat (length locs))
          @ concat (map (\<lambda>(servers, path). strings_enc servers @ strings_enc path) locs) @ d) = Ok ((), d)"
  by (simp add: skip_fs_locations_def rbind_def [of "skip_strings _"] skip_strings_exact
      unat_of_nat_small rbind_def [of "read_n _ _"] skip_locations_exact rreturn_def)

lemma skip_acl41_exact:
  "valid_acl acl \<Longrightarrow> skip_acl41 (u32_to_be flags @ encode_acl acl @ d) = Ok ((), d)"
  using skip_acl_of_decode [OF decode_acl_enc, of acl d] by (simp add: skip_acl41_def)

lemmas reads_exact = skip_fixed_exact block_time fsid_exact rawdev_exact rdattr_error_exact
  skip_bitmap4_exact skip_settime4_exact decode_opaque_exact skip_fs_locations_exact
  skip_acl41_exact decode_acl_enc

lemma attr_blocks_numbers: "map fst (attr_blocks_word0 @ attr_blocks_word1) = [0..<61]"
  by (simp add: attr_blocks_word0_def attr_blocks_word1_def ACL_ATTR_def ACLSUPPORT_ATTR_def
      FILEHANDLE_ATTR_def FILEID_ATTR_def MODE_ATTR_def upt_rec)

definition block_exact :: "nat \<Rightarrow> attr_block \<Rightarrow> bool" where
  "block_exact n block \<longleftrightarrow>
     (\<forall>v a d. value_ok n v \<longrightarrow> block a (value_enc v @ d) = Ok (attr_effect n v a, d))"

lemma block_exact_fixed:
  "map_of fixed_sizes n = Some k \<Longrightarrow> n \<notin> decoded_attrs \<Longrightarrow> block_exact n (skipping (skip_fixed k w))"
  by (simp add: block_exact_def block_fixed)

lemma attr_blocks_word0_exact: "list_all (\<lambda>(n, block). block_exact n block) attr_blocks_word0"
  unfolding attr_blocks_word0_def ACL_ATTR_def ACLSUPPORT_ATTR_def FILEHANDLE_ATTR_def
      FILEID_ATTR_def list.pred_inject prod.case
  by (intro conjI TrueI;
      ((rule block_exact_fixed, simp add: fixed_sizes_def, simp add: decoded_attrs_def)
    | (auto simp: block_exact_def value_ok_kinds value_ok_fixed fixed_sizes_def field_def skipping_def
        rbind_def rreturn_def reads_exact u32_value_def u64_value_def need_def get_u32_def get_u64_def)))

lemma attr_blocks_word1_exact: "list_all (\<lambda>(n, block). block_exact n block) attr_blocks_word1"
  unfolding attr_blocks_word1_def MODE_ATTR_def list.pred_inject prod.case
  by (intro conjI TrueI;
      ((rule block_exact_fixed, simp add: fixed_sizes_def, simp add: decoded_attrs_def)
    | (auto simp: block_exact_def value_ok_kinds value_ok_fixed fixed_sizes_def field_def skipping_def
        rbind_def rreturn_def reads_exact u32_value_def u64_value_def need_def get_u32_def get_u64_def
        decode_utf8str_enc valid_string_def)))

lemma decode_aligned:
  assumes "\<And>n. n < 61 \<Longrightarrow> bitmap_has bitmap n \<Longrightarrow> value_ok n (vs n)"
  shows "decode_fattr4_to_attr bitmap
           (concat (map (\<lambda>n. value_enc (vs n)) (filter (bitmap_has bitmap) [0..<61])) @ rest)
         = Ok (fold (\<lambda>n. attr_effect n (vs n)) (filter (bitmap_has bitmap) [0..<61]) attr_default, rest)"
proof -
  let ?blocks = "attr_blocks_word0 @ attr_blocks_word1"
  have exact: "(n, block) \<in> set ?blocks \<Longrightarrow> block_exact n block" for n block
    using attr_blocks_word0_exact attr_blocks_word1_exact by (fastforce simp: list_all_iff)
  have "n < 61" if "(n, block) \<in> set ?blocks" for n block
  proof -
    have "n \<in> set (map fst ?blocks)" using that by force
    then show ?thesis unfolding attr_blocks_numbers by simp
  qed
  with exact assms have "block a (value_enc (vs n) @ d) = Ok (attr_effect n (vs n) a, d)"
    if "(n, block) \<in> set ?blocks" "bitmap_has bitmap n" for n block a d
    using that unfolding block_exact_def by blast
  then show ?thesis
    unfolding decode_fattr4_to_attr_def attr_blocks_numbers [symmetric]
    by (rule run_blocks_aligned)
qed

text \<open>C16. The attribute decoder stays aligned with whatever subset of attributes a server returns:
  given a bitmap and, for each attribute in it, a value of that attribute's type, the values
  laid out in bit order decode to the record in which every field comes from its own attribute,
  and the bytes that follow are left alone.\<close>

theorem decode_fattr4_aligned:
  assumes "\<And>n. n < 61 \<Longrightarrow> bitmap_has bitmap n \<Longrightarrow> value_ok n (vs n)"
  shows "decode_fattr4_to_attr bitmap
           (concat (map (\<lambda>n. value_enc (vs n)) (filter (bitmap_has bitmap) [0..<61])) @ rest)
         = Ok (fold (\<lambda>n. attr_effect n (vs n)) (filter (bitmap_has bitmap) [0..<61]) attr_default, rest)"
  by (rule decode_aligned [OF assms])

theorem decode_fattr4_aligned_witness:
  "let vs = (\<lambda>n :: nat. if n = 4 then Fixed [0, 0, 0, 0, 0, 0, 1, 2] else Text (str_bytes ''root@lab''))
   in value_ok 4 (vs 4) \<and> value_ok 36 (vs 36)
    \<and> (\<exists>a. decode_fattr4_to_attr [16, 16] (value_enc (vs 4) @ value_enc (vs 36) @ [9]) = Ok (a, [9])
         \<and> a_filesize a = 258 \<and> a_uid a = 0)"
proof -
  let ?vs = "\<lambda>n :: nat. if n = 4 then Fixed [0, 0, 0, 0, 0, 0, 1, 2] else Text (str_bytes ''root@lab'')"
  have bits: "filter (bitmap_has [16, 16]) [0..<61] = [4, 36]" by code_simp
  have str: "valid_string (str_bytes ''root@lab'')"
  proof -
    have "utf8_valid (str_bytes ''root@lab'')" by code_simp
    then show ?thesis by (simp add: valid_string_def str_bytes_def)
  qed
  then have ok: "value_ok n (?vs n)" if "n < 61" "bitmap_has [16, 16] n" for n
  proof -
    have "n \<in> set (filter (bitmap_has [16, 16]) [0..<61])" using that by simp
    then have "n = 4 \<or> n = 36" unfolding bits by simp
    then show ?thesis using str by (auto simp: fixed_sizes_def)
  qed
  have owner: "parse_numeric_owner (str_bytes ''root@lab'') = 0"
    by (simp add: parse_numeric_owner_def parse_uint_def str_bytes_def)
  have sz: "u64_from_be [0, 0, 0, 0, 0, 0, 1, 2] = 258" by code_simp
  show ?thesis
    using decode_fattr4_aligned [of "[16, 16]" ?vs "[9]", OF ok] str
    unfolding bits by (simp add: owner sz fixed_sizes_def)
qed

subsection \<open>Owners and SETATTR\<close>

text \<open>An owner written by the client as a decimal number reads back as that number.\<close>

lemma parse_numeric_owner_show: "parse_numeric_owner (show_u32 w) = w"
  by (simp add: parse_numeric_owner_def show_u32_def parse_uint_show)

lemma show_u32_ascii: "list_all (\<lambda>b. b < 0x80) (show_u32 w)"
proof -
  have "word_of_nat (of_char c) < (0x80 :: u8)" if "c \<in> set (show_nat (unat w))" for c
  proof -
    obtain d :: nat where "d < 10" "c = char_of (48 + d)" using show_nat_digits [OF \<open>c \<in> _\<close>] by auto
    then show ?thesis using digit_byte [of d] by (simp add: word_less_nat_alt)
  qed
  then show ?thesis by (auto simp: show_u32_def str_bytes_def list_all_iff)
qed

lemma length_show_nat: "length (show_nat n) \<le> max 1 n"
proof (induction n rule: show_nat.induct)
  case (1 n)
  then show ?case by (subst show_nat.simps) auto
qed

lemma show_u32_valid [simp]: "valid_string (show_u32 w)"
  using show_u32_ascii [of w] length_show_nat [of "unat w"] unat_u32_le [of w]
  by (auto simp: valid_string_def utf8_valid_def utf8_ascii show_u32_def str_bytes_def)

lemma and_push_bit_iff: "i < 32 \<Longrightarrow> w AND push_bit i 1 \<noteq> 0 \<longleftrightarrow> bit w i" for w :: u32
  by (auto simp: and_exp_eq_0_iff_not_bit push_bit_eq_mult)

lemma bitmap_has_words:
  "bitmap_has [w0, w1] n \<longleftrightarrow> (if n < 32 then bit w0 n else n < 64 \<and> bit w1 (n - 32))"
proof -
  consider "n < 32" | "32 \<le> n" "n < 64" | "64 \<le> n" by linarith
  then show ?thesis
  proof cases
    case 2
    then have "n div 32 = 1" "n mod 32 = n - 32" by (auto simp: div_nat_eqI mod_if)
    with 2 show ?thesis using and_push_bit_iff [of "n - 32" w1] by (simp add: bitmap_has_def Let_def)
  next
    case 3
    then have "2 \<le> n div 32" by simp
    with 3 show ?thesis by (simp add: bitmap_has_def Let_def)
  qed (use and_push_bit_iff [of n w0] in \<open>simp add: bitmap_has_def Let_def\<close>)
qed

lemma bitmap_has_trim:
  "bitmap_has (if w1 \<noteq> 0 then [w0, w1] else if w0 \<noteq> 0 then [w0] else []) n = bitmap_has [w0, w1] n"
  by (auto simp: bitmap_has_def Let_def nth_Cons' not_le)

lemma filter_upt_subset:
  assumes "\<And>n. n < m \<Longrightarrow> P n \<Longrightarrow> n \<in> set xs" and "filter (\<lambda>n. n \<in> set xs) [0..<m] = xs"
  shows "filter P [0..<m] = filter P xs"
proof -
  have "filter P [0..<m] = filter P (filter (\<lambda>n. n \<in> set xs) [0..<m])"
    using assms(1) by (simp only: filter_filter) (rule filter_cong, auto)
  then show ?thesis by (simp only: assms(2))
qed

text \<open>The values \<open>encode_setattr\<close> sends, by attribute number.\<close>

definition setattr_values ::
  "u32 option \<Rightarrow> u32 option \<Rightarrow> u32 option \<Rightarrow> u64 option \<Rightarrow> nfs_time option \<Rightarrow> nfs_time option
    \<Rightarrow> nat \<Rightarrow> attr_value" where
  "setattr_values mode uid gid sz atime mtime n =
     (let time = (\<lambda>t. SetTime (Some (u64_to_be (ucast (seconds t)) @ u32_to_be (nseconds t))) 1) in
      if n = 4 then Fixed (u64_to_be (the sz))
      else if n = 33 then Fixed (u32_to_be (the mode))
      else if n = 36 then Text (show_u32 (the uid))
      else if n = 37 then Text (show_u32 (the gid))
      else if n = 48 then time (the atime)
      else time (the mtime))"

definition opt_bit :: "'a option \<Rightarrow> nat \<Rightarrow> u32" where
  "opt_bit x i = (if x = None then 0 else push_bit i 1)"

lemma bit_opt_bit: "bit (opt_bit x i) j \<longleftrightarrow> x \<noteq> None \<and> i = j \<and> j < 32"
  by (auto simp: opt_bit_def bit_simps)

lemma setattr_has:
  fixes sz mode uid gid atime mtime
  defines "w0 \<equiv> opt_bit sz 4"
    and "w1 \<equiv> opt_bit mode 1 OR opt_bit uid 4 OR opt_bit gid 5 OR opt_bit atime 16 OR opt_bit mtime 22"
  shows "bitmap_has [w0, w1] 4 = (sz \<noteq> None)" "bitmap_has [w0, w1] 33 = (mode \<noteq> None)"
    "bitmap_has [w0, w1] 36 = (uid \<noteq> None)" "bitmap_has [w0, w1] 37 = (gid \<noteq> None)"
    "bitmap_has [w0, w1] 48 = (atime \<noteq> None)" "bitmap_has [w0, w1] 54 = (mtime \<noteq> None)"
    "bitmap_has [w0, w1] n \<Longrightarrow> n \<in> set [4, 33, 36, 37, 48, 54]"
  by (auto simp: w0_def w1_def bitmap_has_words bit_or_iff bit_opt_bit split: if_splits)

lemma encode_setattr_eq:
  "encode_setattr mode uid gid sz atime mtime =
     (let w0 = opt_bit sz 4;
          w1 = opt_bit mode 1 OR opt_bit uid 4 OR opt_bit gid 5 OR opt_bit atime 16 OR opt_bit mtime 22
      in (if w1 \<noteq> 0 then [w0, w1] else if w0 \<noteq> 0 then [w0] else [],
          concat (map (\<lambda>n. value_enc (setattr_values mode uid gid sz atime mtime n))
            (filter (bitmap_has [w0, w1]) [4, 33, 36, 37, 48, 54]))))"
proof -
  let ?w0 = "opt_bit sz 4"
  let ?w1 = "opt_bit mode 1 OR opt_bit uid 4 OR opt_bit gid 5 OR opt_bit atime 16 OR opt_bit mtime 22"
  have "fold add_time [(atime, 16), (mtime, 22)]
      (fold add_owner [(uid, 4), (gid, 5)] (add_mode mode (add_size sz (0, 0, []))))
    = (?w0, ?w1, concat (map (\<lambda>n. value_enc (setattr_values mode uid gid sz atime mtime n))
         (filter (bitmap_has [?w0, ?w1]) [4, 33, 36, 37, 48, 54])))"
    unfolding filter.simps setattr_has
    by (simp add: setattr_values_def add_size_def add_mode_def add_owner_def add_time_def opt_bit_def
        opaque_enc_def pad_len_def or.assoc split: option.split)
  then show ?thesis by (simp add: encode_setattr_def Let_def)
qed

text \<open>The attributes a SETATTR asks for, as the client would see them come back.\<close>

definition setattr_result ::
  "u32 option \<Rightarrow> u32 option \<Rightarrow> u32 option \<Rightarrow> u64 option \<Rightarrow> attr" where
  "setattr_result mode uid gid sz =
     attr_default\<lparr>a_filesize := (case sz of Some x \<Rightarrow> x | None \<Rightarrow> 0),
       a_file_mode := (case mode of Some x \<Rightarrow> x | None \<Rightarrow> 0),
       a_uid := (case uid of Some x \<Rightarrow> x | None \<Rightarrow> 0),
       a_owner := (case uid of Some x \<Rightarrow> show_u32 x | None \<Rightarrow> []),
       a_gid := (case gid of Some x \<Rightarrow> x | None \<Rightarrow> 0),
       a_owner_group := (case gid of Some x \<Rightarrow> show_u32 x | None \<Rightarrow> [])\<rparr>"

text \<open>What SETATTR encodes, the attribute decoder understands: for every choice of mode, owner,
  group, size and times, the mask and the values \<open>encode_setattr\<close> produces decode, with nothing
  left over, to exactly the attributes that were asked for.\<close>

theorem encode_setattr_roundtrip:
  "(let (mask, values) = encode_setattr mode uid gid sz atime mtime
    in decode_fattr4_to_attr mask (values @ rest)) = Ok (setattr_result mode uid gid sz, rest)"
proof -
  let ?w0 = "opt_bit sz 4"
  let ?w1 = "opt_bit mode 1 OR opt_bit uid 4 OR opt_bit gid 5 OR opt_bit atime 16 OR opt_bit mtime 22"
  let ?mask = "if ?w1 \<noteq> 0 then [?w0, ?w1] else if ?w0 \<noteq> 0 then [?w0] else []"
  let ?vs = "setattr_values mode uid gid sz atime mtime"
  have has: "bitmap_has ?mask = bitmap_has [?w0, ?w1]" by (rule ext) (rule bitmap_has_trim)
  have sel: "filter (bitmap_has [?w0, ?w1]) [0..<61] = filter (bitmap_has [?w0, ?w1]) [4, 33, 36, 37, 48, 54]"
    by (rule filter_upt_subset) (erule setattr_has(7), code_simp)
  have ok: "value_ok n (?vs n)" if "n < 61" "bitmap_has ?mask n" for n
  proof -
    have "n \<in> set [4, 33, 36, 37, 48, 54]" using that(2) unfolding has by (rule setattr_has(7))
    then show ?thesis by (auto simp: setattr_values_def Let_def fixed_sizes_def)
  qed
  have res: "fold (\<lambda>n. attr_effect n (?vs n)) (filter (bitmap_has [?w0, ?w1]) [4, 33, 36, 37, 48, 54])
      attr_default = setattr_result mode uid gid sz"
    unfolding filter.simps setattr_has
    by (simp add: setattr_values_def setattr_result_def Let_def parse_numeric_owner_show
        attr_default_def split: option.split)
  from decode_aligned [of ?mask ?vs rest, OF ok] show ?thesis
    unfolding has sel res encode_setattr_eq Let_def prod.case .
qed

end
