(* ===== verification/Rpc_Wire.thy ===== *)
theory Rpc_Wire
  imports Xdr
begin

text \<open>
  ONC RPC on the wire (\<open>src/src/rpc/auth.rs\<close>, \<open>src/src/rpc/header.rs\<close> and the pure parts of
  \<open>src/src/rpc/mod.rs\<close>): credentials, call headers, record marking, reassembly of fragmented
  records, and the reply envelope.

  The receiving side of a connection is the list of bytes that still arrive on it; reading past
  them gives the error with which the connection ends, the parameter \<open>eof\<close>.
\<close>

subsection \<open>Credentials and headers\<close>

datatype auth_flavor = Flavor_Null | Flavor_Unix

primrec flavor_code :: "auth_flavor \<Rightarrow> u32" where
  "flavor_code Flavor_Null = 0"
| "flavor_code Flavor_Unix = 1"

record auth =
  au_flavor :: auth_flavor
  au_uid :: u32
  au_gid :: u32
  au_body :: bytes

record auth_unix =
  ax_stamp :: u32
  ax_machinename :: bytes
  ax_uid :: u32
  ax_gid :: u32
  ax_gids :: "u32 list"

definition auth_new_null :: auth where
  "auth_new_null = \<lparr>au_flavor = Flavor_Null, au_uid = 0, au_gid = 0, au_body = []\<rparr>"

definition auth_unix_encode :: "auth_unix \<Rightarrow> bytes" where
  "auth_unix_encode a =
     u32_to_be (ax_stamp a) @ u32_to_be (word_of_nat (length (ax_machinename a))) @ ax_machinename a
     @ replicate ((4 - length (ax_machinename a) mod 4) mod 4) 0
     @ u32_to_be (ax_uid a) @ u32_to_be (ax_gid a) @ u32_to_be (word_of_nat (length (ax_gids a)))
     @ concat (map u32_to_be (ax_gids a))"

definition auth_new_unix :: "u32 \<Rightarrow> bytes \<Rightarrow> u32 \<Rightarrow> u32 \<Rightarrow> auth" where
  "auth_new_unix stamp machinename uid gid =
     \<lparr>au_flavor = Flavor_Unix, au_uid = uid, au_gid = gid,
      au_body = auth_unix_encode \<lparr>ax_stamp = stamp, ax_machinename = machinename, ax_uid = uid,
                                  ax_gid = gid, ax_gids = []\<rparr>\<rparr>"

definition auth_encode :: "auth \<Rightarrow> bytes" where
  "auth_encode a =
     u32_to_be (flavor_code (au_flavor a)) @ u32_to_be (word_of_nat (length (au_body a))) @ au_body a
     @ replicate ((4 - length (au_body a) mod 4) mod 4) 0"

record rpc_head =
  rh_rpcvers :: u32
  rh_prog :: u32
  rh_vers :: u32
  rh_proc :: u32
  rh_cred :: auth
  rh_verf :: auth

definition header_encode :: "rpc_head \<Rightarrow> bytes" where
  "header_encode h =
     u32_to_be (rh_rpcvers h) @ u32_to_be (rh_prog h) @ u32_to_be (rh_vers h) @ u32_to_be (rh_proc h)
     @ auth_encode (rh_cred h) @ auth_encode (rh_verf h)"

definition RPC_VERSION :: u32 where "RPC_VERSION = 2"
definition PORTMAP_PROG :: u32 where "PORTMAP_PROG = 100000"
definition PORTMAP_VERSION :: u32 where "PORTMAP_VERSION = 2"
definition MOUNT_PROG :: u32 where "MOUNT_PROG = 100005"
definition NFS_PROG :: u32 where "NFS_PROG = 100003"
definition NFSACL_PROG :: u32 where "NFSACL_PROG = 100227"
definition IPPROTO_TCP :: u32 where "IPPROTO_TCP = 6"

definition rpc_header :: "u32 \<Rightarrow> u32 \<Rightarrow> u32 \<Rightarrow> auth \<Rightarrow> rpc_head" where
  "rpc_header prog vers proc_num cred =
     \<lparr>rh_rpcvers = RPC_VERSION, rh_prog = prog, rh_vers = vers, rh_proc = proc_num, rh_cred = cred,
      rh_verf = auth_new_null\<rparr>"

definition getport_request :: "u32 \<Rightarrow> u32 \<Rightarrow> auth \<Rightarrow> bytes" where
  "getport_request prog vers cred =
     header_encode (rpc_header PORTMAP_PROG PORTMAP_VERSION 3 cred)
     @ u32_to_be prog @ u32_to_be vers @ u32_to_be IPPROTO_TCP @ u32_to_be 0"

definition getport_result :: "bytes \<Rightarrow> u16 result" where
  "getport_result res =
     (if length res \<noteq> 4 then Err (Xdr ''GETPORT result must contain exactly 4 bytes'')
      else let port = u32_from_be res in
           if port > 0xFFFF then Err (Xdr ''GETPORT port exceeds 65535'')
           else if port = 0 then Err (Rpc ''GETPORT service is not registered'')
           else Ok (ucast port))"

subsection \<open>Transaction ids\<close>

text \<open>\<open>wrapping_mul(1000) + subsec_millis\<close>: the sum is checked in a build with overflow checks.\<close>

definition get_current_time :: "u64 \<Rightarrow> u32 \<Rightarrow> (u32, nfs_error) outcome" where
  "get_current_time secs subsec_millis =
     (case checked_add (ucast secs * 1000) subsec_millis of Some t \<Rightarrow> Ok t | None \<Rightarrow> Panic)"

text \<open>The static counter before and after the call, and the id returned; \<open>clock\<close> is
  \<open>get_current_time()\<close>.\<close>

definition get_xid :: "u32 \<Rightarrow> u32 \<Rightarrow> u32 \<times> u32" where
  "get_xid clock counter =
     (let counter = (if counter = 0 then clock else counter) in (counter + 1, counter + 1))"

subsection \<open>Record marking\<close>

definition SIZE_HDR_BIT :: u32 where "SIZE_HDR_BIT = 0x80000000"
definition MAX_RPC_RESPONSE :: nat where "MAX_RPC_RESPONSE = 4 * 1024 * 1024 + 4096"

text \<open>What one attempt writes to the stream: the record mark, the transaction id, the message type
  and the call, then the payload and its padding.\<close>

definition request_frame :: "u32 \<Rightarrow> bytes \<Rightarrow> bytes \<Rightarrow> bytes" where
  "request_frame xid msg_body data =
     (let data_pad = (4 - length data mod 4) mod 4;
          payload_len = word_of_nat (8 + length msg_body + length data + data_pad) :: u32
      in u32_to_be (payload_len OR SIZE_HDR_BIT) @ u32_to_be xid @ u32_to_be 0 @ msg_body @ data
         @ (if data = [] then [] else replicate data_pad 0))"

definition backchannel_frame :: "bytes \<Rightarrow> bytes" where
  "backchannel_frame reply = u32_to_be (word_of_nat (length reply) OR SIZE_HDR_BIT) @ reply"

definition read_exact :: "io_error \<Rightarrow> nat \<Rightarrow> (bytes, nfs_error) reader" where
  "read_exact eof n d = (if length d < n then Err (Io eof) else Ok (take n d, drop n d))"

definition mark_last :: "u32 \<Rightarrow> bool" where
  "mark_last raw \<longleftrightarrow> raw AND 0x80000000 \<noteq> 0"

definition mark_size :: "u32 \<Rightarrow> nat" where
  "mark_size raw = unat (raw AND 0x7FFFFFFF)"

text \<open>The loop over the fragments after the first.  Each round takes at least the four bytes of a
  record mark from the stream.\<close>

function more_fragments :: "io_error \<Rightarrow> bytes \<Rightarrow> bytes \<Rightarrow> (bytes \<times> bytes, nfs_error) outcome" where
  "more_fragments eof buf d =
     (if length d < 4 then Err (Io eof)
      else let raw = u32_from_be (take 4 d); total = length buf + mark_size raw; d' = drop 4 d in
           if total > MAX_RPC_RESPONSE
           then Err (Rpc (''RPC accumulated response size '' @ show_nat total @ '' exceeds maximum ''
                  @ show_nat MAX_RPC_RESPONSE))
           else if length d' < mark_size raw then Err (Io eof)
           else if mark_last raw then Ok (buf @ take (mark_size raw) d', drop (mark_size raw) d')
           else more_fragments eof (buf @ take (mark_size raw) d') (drop (mark_size raw) d'))"
  by pat_completeness auto
termination by (relation "measure (\<lambda>(_, _, d). length d)") auto

declare more_fragments.simps [simp del]

definition read_one_response :: "io_error \<Rightarrow> (u32 \<times> bytes, nfs_error) reader" where
  "read_one_response eof =
     rbind (read_exact eof 4) (\<lambda>hdr.
       let raw = u32_from_be hdr; sz = mark_size raw in
       if sz > MAX_RPC_RESPONSE
       then rfail (Rpc (''RPC fragment size '' @ show_nat sz @ '' exceeds maximum '' @ show_nat MAX_RPC_RESPONSE))
       else rbind (read_exact eof sz) (\<lambda>first.
            rbind (if mark_last raw then rreturn first else more_fragments eof first) (\<lambda>buf.
            if length buf < 4
            then rfail (Rpc (''RPC record size '' @ show_nat (length buf) @ '' is shorter than XID''))
            else rreturn (u32_from_be (take 4 buf), buf))))"

subsection \<open>Reply envelope\<close>

definition read_u32_at :: "bytes \<Rightarrow> nat \<Rightarrow> u32 result" where
  "read_u32_at data p =
     (if p + 4 > length data then Err (Rpc ''response truncated'') else Ok (u32_from_be (take 4 (drop p data))))"

definition slice_from :: "bytes \<Rightarrow> nat \<Rightarrow> bytes result" where
  "slice_from data p = (if p \<le> length data then Ok (drop p data) else Panic)"

definition parse_rpc_response :: "bytes \<Rightarrow> u32 \<Rightarrow> bytes result" where
  "parse_rpc_response res xid =
     (if length res < 8 then Err (Rpc ''response too short'')
      else if u32_from_be (take 4 res) \<noteq> xid then Err (Rpc ''response id does not match expected one'')
      else if u32_from_be (take 4 (drop 4 res)) \<noteq> 1
      then Err (Rpc ''response type does not match expected one'')
      else and_then (read_u32_at res 8) (\<lambda>msg_status.
        if msg_status \<noteq> 0 then Err (Rpc ''could not parse response due to bad status'')
        else and_then (read_u32_at res 16) (\<lambda>verf_len.
          let verf_padded = unat verf_len + (4 - unat verf_len mod 4) mod 4 in
          if 20 + verf_padded > length res then Err (Rpc ''response truncated (verifier)'')
          else and_then (read_u32_at res (20 + verf_padded)) (\<lambda>accept_status.
            if accept_status \<noteq> 0 then
              if accept_status \<in> {1, 2, 3}
              then Err (Unsupported (''RPC service unavailable (accept status ''
                     @ show_nat (unat accept_status) @ '')''))
              else Err (Rpc ''request rejected'')
            else slice_from res (20 + verf_padded + 4)))))"

subsection \<open>Record marks\<close>

lemma mark_bits:
  assumes "n < 2 ^ 31"
  shows "mark_size (word_of_nat n OR SIZE_HDR_BIT) = n" "mark_last (word_of_nat n OR SIZE_HDR_BIT)"
    "mark_size (word_of_nat n) = n" "\<not> mark_last (word_of_nat n)"
proof -
  let ?w = "word_of_nat n :: u32"
  have u: "unat ?w = n" using assms by (intro unat_of_nat_small) simp
  have low: "take_bit 31 ?w = ?w" using assms by (simp add: take_bit_of_nat take_bit_nat_eq_self)
  have m: "x AND 0x7FFFFFFF = take_bit 31 x" for x :: u32
    by (simp add: take_bit_eq_mask mask_eq_exp_minus_1)
  have high: "take_bit 31 (0x80000000 :: u32) = 0" by (simp add: take_bit_eq_mod)
  show "mark_size (?w OR SIZE_HDR_BIT) = n"
    by (simp only: mark_size_def SIZE_HDR_BIT_def m take_bit_or high low or.right_neutral u)
  show "mark_size ?w = n" by (simp only: mark_size_def m low u)
  have "?w AND 0x80000000 = (?w AND 0x7FFFFFFF) AND 0x80000000" by (simp only: m low)
  also have "\<dots> = ?w AND (0x7FFFFFFF AND 0x80000000)" by (rule and.assoc)
  also have "\<dots> = 0" by simp
  finally have clear: "?w AND 0x80000000 = 0" .
  then show "\<not> mark_last ?w" by (simp add: mark_last_def)
  have "(?w OR 0x80000000) AND 0x80000000 = (0x80000000 :: u32)"
    by (simp add: bit.conj_disj_distrib2 clear)
  then show "mark_last (?w OR SIZE_HDR_BIT)" by (simp add: mark_last_def SIZE_HDR_BIT_def)
qed

subsection \<open>Reassembly\<close>

text \<open>A record in fragments, as a server sends it: every fragment but the last has the top bit of its
  mark clear.\<close>

fun fragmented :: "bytes list \<Rightarrow> bytes" where
  "fragmented [] = []"
| "fragmented [b] = u32_to_be (word_of_nat (length b) OR SIZE_HDR_BIT) @ b"
| "fragmented (b # bs) = u32_to_be (word_of_nat (length b)) @ b @ fragmented bs"

lemma more_fragments_fragmented:
  assumes "bs \<noteq> []" and "length buf + length (concat bs) \<le> MAX_RPC_RESPONSE"
  shows "more_fragments eof buf (fragmented bs @ rest) = Ok (buf @ concat bs, rest)"
  using assms
proof (induction bs arbitrary: buf rule: fragmented.induct)
  case (2 b)
  then have "length b < 2 ^ 31" by (simp add: MAX_RPC_RESPONSE_def)
  with 2 show ?case by (subst more_fragments.simps) (simp add: mark_bits)
next
  case (3 b c bs)
  then have "length b < 2 ^ 31" by (simp add: MAX_RPC_RESPONSE_def)
  moreover have "more_fragments eof (buf @ b) (fragmented (c # bs) @ rest) = Ok ((buf @ b) @ concat (c # bs), rest)"
    using 3 by (intro "3.IH") simp_all
  ultimately show ?case using 3 by (subst more_fragments.simps) (simp add: mark_bits)
qed simp

lemma read_one_step:
  "mark_size raw = length b \<Longrightarrow> length b \<le> MAX_RPC_RESPONSE \<Longrightarrow>
   read_one_response eof (u32_to_be raw @ b @ d) =
     rbind (if mark_last raw then rreturn b else more_fragments eof b) (\<lambda>buf.
       if length buf < 4
       then rfail (Rpc (''RPC record size '' @ show_nat (length buf) @ '' is shorter than XID''))
       else rreturn (u32_from_be (take 4 buf), buf)) d"
  by (simp add: read_one_response_def rbind_def [of "read_exact _ _"] read_exact_def Let_def)

text \<open>C13. Reassembly: however the server splits a record of at most \<open>MAX_RPC_RESPONSE\<close> bytes into
  fragments, empty ones included, \<open>read_one_response\<close> returns exactly the record with the
  transaction id in front, and leaves the stream at the first byte after it.\<close>

theorem read_one_response_reassembles:
  assumes "concat frags = u32_to_be xid @ body" and "length (concat frags) \<le> MAX_RPC_RESPONSE"
  shows "read_one_response eof (fragmented frags @ rest) = Ok ((xid, concat frags), rest)"
proof -
  let ?rec = "concat frags"
  have rec: "4 \<le> length ?rec" "u32_from_be (take 4 ?rec) = xid" by (simp_all add: assms(1))
  have "u32_to_be xid \<noteq> []" using length_u32_to_be [of xid] by (metis list.size(3) zero_neq_numeral)
  then consider b where "frags = [b]" | b c bs where "frags = b # c # bs"
    using assms(1) by (cases frags rule: fragmented.cases) auto
  then show ?thesis
  proof cases
    case 1
    with assms(2) have "length b < 2 ^ 31" by (simp add: MAX_RPC_RESPONSE_def)
    with 1 assms(2) rec show ?thesis
      by (simp add: read_one_step [OF mark_bits(1)] mark_bits rreturn_def del: of_nat_add)
  next
    case 2
    then have "length b < 2 ^ 31" "length b \<le> MAX_RPC_RESPONSE"
      using assms(2) by (simp_all add: MAX_RPC_RESPONSE_def)
    moreover have "more_fragments eof b (fragmented (c # bs) @ rest) = Ok (?rec, rest)"
      using 2 assms(2) more_fragments_fragmented [of "c # bs" b eof rest] by simp
    ultimately show ?thesis using rec
      by (simp add: 2 read_one_step [OF mark_bits(3)] mark_bits rreturn_def rbind_def [of "more_fragments _ _"]
          del: concat.simps)
  qed
qed

theorem read_one_response_reassembles_witness:
  "read_one_response (SimpleIo Kind_UnexpectedEof) (fragmented [[], u32_to_be 7, [], [1, 2]] @ [9])
   = Ok ((7, concat [[], u32_to_be 7, [], [1, 2]]), [9])"
  by (rule read_one_response_reassembles [where body = "[1, 2]"]) (simp_all add: MAX_RPC_RESPONSE_def)

lemma more_fragments_bound: "more_fragments eof buf d = Ok (r, d') \<Longrightarrow> length r \<le> MAX_RPC_RESPONSE"
proof (induction eof buf d rule: more_fragments.induct)
  case (1 eof buf d)
  let ?raw = "u32_from_be (take 4 d)"
  show ?case
  proof (cases "mark_last ?raw")
    case True
    with "1.prems" show ?thesis by (subst (asm) more_fragments.simps) (auto simp: Let_def split: if_splits)
  next
    case False
    with "1.prems" have "\<not> length d < 4" "\<not> length buf + mark_size ?raw > MAX_RPC_RESPONSE"
      "\<not> length (drop 4 d) < mark_size ?raw"
      "more_fragments eof (buf @ take (mark_size ?raw) (drop 4 d)) (drop (mark_size ?raw) (drop 4 d)) = Ok (r, d')"
      by (subst (asm) more_fragments.simps, simp add: Let_def split: if_splits)+
    from "1.IH" [OF this(1) refl refl refl this(2,3) False this(4)] show ?thesis .
  qed
qed

text \<open>The size limit: whatever arrives, a record that is returned has at most
  \<open>MAX_RPC_RESPONSE\<close> bytes, and at least the four of its transaction id.\<close>

theorem read_one_response_bounded:
  assumes "read_one_response eof d = Ok ((xid, buf), d')"
  shows "4 \<le> length buf \<and> length buf \<le> MAX_RPC_RESPONSE \<and> xid = u32_from_be (take 4 buf)"
  using assms
  by (auto simp: read_one_response_def rbind_eq_Ok read_exact_def rreturn_def rfail_def Let_def
      dest: more_fragments_bound split: if_splits)

theorem read_one_response_bounded_witness:
  "read_one_response (SimpleIo Kind_UnexpectedEof) (fragmented [u32_to_be 7]) = Ok ((7, u32_to_be 7), [])
   \<and> length (u32_to_be 7) \<le> MAX_RPC_RESPONSE"
proof -
  have "read_one_response (SimpleIo Kind_UnexpectedEof) (fragmented [u32_to_be 7]) = Ok ((7, u32_to_be 7), [])"
    by (simp add: read_one_response_def rbind_def read_exact_def rreturn_def mark_bits [of 4, simplified]
        MAX_RPC_RESPONSE_def)
  with read_one_response_bounded [OF this] show ?thesis by simp
qed

text \<open>What the client writes is one record with one fragment.\<close>

lemma request_frame_single:
  assumes "8 + length msg_body + length data + pad_len (length data) < 2 ^ 31"
  shows "request_frame xid msg_body data =
    fragmented [u32_to_be xid @ u32_to_be 0 @ msg_body @ data @ replicate (pad_len (length data)) 0]"
proof -
  have "length (u32_to_be xid @ u32_to_be 0 @ msg_body @ data @ replicate (pad_len (length data)) 0)
      = 8 + length msg_body + length data + (4 - length data mod 4) mod 4"
    by (simp add: pad_len_def)
  then show ?thesis
    unfolding request_frame_def Let_def fragmented.simps by (simp only:) (simp add: pad_len_def)
qed

subsection \<open>Reply envelope\<close>

lemma drop_chain:
  "j = i + n \<Longrightarrow> j \<le> length xs \<Longrightarrow> drop j xs = r \<Longrightarrow> drop i xs = take n (drop i xs) @ r"
  by (metis append_take_drop_id drop_drop add.commute)

lemma word_at_be: "i + 4 \<le> length xs \<Longrightarrow> u32_from_be (take 4 (drop i xs)) = w \<Longrightarrow> take 4 (drop i xs) = u32_to_be w"
  using u32_to_from_be [of "take 4 (drop i xs)"] by simp

lemma read_u32_at_append: "p = length pre \<Longrightarrow> read_u32_at (pre @ u32_to_be w @ r) p = Ok w"
  by (simp add: read_u32_at_def)

lemma parse_accepted:
  assumes "length flavor = 4" "length verf < 2 ^ 32" "length pad = pad_len (length verf)"
  shows "parse_rpc_response (u32_to_be xid @ u32_to_be 1 @ u32_to_be 0 @ flavor
      @ u32_to_be (word_of_nat (length verf)) @ verf @ pad @ u32_to_be 0 @ payload) xid = Ok payload"
proof -
  let ?n = "length verf + pad_len (length verf)"
  let ?head = "u32_to_be xid @ u32_to_be 1 @ u32_to_be 0 @ flavor @ u32_to_be (word_of_nat (length verf)) @ verf @ pad"
  define res where "res = ?head @ u32_to_be 0 @ payload"
  have "read_u32_at res 8 = Ok 0"
    unfolding res_def using read_u32_at_append [of 8 "u32_to_be xid @ u32_to_be 1"] by simp
  moreover have "read_u32_at res 16 = Ok (word_of_nat (length verf))"
    unfolding res_def using read_u32_at_append [of 16 "u32_to_be xid @ u32_to_be 1 @ u32_to_be 0 @ flavor"] assms(1)
    by simp
  moreover have "read_u32_at res (20 + ?n) = Ok 0"
    unfolding res_def by (rule read_u32_at_append) (simp add: assms)
  moreover have "length res = 24 + ?n + length payload" by (simp add: res_def assms)
  moreover have "drop (24 + ?n) res = payload" by (simp add: res_def assms)
  moreover have "u32_from_be (take 4 res) = xid" "u32_from_be (take 4 (drop 4 res)) = 1"
    by (simp_all add: res_def)
  moreover have "unat (word_of_nat (length verf) :: u32) = length verf"
    using assms(2) by (intro unat_of_nat_small) simp
  ultimately have "parse_rpc_response res xid = Ok payload"
    unfolding parse_rpc_response_def slice_from_def Let_def pad_len_def by (simp add: add.assoc)
  then show ?thesis by (simp add: res_def)
qed

lemma read_u32_at_eq_Ok:
  "read_u32_at d p = Ok w \<longleftrightarrow> p + 4 \<le> length d \<and> w = u32_from_be (take 4 (drop p d))"
  by (auto simp: read_u32_at_def)

lemma slice_from_eq_Ok: "slice_from d p = Ok r \<longleftrightarrow> p \<le> length d \<and> r = drop p d"
  by (auto simp: slice_from_def)

text \<open>The reply envelope, exactly: \<open>parse_rpc_response\<close> returns a payload if and only if the
  record is the accepted, successful reply with the expected transaction id, any verifier, and
  this payload behind it.\<close>

theorem parse_rpc_response_exact:
  "parse_rpc_response res xid = Ok payload \<longleftrightarrow>
     (\<exists>flavor verf pad. length flavor = 4 \<and> length verf < 2 ^ 32 \<and> length pad = pad_len (length verf)
        \<and> res = u32_to_be xid @ u32_to_be 1 @ u32_to_be 0 @ flavor
              @ u32_to_be (word_of_nat (length verf)) @ verf @ pad @ u32_to_be 0 @ payload)"
  (is "?parse \<longleftrightarrow> ?form")
proof
  assume ?form
  then show ?parse by (auto intro: parse_accepted)
next
  assume parse: ?parse
  define n where n: "n = unat (u32_from_be (take 4 (drop 16 res)))"
  from parse have "u32_from_be (take 4 res) = xid \<and> u32_from_be (take 4 (drop 4 res)) = 1
      \<and> u32_from_be (take 4 (drop 8 res)) = 0 \<and> 20 + (n + pad_len n) + 4 \<le> length res
      \<and> u32_from_be (take 4 (drop (20 + (n + pad_len n)) res)) = 0
      \<and> payload = drop (20 + (n + pad_len n) + 4) res"
    unfolding parse_rpc_response_def Let_def if_Err_eq_Ok and_then_eq_Ok read_u32_at_eq_Ok slice_from_eq_Ok
      pad_len_def n by blast
  then have x: "u32_from_be (take 4 res) = xid" "u32_from_be (take 4 (drop 4 res)) = 1"
      "u32_from_be (take 4 (drop 8 res)) = 0"
    and len: "24 + n + pad_len n \<le> length res"
    and acc: "u32_from_be (take 4 (drop (20 + n + pad_len n) res)) = 0"
    and payload: "payload = drop (24 + n + pad_len n) res"
    by (simp_all add: add.assoc)
  have parts: "drop 0 res = take 4 (drop 0 res) @ take 4 (drop 4 res) @ take 4 (drop 8 res) @ take 4 (drop 12 res)
      @ take 4 (drop 16 res) @ take n (drop 20 res) @ take (pad_len n) (drop (20 + n) res)
      @ take 4 (drop (20 + n + pad_len n) res) @ drop (24 + n + pad_len n) res"
    using len
    by (intro drop_chain [where i = 0 and j = 4] drop_chain [where i = 4 and j = 8]
        drop_chain [where i = 8 and j = 12] drop_chain [where i = 12 and j = 16]
        drop_chain [where i = 16 and j = 20] drop_chain [where i = 20 and j = "20 + n"]
        drop_chain [where i = "20 + n" and j = "20 + n + pad_len n"]
        drop_chain [where i = "20 + n + pad_len n" and j = "24 + n + pad_len n"] refl) simp_all
  have words: "take 4 (drop 0 res) = u32_to_be xid" "take 4 (drop 4 res) = u32_to_be 1"
    "take 4 (drop 8 res) = u32_to_be 0" "take 4 (drop 16 res) = u32_to_be (word_of_nat n)"
    "take 4 (drop (20 + n + pad_len n) res) = u32_to_be 0"
    using len x acc by (intro word_at_be; simp add: n)+
  show ?form
  proof (intro exI conjI)
    show "res = u32_to_be xid @ u32_to_be 1 @ u32_to_be 0 @ take 4 (drop 12 res)
      @ u32_to_be (word_of_nat (length (take n (drop 20 res)))) @ take n (drop 20 res)
      @ take (pad_len n) (drop (20 + n) res) @ u32_to_be 0 @ payload"
      using parts len unfolding words unfolding payload drop_0 by (simp only: length_take length_drop) simp
  qed (use len in \<open>simp_all add: n\<close>)
qed

lemma parse_rpc_response_not_Panic: "parse_rpc_response res xid \<noteq> Panic"
proof -
  have "read_u32_at d p \<noteq> Panic" for d p by (simp add: read_u32_at_def)
  moreover have "slice_from d p = Panic \<longleftrightarrow> \<not> p \<le> length d" for d p by (simp add: slice_from_def)
  ultimately show ?thesis
    unfolding parse_rpc_response_def Let_def
    by (simp only: if_Err_eq_Panic and_then_eq_Panic read_u32_at_eq_Ok) blast
qed

lemma get_current_time_can_overflow: "get_current_time 4294967 296 = Panic"
  by (simp add: get_current_time_def checked_add_def)

end
