(* ===== verification/Retry_Budget.thy ===== *)
theory Retry_Budget
  imports Errors
begin

text \<open>
  The budget for retrying a busy server (\<open>src/src/retry.rs\<close>).  An operation shares one budget
  with everything it calls; each temporary rejection asks the budget for a backoff, which either
  sleeps and lets the caller try again or ends the operation with a \<open>ServerBusy\<close> error.

  An \<open>Instant\<close> is its number of nanoseconds.  What a backoff sees of its surroundings is the
  record \<open>surroundings\<close>: the clock at each reading, the random number generator, and whether the waiter of
  the read was dropped during the sleep (the \<open>python-bindings\<close> build).  The task locals are the
  deadlines they carry.
\<close>

definition MAX_RETRIES :: u32 where "MAX_RETRIES = 16"
definition MAX_ELAPSED :: nat where "MAX_ELAPSED = 60 * 1000000000"
definition BASE_MS :: u64 where "BASE_MS = 200"
definition CAP_MS :: u64 where "CAP_MS = 5000"

definition from_millis :: "u64 \<Rightarrow> nat" where
  "from_millis ms = unat ms * 1000000"

record budget =
  bg_started :: nat
  bg_deadline :: nat
  bg_retries :: u32

record task_locals =
  tl_budget :: "budget option"
  tl_caller :: "nat option"

record surroundings =
  su_entry :: nat
  su_random_range :: "u64 \<Rightarrow> u64 \<Rightarrow> u64"
  su_before_sleep :: nat
  su_cancelled :: bool
  su_after_sleep :: nat
  su_exhausted :: nat

definition cap_deadline :: "task_locals \<Rightarrow> nat \<Rightarrow> nat" where
  "cap_deadline env deadline =
     (let deadline = (case tl_budget env of Some b \<Rightarrow> min deadline (bg_deadline b) | None \<Rightarrow> deadline)
      in case tl_caller env of Some caller \<Rightarrow> min deadline caller | None \<Rightarrow> deadline)"

definition budget_new :: "task_locals \<Rightarrow> nat \<Rightarrow> budget" where
  "budget_new env now = \<lparr>bg_started = now, bg_deadline = cap_deadline env (now + MAX_ELAPSED), bg_retries = 0\<rparr>"

text \<open>The task locals inside \<open>scope\<close>: the budget that is already there, or a fresh one.\<close>

definition scope_locals :: "task_locals \<Rightarrow> nat \<Rightarrow> task_locals" where
  "scope_locals env now =
     env\<lparr>tl_budget := Some (case tl_budget env of Some b \<Rightarrow> b | None \<Rightarrow> budget_new env now)\<rparr>"

definition exhausted :: "budget \<Rightarrow> nat \<Rightarrow> request_context \<Rightarrow> nfs_error \<Rightarrow> retry_exhaustion \<Rightarrow> nfs_error" where
  "exhausted b now ctx source reason =
     ServerBusy (ServerBusyError ctx (bg_retries b) (now - bg_started b) reason source)"

definition cancelled_read :: nfs_error where
  "cancelled_read = transport NotSent
     (Io (MessageIo Kind_Interrupted ''read waiter cancelled during server-busy backoff''))"

text \<open>\<open>BASE_MS.saturating_mul(1u64 << attempt).min(CAP_MS)\<close>; the shift is by less than 16 bits.\<close>

definition saturating_mul :: "'a::len word \<Rightarrow> 'a word \<Rightarrow> 'a word" where
  "saturating_mul a b = (if unat a * unat b < 2 ^ LENGTH('a) then a * b else - 1)"

definition backoff_maximum :: "u32 \<Rightarrow> u64" where
  "backoff_maximum attempt = min (saturating_mul BASE_MS (push_bit (unat attempt) 1)) CAP_MS"

definition backoff ::
  "task_locals \<Rightarrow> budget \<Rightarrow> surroundings \<Rightarrow> request_context \<Rightarrow> nfs_error \<Rightarrow> budget \<times> unit result" where
  "backoff env b w ctx source =
     (let deadline = cap_deadline env (bg_deadline b) in
      if su_entry w \<ge> deadline then (b, Err (exhausted b (su_exhausted w) ctx source Deadline))
      else if \<not> bg_retries b < MAX_RETRIES
      then (b, Err (exhausted b (su_exhausted w) ctx source RetryLimit))
      else
        let attempt = bg_retries b; b' = b\<lparr>bg_retries := bg_retries b + 1\<rparr> in
        if su_cancelled w then (b', Err cancelled_read)
        else if su_after_sleep w \<ge> deadline
        then (b', Err (exhausted b' (su_exhausted w) ctx source Deadline))
        else (b', Ok ()))"

text \<open>When the sleep is set to end.  The sample lies in \<open>maximum / 2 .. maximum\<close>, and the timer does
  not fire early.\<close>

definition wake_at :: "task_locals \<Rightarrow> budget \<Rightarrow> surroundings \<Rightarrow> nat" where
  "wake_at env b w =
     (let maximum = backoff_maximum (bg_retries b);
          wake = su_before_sleep w + from_millis (su_random_range w (maximum div 2) maximum)
      in min wake (cap_deadline env (bg_deadline b)))"

definition honest_clock :: "task_locals \<Rightarrow> budget \<Rightarrow> surroundings \<Rightarrow> bool" where
  "honest_clock env b w \<longleftrightarrow>
     (\<forall>lo hi. lo < hi \<longrightarrow> lo \<le> su_random_range w lo hi \<and> su_random_range w lo hi < hi)
     \<and> wake_at env b w \<le> su_after_sleep w"

text \<open>Consecutive backoffs of one operation, up to the first that is refused.\<close>

fun backoffs ::
  "task_locals \<Rightarrow> budget \<Rightarrow> (surroundings \<times> request_context \<times> nfs_error) list \<Rightarrow> budget \<times> unit result" where
  "backoffs env b [] = (b, Ok ())"
| "backoffs env b ((w, ctx, source) # rest) =
     (case backoff env b w ctx source of
        (b', Ok _) \<Rightarrow> backoffs env b' rest
      | (b', r) \<Rightarrow> (b', r))"

subsection \<open>Bounds\<close>

lemma cap_deadline_le: "cap_deadline env d \<le> d"
  by (simp add: cap_deadline_def Let_def min.coboundedI1 split: option.split)

lemma cap_deadline_caller: "tl_caller env = Some c \<Longrightarrow> cap_deadline env d \<le> c"
  by (simp add: cap_deadline_def Let_def split: option.split)

lemma backoff_Ok:
  "backoff env b w ctx source = (b', Ok ()) \<longleftrightarrow>
     su_entry w < cap_deadline env (bg_deadline b) \<and> bg_retries b < MAX_RETRIES
     \<and> \<not> su_cancelled w \<and> su_after_sleep w < cap_deadline env (bg_deadline b)
     \<and> b' = b\<lparr>bg_retries := bg_retries b + 1\<rparr>"
  by (auto simp: backoff_def Let_def)

lemma retries_step: "r < MAX_RETRIES \<Longrightarrow> unat (r + 1 :: u32) = unat r + 1 \<and> r + 1 \<le> MAX_RETRIES"
  unfolding MAX_RETRIES_def by (simp add: word_less_nat_alt word_le_nat_alt unat_word_ariths)

lemma backoffs_Ok:
  assumes "backoffs env b calls = (b', Ok ())" and "bg_retries b \<le> MAX_RETRIES"
  shows "unat (bg_retries b') = unat (bg_retries b) + length calls \<and> bg_retries b' \<le> MAX_RETRIES
    \<and> list_all (\<lambda>(w, _). su_after_sleep w < cap_deadline env (bg_deadline b)) calls"
  using assms
proof (induction calls arbitrary: b)
  case (Cons call rest)
  obtain w ctx source where call: "call = (w, ctx, source)" by (cases call)
  from Cons.prems(1) obtain b1 where b1: "backoff env b w ctx source = (b1, Ok ())"
    and rest: "backoffs env b1 rest = (b', Ok ())"
    by (auto simp: call split: prod.splits outcome.splits)
  from b1 have step: "b1 = b\<lparr>bg_retries := bg_retries b + 1\<rparr>" "bg_retries b < MAX_RETRIES"
    "su_after_sleep w < cap_deadline env (bg_deadline b)"
    by (auto simp: backoff_Ok)
  with Cons.IH [OF rest] retries_step [OF step(2)] show ?case by (simp add: call)
qed simp

text \<open>C23. A fresh budget grants at most sixteen backoffs, whatever the clock, the random numbers and
  the server do, and each granted backoff is over before sixty seconds have passed since the
  operation started and before the caller's own deadline.  So a loop that retries on a busy
  reply and asks this budget each time ends.\<close>

theorem retry_budget_bounded:
  assumes "backoffs env (budget_new env now) calls = (b', Ok ())"
  shows "length calls \<le> 16 \<and> unat (bg_retries b') = length calls
    \<and> list_all (\<lambda>(w, _). su_after_sleep w < now + MAX_ELAPSED
        \<and> pred_option (\<lambda>caller. su_after_sleep w < caller) (tl_caller env)) calls"
proof -
  let ?b = "budget_new env now"
  have "bg_retries ?b = 0" "bg_deadline ?b \<le> now + MAX_ELAPSED"
    by (simp_all add: budget_new_def cap_deadline_le)
  moreover have "cap_deadline env (bg_deadline ?b) \<le> bg_deadline ?b" by (rule cap_deadline_le)
  moreover have "pred_option (\<lambda>c. cap_deadline env (bg_deadline ?b) \<le> c) (tl_caller env)"
    by (cases "tl_caller env") (simp_all add: cap_deadline_caller)
  ultimately show ?thesis
    using backoffs_Ok [OF assms]
    by (cases "tl_caller env") (fastforce simp: MAX_RETRIES_def word_le_nat_alt list_all_iff)+
qed

text \<open>One busy reply, answered in time.\<close>

definition sample_surroundings :: surroundings where
  "sample_surroundings = \<lparr>su_entry = 1, su_random_range = (\<lambda>lo hi. lo), su_before_sleep = 2,
     su_cancelled = False, su_after_sleep = 100000003, su_exhausted = 0\<rparr>"

definition sample_context :: request_context where
  "sample_context = \<lparr>ctx_operation = ''read'', ctx_protocol = NFSv4p1, ctx_request_id = None\<rparr>"

theorem retry_budget_bounded_witness:
  "backoffs \<lparr>tl_budget = None, tl_caller = Some 1000000000\<rparr>
     (budget_new \<lparr>tl_budget = None, tl_caller = Some 1000000000\<rparr> 0) [(sample_surroundings, sample_context, Nfs4 10008)]
   = (\<lparr>bg_started = 0, bg_deadline = 1000000000, bg_retries = 1\<rparr>, Ok ())
   \<and> length [(sample_surroundings, sample_context, Nfs4 10008)] \<le> 16"
proof -
  let ?tl = "\<lparr>tl_budget = None, tl_caller = Some 1000000000\<rparr>"
  let ?calls = "[(sample_surroundings, sample_context, Nfs4 10008)]"
  have "backoffs ?tl (budget_new ?tl 0) ?calls = (\<lparr>bg_started = 0, bg_deadline = 1000000000, bg_retries = 1\<rparr>, Ok ())"
    by (simp add: backoff_def budget_new_def cap_deadline_def sample_surroundings_def MAX_ELAPSED_def
        MAX_RETRIES_def)
  with retry_budget_bounded [OF this] show ?thesis by blast
qed

subsection \<open>Delays and refusals\<close>

lemma push_bit_small: "n < 16 \<Longrightarrow> unat (push_bit n 1 :: u64) = 2 ^ n"
proof -
  assume "n < 16"
  then have "(2 :: nat) ^ n < 2 ^ LENGTH(64)" by (intro power_strict_increasing) simp_all
  moreover have "push_bit n (1 :: u64) = word_of_nat (2 ^ n)" by (simp add: push_bit_eq_mult)
  ultimately show ?thesis by (simp only: unat_of_nat_small)
qed

lemma backoff_maximum_eq:
  assumes "attempt < MAX_RETRIES"
  shows "unat (backoff_maximum attempt) = min (200 * 2 ^ unat attempt) 5000"
proof -
  let ?n = "unat attempt"
  have n: "?n < 16" using assms by (simp add: MAX_RETRIES_def word_less_nat_alt)
  then have "(2 :: nat) ^ ?n \<le> 2 ^ 15" by (intro power_increasing) simp_all
  then have le: "200 * (2 :: nat) ^ ?n < 2 ^ 64" by simp
  have "unat (saturating_mul (200 :: u64) s) = 200 * unat s" if "200 * unat s < 2 ^ 64" for s :: u64
    using that by (simp add: saturating_mul_def unat_word_ariths)
  with le have "unat (saturating_mul BASE_MS (push_bit ?n 1)) = 200 * 2 ^ ?n"
    unfolding BASE_MS_def by (simp only: push_bit_small [OF n])
  then show ?thesis
    by (simp add: backoff_maximum_def CAP_MS_def min_def word_le_nat_alt)
qed

text \<open>The delays.  When a backoff is granted as the \<open>n\<close>-th of its budget, counted from zero, then
  at least half and the timer is set to less than all of \<open>min (200 * 2^n) 5000\<close> milliseconds
  have passed since the sleep began.\<close>

theorem backoff_delay_window:
  assumes "backoff env b w ctx source = (b', Ok ())" and "honest_clock env b w"
  defines "maximum \<equiv> min (200 * 2 ^ unat (bg_retries b)) (5000 :: nat)"
  shows "su_before_sleep w + maximum div 2 * 1000000 \<le> su_after_sleep w
    \<and> wake_at env b w < su_before_sleep w + maximum * 1000000"
proof -
  let ?m = "backoff_maximum (bg_retries b)" and ?d = "cap_deadline env (bg_deadline b)"
  let ?r = "su_random_range w (?m div 2) ?m"
  from assms(1) have retries: "bg_retries b < MAX_RETRIES" and after: "su_after_sleep w < ?d"
    by (auto simp: backoff_Ok)
  have m: "unat ?m = maximum" unfolding maximum_def by (rule backoff_maximum_eq [OF retries])
  have pos: "0 < maximum" by (simp add: maximum_def)
  have half: "unat (?m div 2) = maximum div 2" by (simp add: unat_div m)
  then have "?m div 2 < ?m" using pos by (simp add: word_less_nat_alt m)
  then have "?m div 2 \<le> ?r" "?r < ?m" using assms(2) by (simp_all add: honest_clock_def)
  then have "maximum div 2 \<le> unat ?r" "unat ?r < maximum"
    unfolding word_le_nat_alt word_less_nat_alt half m by simp_all
  moreover have "wake_at env b w \<le> su_after_sleep w" using assms(2) by (simp add: honest_clock_def)
  moreover from this after have "wake_at env b w = su_before_sleep w + unat ?r * 1000000"
    by (simp add: wake_at_def Let_def from_millis_def min_def split: if_splits)
  ultimately show ?thesis by simp
qed

theorem backoff_delay_window_witness:
  "su_before_sleep sample_surroundings + min (200 * 2 ^ 0) 5000 div 2 * 1000000
     \<le> su_after_sleep sample_surroundings"
proof -
  let ?tl = "\<lparr>tl_budget = None, tl_caller = None\<rparr>" and ?b = "\<lparr>bg_started = 0, bg_deadline = 1000000000, bg_retries = 0\<rparr>"
  have "backoff ?tl ?b sample_surroundings sample_context (Nfs4 10008)
      = (\<lparr>bg_started = 0, bg_deadline = 1000000000, bg_retries = 1\<rparr>, Ok ())"
    by (simp add: backoff_def cap_deadline_def sample_surroundings_def MAX_RETRIES_def)
  moreover have "honest_clock ?tl ?b sample_surroundings"
    by (simp add: honest_clock_def wake_at_def cap_deadline_def sample_surroundings_def backoff_maximum_def
        saturating_mul_def BASE_MS_def CAP_MS_def from_millis_def Let_def)
  ultimately show ?thesis using backoff_delay_window by fastforce
qed

text \<open>A backoff that is refused for the budget keeps the server's own error as the source of the
  one it returns, so the caller still sees a busy server, and it tells the deadline from the
  retry limit.\<close>

theorem backoff_refusal_keeps_source:
  "snd (backoff env b w ctx source) \<in>
     {Ok (), Err cancelled_read,
      Err (exhausted b (su_exhausted w) ctx source Deadline),
      Err (exhausted b (su_exhausted w) ctx source RetryLimit),
      Err (exhausted (b\<lparr>bg_retries := bg_retries b + 1\<rparr>) (su_exhausted w) ctx source Deadline)}
   \<and> (snd (backoff env b w ctx source) = Err (exhausted b (su_exhausted w) ctx source RetryLimit)
      \<longleftrightarrow> su_entry w < cap_deadline env (bg_deadline b) \<and> bg_retries b \<ge> MAX_RETRIES)
   \<and> is_server_busy (exhausted b now ctx source reason) = (\<not> contains_uncertain_outcome source)"
proof -
  have neq: "cancelled_read \<noteq> exhausted b n ctx source r" for b n r
    by (simp add: exhausted_def cancelled_read_def transport_def)
  have "is_server_busy (exhausted b now ctx source reason) = (\<not> contains_uncertain_outcome source)"
    unfolding exhausted_def by (subst is_server_busy.simps) simp
  moreover have "exhausted b n ctx source Deadline \<noteq> exhausted b' n ctx source RetryLimit" for b b' n
    by (simp add: exhausted_def)
  ultimately show ?thesis by (auto simp: backoff_def Let_def neq)
qed

end
