(* ===== verification/Rpc_Call.thy ===== *)
theory Rpc_Call
  imports Rpc_Wire Retry_Budget
begin

text \<open>
  One RPC call with its retransmissions (\<open>src/src/rpc/mod.rs\<close>: \<open>send_and_receive_inner\<close>,
  \<open>DisconnectRecovery\<close> and \<open>call_with_data_inner\<close>).

  The network is what an attempt meets: the record \<open>exchange\<close> says whether the connection was
  ready, whether its reader had stopped, when the attempt's timeout struck, how the write ended
  and what came back.  A round of the retry loop adds the clock and the outcome of the reconnect.
  The rounds are a function of their number, so a theorem over all such functions is a theorem
  over everything the network can do.  The model keeps the frames that may have left the client.
\<close>

subsection \<open>One attempt\<close>

datatype cut = No_Cut | Cut_Before_Write | Cut_After_Write

datatype arrival =
    Reply bytes
  | Reader_Rpc string
  | Reader_Io io_kind string
  | Reader_Gone
  | No_Reply

record exchange =
  ex_ready :: bool
  ex_poisoned :: bool
  ex_reader_stopped :: bool
  ex_cut :: cut
  ex_write :: "io_error option"
  ex_arrival :: arrival

text \<open>The first component says that the frame, or a part of it, may have been written.\<close>

definition send_and_receive_inner :: "bool \<Rightarrow> exchange \<Rightarrow> bool \<times> bytes result" where
  "send_and_receive_inner bypass_readiness x =
     (if ex_cut x = Cut_Before_Write
      then (False, Err (transport NotSent (Io (MessageIo Kind_TimedOut ''RPC attempt timeout''))))
      else if \<not> bypass_readiness \<and> \<not> ex_ready x
      then (False, Err (transport NotSent (Io (MessageIo Kind_NotConnected
              ''NFSv4.1 connection rebind failed; connection is not ready''))))
      else if ex_poisoned x then (False, Err (transport NotSent (Rpc ''pending map lock poisoned'')))
      else if \<not> bypass_readiness \<and> ex_reader_stopped x
      then (False, Err (transport NotSent (Io (MessageIo Kind_NotConnected
              ''RPC connection reader has stopped''))))
      else (True,
        if ex_cut x = Cut_After_Write
        then Err (transport Sent (Io (MessageIo Kind_TimedOut ''RPC attempt timeout'')))
        else case ex_write x of
          Some e \<Rightarrow> Err (transport Sent (Io e))
        | None \<Rightarrow>
            (case ex_arrival x of
               Reply data \<Rightarrow> Ok data
             | Reader_Rpc message \<Rightarrow> Err (Rpc message)
             | Reader_Io kind message \<Rightarrow> Err (transport Sent (Io (MessageIo kind message)))
             | Reader_Gone \<Rightarrow>
                 Err (transport Sent (Io (MessageIo Kind_BrokenPipe ''reader task terminated'')))
             | No_Reply \<Rightarrow>
                 Err (transport Sent (Io (MessageIo Kind_TimedOut ''RPC response timeout''))))))"

subsection \<open>Recovery after a disconnect\<close>

definition RECOVERY_BUDGET :: nat where "RECOVERY_BUDGET = 500 * 1000000"
definition MAX_RECONNECTS :: u32 where "MAX_RECONNECTS = 4"

record disconnect_recovery =
  dr_first :: nfs_error
  dr_deadline :: nat
  dr_reconnects :: u32

definition recovery_new :: "nfs_error \<Rightarrow> nat \<Rightarrow> nat \<Rightarrow> disconnect_recovery" where
  "recovery_new first operation_deadline now =
     \<lparr>dr_first = first, dr_deadline = min (now + RECOVERY_BUDGET) operation_deadline, dr_reconnects = 0\<rparr>"

definition recovery_failure :: "disconnect_recovery \<Rightarrow> request_transmission \<Rightarrow> nfs_error" where
  "recovery_failure r transmission =
     (if transmission = Sent \<and> request_transmission_of (dr_first r) \<noteq> Some Sent
      then transport transmission (dr_first r) else dr_first r)"

text \<open>The delay in milliseconds before the jitter, and the counter after it.\<close>

definition next_delay :: "disconnect_recovery \<Rightarrow> (u64 \<times> disconnect_recovery) option" where
  "next_delay r =
     (if dr_reconnects r \<ge> MAX_RECONNECTS then None
      else Some (push_bit (unat (dr_reconnects r)) 20, r\<lparr>dr_reconnects := dr_reconnects r + 1\<rparr>))"

subsection \<open>The retry loop\<close>

datatype reconnect_outcome = Reconnected | Reconnect_Failed nfs_error | Reconnect_Late

record rpc_round =
  rr_now :: nat
  rr_xid :: u32
  rr_exchange :: exchange
  rr_disconnect_now :: nat
  rr_reconnect :: reconnect_outcome

record call_state =
  cs_attempt :: nat
  cs_last_error :: "nfs_error option"
  cs_disconnect :: "disconnect_recovery option"
  cs_transmission :: request_transmission
  cs_frames :: "bytes list"

datatype verdict = Return "bytes result" | Break call_state | Continue call_state

definition total_budget_error :: nfs_error where
  "total_budget_error = Io (MessageIo Kind_TimedOut ''RPC total attempt budget exhausted'')"

text \<open>After the loop.\<close>

definition give_up :: "call_state \<Rightarrow> nfs_error" where
  "give_up s =
     (case cs_disconnect s of
        Some recovery \<Rightarrow> recovery_failure recovery (cs_transmission s)
      | None \<Rightarrow> (case cs_last_error s of Some e \<Rightarrow> e | None \<Rightarrow> total_budget_error))"

text \<open>The error of an attempt as the loop sees it, and the transmission it remembers.\<close>

definition note_transmission :: "call_state \<Rightarrow> nfs_error \<Rightarrow> nfs_error \<times> request_transmission" where
  "note_transmission s e =
     (if request_transmission_of e = Some Sent then (e, Sent)
      else if cs_transmission s = Sent then (transport Sent e, Sent)
      else (e, cs_transmission s))"

definition on_connection_error :: "nat \<Rightarrow> nat \<Rightarrow> rpc_round \<Rightarrow> call_state \<Rightarrow> nfs_error \<Rightarrow> verdict" where
  "on_connection_error max_attempts deadline w s e =
     (let recovery = (case cs_disconnect s of Some r \<Rightarrow> r | None \<Rightarrow> recovery_new e deadline (rr_disconnect_now w));
          s = s\<lparr>cs_disconnect := Some recovery, cs_attempt := cs_attempt s + 1\<rparr>
      in if cs_attempt s \<ge> max_attempts then Break s
         else case next_delay recovery of
                None \<Rightarrow> Break s
              | Some (_, recovery') \<Rightarrow>
                  let s = s\<lparr>cs_disconnect := Some recovery'\<rparr> in
                  (case rr_reconnect w of
                     Reconnected \<Rightarrow> Continue s
                   | Reconnect_Failed error \<Rightarrow> if is_connection_lost error then Continue s else Break s
                   | Reconnect_Late \<Rightarrow> Break s))"

definition on_attempt_error :: "nat \<Rightarrow> nat \<Rightarrow> bool \<Rightarrow> rpc_round \<Rightarrow> call_state \<Rightarrow> nfs_error \<Rightarrow> verdict" where
  "on_attempt_error max_attempts deadline bypass_readiness w s error =
     (let (e, transmission) = note_transmission s error; s = s\<lparr>cs_transmission := transmission\<rparr>
      in if bypass_readiness then Return (Err e)
         else if is_connection_lost e then on_connection_error max_attempts deadline w s e
         else if error_kind e = Kind_TimedOut
         then Continue (s\<lparr>cs_attempt := cs_attempt s + 1, cs_last_error := Some e\<rparr>)
         else if cs_disconnect s \<noteq> None then Break s
         else Return (Err e))"

definition attempt_round ::
  "nat \<Rightarrow> nat \<Rightarrow> bool \<Rightarrow> bytes \<Rightarrow> bytes \<Rightarrow> rpc_round \<Rightarrow> call_state \<Rightarrow> verdict" where
  "attempt_round max_attempts deadline bypass_readiness msg_body data w s =
     (let attempt_deadline = (case cs_disconnect s of Some r \<Rightarrow> dr_deadline r | None \<Rightarrow> deadline) in
      if rr_now w \<ge> attempt_deadline then Break s
      else case send_and_receive_inner bypass_readiness (rr_exchange w) of
             (_, Ok response) \<Rightarrow> Return (parse_rpc_response response (rr_xid w))
           | (sent, Err e) \<Rightarrow> on_attempt_error max_attempts deadline bypass_readiness w
               (if sent then s\<lparr>cs_frames := cs_frames s @ [request_frame (rr_xid w) msg_body data]\<rparr> else s) e
           | (_, Panic) \<Rightarrow> Return Panic)"

text \<open>What a round adds to the frames when it returns a reply.\<close>

definition frames_after :: "bool \<Rightarrow> bytes \<Rightarrow> bytes \<Rightarrow> rpc_round \<Rightarrow> call_state \<Rightarrow> bytes list" where
  "frames_after bypass_readiness msg_body data w s =
     cs_frames s @ (if fst (send_and_receive_inner bypass_readiness (rr_exchange w))
                    then [request_frame (rr_xid w) msg_body data] else [])"

lemma attempt_round_Continue:
  "attempt_round max_attempts deadline bypass msg_body data w s = Continue s' \<Longrightarrow> cs_attempt s' = Suc (cs_attempt s)"
  unfolding attempt_round_def on_attempt_error_def on_connection_error_def note_transmission_def Let_def
  by (auto split: if_splits option.splits prod.splits outcome.splits reconnect_outcome.splits)

text \<open>The loop; the result comes with the frames that may have left the client.\<close>

function call_loop ::
  "nat \<Rightarrow> nat \<Rightarrow> bool \<Rightarrow> bytes \<Rightarrow> bytes \<Rightarrow> (nat \<Rightarrow> rpc_round) \<Rightarrow> nat \<Rightarrow> call_state \<Rightarrow> bytes result \<times> bytes list" where
  "call_loop max_attempts deadline bypass msg_body data net i s =
     (if cs_attempt s < max_attempts
      then case attempt_round max_attempts deadline bypass msg_body data (net i) s of
             Return r \<Rightarrow> (r, frames_after bypass msg_body data (net i) s)
           | Break s' \<Rightarrow> (Err (give_up s'), cs_frames s')
           | Continue s' \<Rightarrow> call_loop max_attempts deadline bypass msg_body data net (Suc i) s'
      else (Err (give_up s), cs_frames s))"
  by pat_completeness auto
termination
  by (relation "measure (\<lambda>(m, _, _, _, _, _, _, s). m - cs_attempt s)")
    (auto dest: attempt_round_Continue)

declare call_loop.simps [simp del]

definition get_mux :: "u32 \<Rightarrow> bool \<Rightarrow> bool result" where
  "get_mux program has_mount_mux =
     (if program = MOUNT_PROG then Ok has_mount_mux
      else if program = NFS_PROG \<or> program = PORTMAP_PROG \<or> program = NFSACL_PROG then Ok False
      else Err (InvalidInput (''unknown RPC program '' @ show_nat (unat program))))"

definition call_start :: call_state where
  "call_start = \<lparr>cs_attempt = 0, cs_last_error = None, cs_disconnect = None, cs_transmission = NotSent,
     cs_frames = []\<rparr>"

definition call_with_data_inner ::
  "task_locals \<Rightarrow> bool \<Rightarrow> nat \<Rightarrow> bool \<Rightarrow> nat \<Rightarrow> nat \<Rightarrow> bytes \<Rightarrow> bytes \<Rightarrow> (nat \<Rightarrow> rpc_round) \<Rightarrow> bytes result \<times> bytes list" where
  "call_with_data_inner env has_mount_mux max_attempts bypass start timeout msg_body data net =
     (let deadline = cap_deadline env (start + timeout * 3);
          program = (if length msg_body \<ge> 8 then u32_from_be (take 4 (drop 4 msg_body)) else NFS_PROG)
      in case get_mux program has_mount_mux of
           Ok _ \<Rightarrow> call_loop max_attempts deadline bypass msg_body data net 0 call_start
         | Err e \<Rightarrow> (Err e, [])
         | Panic \<Rightarrow> (Panic, []))"

subsection \<open>At most as many transmissions as attempts\<close>

lemma attempt_round_frames:
  assumes "length (cs_frames s) \<le> cs_attempt s"
  shows "attempt_round m dl bypass msg_body data w s = Continue s' \<Longrightarrow> length (cs_frames s') \<le> cs_attempt s'"
    and "attempt_round m dl bypass msg_body data w s = Break s' \<Longrightarrow> length (cs_frames s') \<le> Suc (cs_attempt s)"
  using assms
  unfolding attempt_round_def on_attempt_error_def on_connection_error_def note_transmission_def Let_def
  by (auto split: if_splits option.splits prod.splits outcome.splits reconnect_outcome.splits)

lemma call_loop_frames:
  "length (cs_frames s) \<le> cs_attempt s \<Longrightarrow> cs_attempt s \<le> m \<Longrightarrow>
   length (snd (call_loop m dl bypass msg_body data net i s)) \<le> m"
proof (induction m dl bypass msg_body data net i s rule: call_loop.induct)
  case (1 m dl bypass msg_body data net i s)
  let ?round = "attempt_round m dl bypass msg_body data (net i) s"
  show ?case
  proof (cases "cs_attempt s < m")
    case True
    then show ?thesis
    proof (cases ?round)
      case (Return r)
      with True "1.prems" show ?thesis
        by (subst call_loop.simps) (simp add: frames_after_def)
    next
      case (Break s')
      with attempt_round_frames(2) [OF "1.prems"(1) Break] True show ?thesis
        by (subst call_loop.simps) simp
    next
      case (Continue s')
      with attempt_round_frames(1) [OF "1.prems"(1) Continue] attempt_round_Continue [OF Continue] True
      show ?thesis by (subst call_loop.simps) (simp add: "1.IH")
    qed
  next
    case False
    with "1.prems" show ?thesis by (subst call_loop.simps) simp
  qed
qed

text \<open>C11. Retransmission is bounded by the replay policy: a call sends its request at most
  \<open>max_attempts\<close> times, whatever the network does; with \<open>ONE_ATTEMPT\<close> a request is never
  sent twice.\<close>

theorem call_transmissions_bounded:
  "length (snd (call_with_data_inner env has_mount_mux max_attempts bypass start timeout msg_body data net)) \<le> max_attempts"
  using call_loop_frames [of call_start max_attempts]
  by (auto simp: call_with_data_inner_def Let_def call_start_def split: outcome.splits)

subsection \<open>Honest about the transmission\<close>

lemma transport_transmission [simp]: "request_transmission_of (transport tx e) = Some tx"
  by (simp add: transport_def)

lemma not_lost_Rpc [simp]: "\<not> is_connection_lost (Rpc message)" "error_kind (Rpc message) \<noteq> Kind_TimedOut"
  by (auto simp: is_connection_lost_def)

text \<open>Errors of the envelope carry no claim about the transmission.\<close>

definition plain :: "'a result \<Rightarrow> bool" where
  "plain r \<longleftrightarrow> (\<forall>e. r = Err e \<longrightarrow> request_transmission_of e = None)"

lemma plain_intros:
  "plain (Ok x)" "plain Panic" "plain (Err (Rpc m))" "plain (Err (Unsupported m))"
  "plain r \<Longrightarrow> plain r' \<Longrightarrow> plain (if c then r else r')"
  "plain q \<Longrightarrow> (\<And>x. plain (f x)) \<Longrightarrow> plain (and_then q f)"
  by (auto simp: plain_def and_then_eq_Err)

lemma parse_error_plain: "plain (parse_rpc_response res xid)"
  unfolding parse_rpc_response_def read_u32_at_def slice_from_def Let_def by (intro plain_intros)

lemma exchange_errors:
  assumes "send_and_receive_inner bypass x = (sent, r)"
  shows "r \<noteq> Panic"
    and "r = Err e \<Longrightarrow> \<not> sent \<Longrightarrow> request_transmission_of e = Some NotSent"
    and "r = Err e \<Longrightarrow> sent \<Longrightarrow> request_transmission_of e = Some Sent \<or> (\<exists>m. ex_arrival x = Reader_Rpc m \<and> e = Rpc m)"
  using assms by (auto simp: send_and_receive_inner_def split: if_splits option.splits arrival.splits)

definition honest :: "call_state \<Rightarrow> bool" where
  "honest s \<longleftrightarrow>
     (cs_frames s \<noteq> [] \<longrightarrow> cs_transmission s = Sent)
     \<and> (cs_disconnect s = None \<longrightarrow> cs_transmission s = Sent \<longrightarrow>
          (\<exists>e. cs_last_error s = Some e \<and> request_transmission_of e = Some Sent))
     \<and> (cs_disconnect s \<noteq> None \<longrightarrow> 0 < cs_attempt s)"

lemma honest_give_up:
  "honest s \<Longrightarrow> request_transmission_of (give_up s) = Some NotSent \<Longrightarrow> cs_frames s = []"
  by (auto simp: honest_def give_up_def recovery_failure_def total_budget_error_def split: option.splits if_splits)

text \<open>The error of an attempt after \<open>note_transmission\<close>: it reports a transmission whenever the state
  then remembers one.\<close>

lemma note_transmission_Sent:
  "note_transmission s e = (e', tx) \<Longrightarrow> tx = Sent \<Longrightarrow> request_transmission_of e' = Some Sent"
  by (auto simp: note_transmission_def split: if_splits)

lemma on_connection_error_honest:
  assumes "cs_frames s \<noteq> [] \<Longrightarrow> cs_transmission s = Sent"
  shows "on_connection_error m dl w s e = Continue s' \<or> on_connection_error m dl w s e = Break s' \<Longrightarrow> honest s'"
    and "on_connection_error m dl w s e \<noteq> Return r"
  using assms
  by (auto simp: on_connection_error_def honest_def Let_def split: if_splits option.splits prod.splits reconnect_outcome.splits)

lemma on_attempt_error_honest:
  fixes m dl bypass w s frames error
  assumes "honest s" and frames: "frames \<noteq> [] \<Longrightarrow> snd (note_transmission s error) = Sent"
  defines "v \<equiv> on_attempt_error m dl bypass w (s\<lparr>cs_frames := frames\<rparr>) error"
  shows "v = Continue s' \<or> v = Break s' \<Longrightarrow> honest s'"
    and "v = Return (Err e) \<Longrightarrow> request_transmission_of e = Some NotSent \<Longrightarrow> frames = []"
    and "v = Return r \<Longrightarrow> is_Err r"
proof -
  obtain e' tx where n: "note_transmission s error = (e', tx)" by (cases "note_transmission s error")
  have same: "note_transmission (s\<lparr>cs_frames := frames\<rparr>) error = (e', tx)"
    unfolding n [symmetric] by (simp add: note_transmission_def)
  have tx: "tx = Sent \<Longrightarrow> request_transmission_of e' = Some Sent" by (rule note_transmission_Sent [OF n])
  have sent: "frames \<noteq> [] \<Longrightarrow> tx = Sent" using frames n by simp
  let ?s = "s\<lparr>cs_frames := frames, cs_transmission := tx\<rparr>"
  have conn: "on_connection_error m dl w ?s e' = Continue s' \<or> on_connection_error m dl w ?s e' = Break s' \<Longrightarrow> honest s'"
    "on_connection_error m dl w ?s e' \<noteq> Return r" for s' r
    using on_connection_error_honest [of ?s] sent by simp_all
  have v: "v = (if bypass then Return (Err e')
      else if is_connection_lost e' then on_connection_error m dl w ?s e'
      else if error_kind e' = Kind_TimedOut
      then Continue (?s\<lparr>cs_attempt := cs_attempt s + 1, cs_last_error := Some e'\<rparr>)
      else if cs_disconnect s \<noteq> None then Break ?s
      else Return (Err e'))"
    unfolding v_def on_attempt_error_def Let_def same by simp
  show "v = Continue s' \<or> v = Break s' \<Longrightarrow> honest s'"
    unfolding v using assms(1) conn(1) [of s'] tx sent by (auto simp: honest_def split: if_splits)
  show "v = Return (Err e) \<Longrightarrow> request_transmission_of e = Some NotSent \<Longrightarrow> frames = []"
    unfolding v using conn(2) tx sent by (auto split: if_splits)
  show "v = Return r \<Longrightarrow> is_Err r"
    unfolding v using conn(2) by (auto split: if_splits)
qed

definition quiet :: "rpc_round \<Rightarrow> bool" where
  "quiet w \<longleftrightarrow> (case ex_arrival (rr_exchange w) of Reader_Rpc _ \<Rightarrow> False | _ \<Rightarrow> True)"

text \<open>An RPC-level failure of the reader is the one error of a sent request that does not say so.  It
  ends the call at once unless a disconnect came before it.\<close>

lemma attempt_round_honest:
  fixes m dl bypass msg_body data w s
  assumes "honest s" and calm: "cs_disconnect s = None \<or> quiet w"
  defines "v \<equiv> attempt_round m dl bypass msg_body data w s"
  shows "v = Continue s' \<or> v = Break s' \<Longrightarrow> honest s'"
    and "v = Return (Err e) \<Longrightarrow> request_transmission_of e = Some NotSent \<Longrightarrow> frames_after bypass msg_body data w s = []"
proof -
  obtain sent r where x: "send_and_receive_inner bypass (rr_exchange w) = (sent, r)" by fastforce
  define frames where "frames = frames_after bypass msg_body data w s"
  have frames: "(if sent then s\<lparr>cs_frames := cs_frames s @ [request_frame (rr_xid w) msg_body data]\<rparr> else s) = s\<lparr>cs_frames := frames\<rparr>"
    by (simp add: frames_def frames_after_def x)
  let ?late = "rr_now w \<ge> (case cs_disconnect s of Some r \<Rightarrow> dr_deadline r | None \<Rightarrow> dl)"
  have "(v = Continue s' \<or> v = Break s' \<longrightarrow> honest s') \<and>
    (v = Return (Err e) \<longrightarrow> request_transmission_of e = Some NotSent \<longrightarrow> frames = [])"
  proof (cases r)
    case (Ok response)
    have "v = Return (Err e) \<Longrightarrow> request_transmission_of e = None"
      using parse_error_plain [of response "rr_xid w"]
      by (auto simp: v_def attempt_round_def x Ok plain_def Let_def split: if_splits)
    with assms(1) show ?thesis by (auto simp: v_def attempt_round_def x Ok Let_def split: if_splits)
  next
    case (Err error)
    have v: "v = (if ?late then Break s else on_attempt_error m dl bypass w (s\<lparr>cs_frames := frames\<rparr>) error)"
      unfolding v_def attempt_round_def x Err Let_def by (simp add: frames)
    have old: "cs_frames s \<noteq> [] \<Longrightarrow> snd (note_transmission s error) = Sent"
      using assms(1) by (simp add: honest_def note_transmission_def)
    show ?thesis
    proof (cases "sent \<and> request_transmission_of error \<noteq> Some Sent")
      case True
      with exchange_errors(3) [OF x Err] obtain msg where "error = Rpc msg" "\<not> quiet w"
        by (auto simp: quiet_def)
      with calm have "cs_disconnect s = None" and error: "error = Rpc msg" by auto
      show ?thesis
      proof (cases "cs_transmission s = Sent")
        case True
        then have "snd (note_transmission s error) = Sent" by (simp add: note_transmission_def)
        with on_attempt_error_honest(1,2) [OF assms(1), of frames error m dl bypass w] assms(1)
        show ?thesis unfolding v by (auto split: if_splits)
      next
        case False
        then have "on_attempt_error m dl bypass w (s\<lparr>cs_frames := frames\<rparr>) error = Return (Err (Rpc msg))"
          using \<open>cs_disconnect s = None\<close> by (simp add: on_attempt_error_def note_transmission_def error Let_def)
        with assms(1) show ?thesis unfolding v by auto
      qed
    next
      case False
      then have "frames \<noteq> [] \<Longrightarrow> snd (note_transmission s error) = Sent"
        using old by (auto simp: frames_def frames_after_def x note_transmission_def split: if_splits)
      with on_attempt_error_honest(1,2) [OF assms(1), of frames error m dl bypass w] assms(1)
      show ?thesis unfolding v by (auto split: if_splits)
    qed
  next
    case Panic
    with exchange_errors(1) [OF x] show ?thesis by simp
  qed
  then show "v = Continue s' \<or> v = Break s' \<Longrightarrow> honest s'"
    and "v = Return (Err e) \<Longrightarrow> request_transmission_of e = Some NotSent \<Longrightarrow> frames_after bypass msg_body data w s = []"
    by (auto simp: frames_def)
qed

lemma call_loop_honest:
  assumes "m = 1 \<or> (\<forall>j. quiet (net j))" and "honest s"
    and "call_loop m dl bypass msg_body data net i s = (Err e, frames)"
    and "request_transmission_of e = Some NotSent"
  shows "frames = []"
  using assms
proof (induction m dl bypass msg_body data net i s rule: call_loop.induct)
  case (1 m dl bypass msg_body data net i s)
  let ?round = "attempt_round m dl bypass msg_body data (net i) s"
  show ?case
  proof (cases "cs_attempt s < m")
    case True
    have calm: "cs_disconnect s = None \<or> quiet (net i)"
      using "1.prems"(1,2) True by (auto simp: honest_def)
    note round = attempt_round_honest [OF "1.prems"(2) calm, of m dl bypass msg_body data]
    show ?thesis
    proof (cases ?round)
      case (Return r)
      with "1.prems"(3) True have "r = Err e" "frames = frames_after bypass msg_body data (net i) s"
        by (auto simp: call_loop.simps [of m])
      with round(2) [of e] Return "1.prems"(4) show ?thesis by simp
    next
      case (Break s')
      with "1.prems"(3) True have "e = give_up s'" "frames = cs_frames s'"
        by (auto simp: call_loop.simps [of m])
      with round(1) Break "1.prems"(4) honest_give_up show ?thesis by blast
    next
      case (Continue s')
      with "1.prems"(3) True have "call_loop m dl bypass msg_body data net (Suc i) s' = (Err e, frames)"
        by (auto simp: call_loop.simps [of m _ _ _ _ _ i])
      with "1.IH" [OF True Continue "1.prems"(1)] round(1) Continue "1.prems"(4) show ?thesis by blast
    qed
  next
    case False
    with "1.prems"(3) have "e = give_up s" "frames = cs_frames s" by (auto simp: call_loop.simps [of m])
    with "1.prems"(2,4) honest_give_up show ?thesis by blast
  qed
qed

text \<open>C22. A call that reports its request as not sent did not send it: when the error says
  \<open>NotSent\<close>, no frame of any attempt had started to be written.  This holds for every call
  with \<open>ONE_ATTEMPT\<close>, which is what mutations use, and for every replay policy as long as no
  connection ends with an RPC-level framing error.\<close>

theorem not_sent_means_not_sent:
  assumes "call_with_data_inner env mux max_attempts bypass start timeout msg_body data net = (Err e, frames)"
    and "request_transmission_of e = Some NotSent"
    and "max_attempts = 1 \<or> (\<forall>i. quiet (net i))"
  shows "frames = []"
proof -
  have "honest call_start" by (simp add: honest_def call_start_def)
  then show ?thesis
    using assms call_loop_honest [of max_attempts net call_start]
    by (auto simp: call_with_data_inner_def Let_def get_mux_def split: outcome.splits if_splits)
qed

text \<open>A connection that is not ready, and one whose reader fails on an oversized fragment.\<close>

definition not_ready :: exchange where
  "not_ready = \<lparr>ex_ready = False, ex_poisoned = False, ex_reader_stopped = False, ex_cut = No_Cut,
     ex_write = None, ex_arrival = No_Reply\<rparr>"

definition bad_fragment :: exchange where
  "bad_fragment = \<lparr>ex_ready = True, ex_poisoned = False, ex_reader_stopped = False, ex_cut = No_Cut,
     ex_write = None, ex_arrival = Reader_Rpc ''RPC fragment size exceeds maximum''\<rparr>"

definition rounds_of :: "exchange \<Rightarrow> exchange \<Rightarrow> nat \<Rightarrow> rpc_round" where
  "rounds_of x y i = \<lparr>rr_now = i, rr_xid = word_of_nat i, rr_exchange = (if i = 0 then x else y),
     rr_disconnect_now = 0, rr_reconnect = Reconnected\<rparr>"

abbreviation no_locals :: task_locals where
  "no_locals \<equiv> \<lparr>tl_budget = None, tl_caller = None\<rparr>"

lemmas evaluate_call = call_with_data_inner_def Let_def cap_deadline_def get_mux_def NFS_PROG_def
  MOUNT_PROG_def call_start_def call_loop.simps attempt_round_def rounds_of_def not_ready_def
  bad_fragment_def send_and_receive_inner_def on_attempt_error_def note_transmission_def transport_def
  is_connection_lost_def on_connection_error_def recovery_new_def RECOVERY_BUDGET_def next_delay_def
  MAX_RECONNECTS_def give_up_def recovery_failure_def frames_after_def

theorem not_sent_means_not_sent_witness:
  "\<exists>e. call_with_data_inner no_locals False 1 False 0 100 [] [] (rounds_of not_ready not_ready) = (Err e, [])
     \<and> request_transmission_of e = Some NotSent"
proof -
  obtain e frames where call: "call_with_data_inner no_locals False 1 False 0 100 [] [] (rounds_of not_ready not_ready) = (Err e, frames)"
    and ns: "request_transmission_of e = Some NotSent"
    by (simp add: evaluate_call)
  from not_sent_means_not_sent [OF call ns] call ns show ?thesis by blast
qed

text \<open>C24. With two or more attempts the report can be wrong, for every request.  The first attempt fails
  before anything is sent because the connection is lost, the reconnect succeeds, the second attempt writes
  the request in time, and the reader of that connection then ends with an RPC error, as it does on an
  oversized fragment.  The call returns the first error, which says that nothing was sent, although the
  request has left the client.\<close>

theorem not_sent_reported_after_sending:
  fixes env start timeout
  defines "deadline \<equiv> cap_deadline env (start + timeout * 3)"
  assumes "get_mux (if length msg_body \<ge> 8 then u32_from_be (take 4 (drop 4 msg_body)) else NFS_PROG) has_mount_mux = Ok mux"
    and "2 \<le> max_attempts" and "rr_now (net 0) < deadline"
    and first: "send_and_receive_inner False (rr_exchange (net 0)) = (False, Err e)"
    and "is_connection_lost e" and "rr_reconnect (net 0) = Reconnected"
    and "rr_now (net 1) < min (rr_disconnect_now (net 0) + RECOVERY_BUDGET) deadline"
    and "send_and_receive_inner False (rr_exchange (net 1)) = (True, Err (Rpc message))"
  shows "call_with_data_inner env has_mount_mux max_attempts False start timeout msg_body data net
      = (Err e, [request_frame (rr_xid (net 1)) msg_body data])
    \<and> request_transmission_of e = Some NotSent"
proof -
  have ns: "request_transmission_of e = Some NotSent" using exchange_errors(2) [OF first] by simp
  let ?r = "(recovery_new e deadline (rr_disconnect_now (net 0)))\<lparr>dr_reconnects := 1\<rparr>"
  let ?s = "call_start\<lparr>cs_attempt := 1, cs_disconnect := Some ?r\<rparr>"
  have one: "attempt_round max_attempts deadline False msg_body data (net 0) call_start = Continue ?s"
    using assms(3-7) ns
    by (simp add: attempt_round_def on_attempt_error_def note_transmission_def on_connection_error_def Let_def
        call_start_def next_delay_def recovery_new_def MAX_RECONNECTS_def)
  have two: "attempt_round max_attempts deadline False msg_body data (net 1) ?s
      = Break (?s\<lparr>cs_frames := [request_frame (rr_xid (net 1)) msg_body data]\<rparr>)"
    using assms(8,9)
    by (simp add: attempt_round_def on_attempt_error_def note_transmission_def Let_def call_start_def recovery_new_def
        min_le_iff_disj not_le)
  have "call_loop max_attempts deadline False msg_body data net 0 call_start
      = call_loop max_attempts deadline False msg_body data net 1 ?s"
    using assms(3) one by (subst call_loop.simps) (simp add: call_start_def)
  also have "\<dots> = (Err e, [request_frame (rr_xid (net 1)) msg_body data])"
    using assms(3) two by (subst call_loop.simps) (simp add: give_up_def recovery_failure_def recovery_new_def call_start_def)
  finally show ?thesis using assms(2) ns by (simp add: call_with_data_inner_def Let_def deadline_def)
qed

theorem not_sent_reported_after_sending_witness:
  "\<exists>e frame. call_with_data_inner no_locals False 2 False 0 100 [] [] (rounds_of not_ready bad_fragment) = (Err e, [frame])
     \<and> request_transmission_of e = Some NotSent"
proof -
  obtain e where e: "send_and_receive_inner False not_ready = (False, Err e)" "is_connection_lost e"
    by (simp add: send_and_receive_inner_def not_ready_def is_connection_lost_def transport_def)
  have sent: "send_and_receive_inner False bad_fragment = (True, Err (Rpc ''RPC fragment size exceeds maximum''))"
    by (simp add: send_and_receive_inner_def bad_fragment_def)
  show ?thesis
    using not_sent_reported_after_sending [where net = "rounds_of not_ready bad_fragment" and env = no_locals
        and start = 0 and timeout = 100 and msg_body = "[]" and data = "[]" and max_attempts = 2
        and has_mount_mux = False and mux = False and e = e and message = "''RPC fragment size exceeds maximum''"] e sent
    by (simp add: rounds_of_def get_mux_def NFS_PROG_def MOUNT_PROG_def cap_deadline_def RECOVERY_BUDGET_def)
qed

end
