(* ===== verification/Layout.thy ===== *)
theory Layout
  imports Compound41 Std_Text "HOL-Library.Product_Lexorder"
begin

text \<open>
  pNFS layouts on the wire (\<open>src/src/nfs41/layout.rs\<close>): the decoders of LAYOUTGET and GETDEVICEINFO
  results, the text form of a data-server address with the IPv6 parser of the standard library,
  and the choice among the addresses of a data server.

  The decoder is shown to agree with the COMPOUND decoder on where a LAYOUTGET result ends, to
  read back what a server encodes, and never to panic.
\<close>

subsection \<open>Types\<close>

datatype layout_type = NfsV41Files | Osd2Objects | BlockVolume

datatype io_mode = Io_Read | Io_ReadWrite

datatype layout_content =
    FilesLayout (fl_device_id: bytes) (fl_stripe_unit: u32) (fl_is_dense: bool)
      (fl_commit_thru_mds: bool) (fl_first_stripe_index: u32) (fl_pattern_offset: u64)
      (fl_fh_list: "bytes list")
  | Opaque bytes

record layout_segment =
  seg_offset :: u64
  seg_length :: u64
  seg_iomode :: io_mode
  seg_layout_type :: layout_type
  seg_content :: layout_content

record layout =
  lo_generation :: u64
  lo_stateid :: bytes
  lo_return_on_close :: bool
  lo_segments :: "layout_segment list"

text \<open>\<open>SocketAddr\<close>: address and port, for IPv6 also flow information and scope.\<close>

datatype socket_addr = SocketV4 u32 u16 | SocketV6 "128 word" u16 u32 u32

record device_info =
  di_stripe_indices :: "u32 list"
  di_ds_addrs :: "socket_addr list list"

definition covers :: "layout_segment \<Rightarrow> u64 \<Rightarrow> bool" where
  "covers s offset \<longleftrightarrow> offset \<ge> seg_offset s \<and>
     (seg_length s = - 1
      \<or> (case checked_add (seg_offset s) (seg_length s) of None \<Rightarrow> True | Some end \<Rightarrow> offset < end))"

definition segment_end :: "layout_segment \<Rightarrow> u64" where
  "segment_end s = (if seg_length s = - 1 then - 1 else saturating_add (seg_offset s) (seg_length s))"

definition layout_segments_overlap :: "layout_segment \<Rightarrow> layout_segment \<Rightarrow> bool" where
  "layout_segments_overlap left right \<longleftrightarrow>
     seg_offset left < segment_end right \<and> seg_offset right < segment_end left"

subsection \<open>LAYOUTGET results\<close>

definition NFL4_UFLG_DENSE :: u32 where "NFL4_UFLG_DENSE = 0x00000001"
definition NFL4_UFLG_COMMIT_THRU_MDS :: u32 where "NFL4_UFLG_COMMIT_THRU_MDS = 0x00000002"
definition NFL4_UFLG_STRIPE_UNIT_SIZE_MASK :: u32 where "NFL4_UFLG_STRIPE_UNIT_SIZE_MASK = 0xFFFFFFC0"

definition files_fh :: "(bytes, nfs_error) reader" where
  "files_fh =
     rbind (need 4 (Xdr ''files_layout fh truncated'')) (\<lambda>_.
     rbind get_u32 (\<lambda>fh_len.
     rbind (need (pad_up (unat fh_len)) (Xdr ''files_layout fh data truncated'')) (\<lambda>_.
     slice_advance (unat fh_len) (pad_up (unat fh_len)))))"

definition decode_files_layout :: "(layout_content, nfs_error) reader" where
  "decode_files_layout =
     rbind (need 16 (Xdr ''files_layout deviceid truncated'')) (\<lambda>_.
     rbind (get_bytes 16) (\<lambda>device_id.
     rbind (need 4 (Xdr ''files_layout nfl_util truncated'')) (\<lambda>_.
     rbind get_u32 (\<lambda>nfl_util.
     rbind (need 4 (Xdr ''files_layout first_stripe_index truncated'')) (\<lambda>_.
     rbind get_u32 (\<lambda>first_stripe_index.
     rbind (need 8 (Xdr ''files_layout pattern_offset truncated'')) (\<lambda>_.
     rbind get_u64 (\<lambda>pattern_offset.
     rbind (need 4 (Xdr ''files_layout fh_list length truncated'')) (\<lambda>_.
     rbind get_u32 (\<lambda>num_fhs.
     if unat num_fhs > 4096
     then rfail (Xdr (''files_layout has '' @ show_nat (unat num_fhs) @ '' FHs, max 4096''))
     else rbind (read_n (unat num_fhs) files_fh) (\<lambda>fh_list.
     rreturn (FilesLayout device_id
       (nfl_util AND NFL4_UFLG_STRIPE_UNIT_SIZE_MASK)
       (nfl_util AND NFL4_UFLG_DENSE \<noteq> 0)
       (nfl_util AND NFL4_UFLG_COMMIT_THRU_MDS \<noteq> 0)
       first_stripe_index pattern_offset fh_list))))))))))))"

definition iomode_of :: "u32 \<Rightarrow> io_mode" where
  "iomode_of v = (if v = 1 then Io_Read else if v = 2 then Io_ReadWrite else Io_Read)"

definition layout_type_of :: "u32 \<Rightarrow> layout_type" where
  "layout_type_of v =
     (if v = 1 then NfsV41Files else if v = 2 then Osd2Objects else if v = 3 then BlockVolume
      else NfsV41Files)"

text \<open>\<open>split_to\<close> followed by the optional advance over the padding.\<close>

definition split_padded :: "nat \<Rightarrow> (bytes, nfs_error) reader" where
  "split_padded len =
     rbind (get_bytes len) (\<lambda>content.
     (\<lambda>d. if length d \<ge> pad_up len - len then rbind (advance (pad_up len - len)) (\<lambda>_. rreturn content) d
          else rreturn content d))"

definition decode_layout_segment :: "(layout_segment, nfs_error) reader" where
  "decode_layout_segment =
     rbind (need 24 (Xdr ''layout4 segment header truncated'')) (\<lambda>_.
     rbind get_u64 (\<lambda>offset.
     rbind get_u64 (\<lambda>len.
     rbind get_u32 (\<lambda>iomode_val.
     rbind get_u32 (\<lambda>layout_type_val.
     rbind (need 4 (Xdr ''layout_content length truncated'')) (\<lambda>_.
     rbind get_u32 (\<lambda>content_len.
     rbind (need (pad_up (unat content_len)) (Xdr ''layout_content data truncated'')) (\<lambda>_.
     rbind (split_padded (unat content_len)) (\<lambda>content_data.
     rbind (if layout_type_of layout_type_val = NfsV41Files then lift (run decode_files_layout content_data)
            else rreturn (Opaque content_data)) (\<lambda>content.
     rreturn \<lparr>seg_offset = offset, seg_length = len, seg_iomode = iomode_of iomode_val,
       seg_layout_type = layout_type_of layout_type_val, seg_content = content\<rparr>))))))))))"

definition decode_layoutget_response :: "(layout, nfs_error) reader" where
  "decode_layoutget_response =
     rbind (need 4 (Xdr ''LAYOUTGET return_on_close truncated'')) (\<lambda>_.
     rbind get_u32 (\<lambda>return_on_close.
     rbind (need 16 (Xdr ''LAYOUTGET stateid truncated'')) (\<lambda>_.
     rbind (get_bytes 16) (\<lambda>stateid.
     rbind (need 4 (Xdr ''LAYOUTGET segments array truncated'')) (\<lambda>_.
     rbind get_u32 (\<lambda>num_segments.
     if unat num_segments > 1024
     then rfail (Xdr (''LAYOUTGET has '' @ show_nat (unat num_segments) @ '' segments, max 1024''))
     else rbind (read_n (unat num_segments) decode_layout_segment) (\<lambda>segments.
     rreturn \<lparr>lo_generation = 0, lo_stateid = stateid, lo_return_on_close = return_on_close \<noteq> 0,
       lo_segments = segments\<rparr>)))))))"

subsection \<open>Addresses in text form\<close>

text \<open>\<open>Ipv6Addr::from_str\<close> of the standard library.  A parser takes the bytes left and returns a
  value with the bytes behind it.\<close>

definition digit_value :: "u8 \<Rightarrow> nat option" where
  "digit_value b =
     (let n = unat b in
      if 48 \<le> n \<and> n \<le> 57 then Some (n - 48)
      else if 97 \<le> n \<and> n \<le> 102 then Some (n - 87)
      else if 65 \<le> n \<and> n \<le> 70 then Some (n - 55)
      else None)"

definition is_digit :: "nat \<Rightarrow> u8 \<Rightarrow> bool" where
  "is_digit radix b = (case digit_value b of Some v \<Rightarrow> v < radix | None \<Rightarrow> False)"

definition read_number :: "nat \<Rightarrow> nat \<Rightarrow> bool \<Rightarrow> nat \<Rightarrow> bytes \<Rightarrow> (nat \<times> bytes) option" where
  "read_number radix max_digits allow_zero_prefix bound s =
     (let ds = takeWhile (is_digit radix) s;
          v = foldl (\<lambda>acc b. acc * radix + (case digit_value b of Some v \<Rightarrow> v | None \<Rightarrow> 0)) 0 ds
      in if length ds > max_digits \<or> ds = []
            \<or> (\<not> allow_zero_prefix \<and> hd ds = 48 \<and> length ds > 1) \<or> \<not> v < bound
         then None else Some (v, drop (length ds) s))"

definition read_separator :: "u8 \<Rightarrow> nat \<Rightarrow> (bytes \<Rightarrow> ('a \<times> bytes) option) \<Rightarrow> bytes \<Rightarrow> ('a \<times> bytes) option" where
  "read_separator sep i inner s =
     (if i = 0 then inner s else case s of b # r \<Rightarrow> if b = sep then inner r else None | [] \<Rightarrow> None)"

fun read_octets :: "nat \<Rightarrow> nat \<Rightarrow> bytes \<Rightarrow> (nat list \<times> bytes) option" where
  "read_octets 0 i s = Some ([], s)"
| "read_octets (Suc k) i s =
     (case read_separator 46 i (read_number 10 3 False 256) s of
        None \<Rightarrow> None
      | Some (v, r) \<Rightarrow> map_option (\<lambda>(vs, r'). (v # vs, r')) (read_octets k (Suc i) r))"

text \<open>The groups read, whether they end with an embedded IPv4 address, and the bytes left; \<open>k\<close>
  is the number of groups still free.\<close>

fun read_groups :: "nat \<Rightarrow> nat \<Rightarrow> bytes \<Rightarrow> nat list \<times> bool \<times> bytes" where
  "read_groups 0 i s = ([], False, s)"
| "read_groups (Suc k) i s =
     (case (if k \<ge> 1 then read_separator 58 i (read_octets 4 0) s else None) of
        Some (os, r) \<Rightarrow> ([os ! 0 * 256 + os ! 1, os ! 2 * 256 + os ! 3], True, r)
      | None \<Rightarrow>
          (case read_separator 58 i (read_number 16 4 True 65536) s of
             Some (g, r) \<Rightarrow> (let (gs, v4, r') = read_groups k (Suc i) r in (g # gs, v4, r'))
           | None \<Rightarrow> ([], False, s)))"

definition read_ipv6_addr :: "bytes \<Rightarrow> (nat list \<times> bytes) option" where
  "read_ipv6_addr s =
     (let (head, head_ipv4, r) = read_groups 8 0 s in
      if length head = 8 then Some (head, r)
      else if head_ipv4 then None
      else case r of
             a # b # r' \<Rightarrow>
               if a = 58 \<and> b = 58
               then let (tail, _, r'') = read_groups (8 - (length head + 1)) 0 r'
                    in Some (head @ replicate (8 - length head - length tail) 0 @ tail, r'')
               else None
           | _ \<Rightarrow> None)"

definition parse_ipv6 :: "bytes \<Rightarrow> 128 word option" where
  "parse_ipv6 s =
     (case read_ipv6_addr s of
        Some (groups, []) \<Rightarrow> Some (foldl (\<lambda>acc g. acc * 65536 + word_of_nat g) 0 groups)
      | _ \<Rightarrow> None)"

definition parse_u8 :: "bytes \<Rightarrow> u8 result" where
  "parse_u8 s =
     (case parse_uint s of
        Some v \<Rightarrow> Ok v
      | None \<Rightarrow> Err (Xdr (''invalid address octet: '' @ quoted s)))"

text \<open>\<open>p1 * 256 + p2\<close> on \<open>u16\<close> values made from bytes.\<close>

definition port_of :: "u8 \<Rightarrow> u8 \<Rightarrow> u16" where
  "port_of p1 p2 = ucast p1 * 256 + ucast p2"

definition ipv4_of :: "u8 \<Rightarrow> u8 \<Rightarrow> u8 \<Rightarrow> u8 \<Rightarrow> u32" where
  "ipv4_of a b c d = u32_from_be [a, b, c, d]"

definition parse_tcp :: "bytes \<Rightarrow> socket_addr result" where
  "parse_tcp r_addr =
     (case split_on 46 r_addr of
        [h1, h2, h3, h4, p1, p2] \<Rightarrow>
          and_then (parse_u8 h1) (\<lambda>a. and_then (parse_u8 h2) (\<lambda>b.
          and_then (parse_u8 h3) (\<lambda>c. and_then (parse_u8 h4) (\<lambda>d.
          and_then (parse_u8 p1) (\<lambda>p. and_then (parse_u8 p2) (\<lambda>q.
          Ok (SocketV4 (ipv4_of a b c d) (port_of p q))))))))
      | _ \<Rightarrow> Err (Xdr (''invalid tcp r_addr (expected 6 dot-separated fields): '' @ quoted r_addr)))"

definition parse_tcp6 :: "bytes \<Rightarrow> socket_addr result" where
  "parse_tcp6 r_addr =
     (case rfind 46 r_addr of
        None \<Rightarrow> Err (Xdr (''invalid tcp6 r_addr (missing port): '' @ quoted r_addr))
      | Some last_dot \<Rightarrow>
          (case rfind 46 (take last_dot r_addr) of
             None \<Rightarrow> Err (Xdr (''invalid tcp6 r_addr (missing port octets): '' @ quoted r_addr))
           | Some dot2 \<Rightarrow>
               let ip_part = take dot2 r_addr; port_part = drop (dot2 + 1) r_addr in
               (case split_on 46 port_part of
                  [o1, o2] \<Rightarrow>
                    and_then (parse_u8 o1) (\<lambda>p1. and_then (parse_u8 o2) (\<lambda>p2.
                    case parse_ipv6 ip_part of
                      Some ip \<Rightarrow> Ok (SocketV6 ip (port_of p1 p2) 0 0)
                    | None \<Rightarrow> Err (Xdr (''invalid IPv6 address: '' @ quoted ip_part))))
                | _ \<Rightarrow> Err (Xdr (''invalid tcp6 r_addr port part: '' @ quoted r_addr)))))"

definition parse_netaddr4 :: "bytes \<Rightarrow> bytes \<Rightarrow> socket_addr result" where
  "parse_netaddr4 r_netid r_addr =
     (if r_netid = str_bytes ''tcp'' then parse_tcp r_addr
      else if r_netid = str_bytes ''tcp6'' then parse_tcp6 r_addr
      else Err (Xdr (''unsupported netid: '' @ quoted r_netid)))"

subsection \<open>GETDEVICEINFO results\<close>

definition read_xdr_string :: "(bytes, nfs_error) reader" where
  "read_xdr_string =
     rbind (need 4 (Xdr ''XDR string length truncated'')) (\<lambda>_.
     rbind get_u32 (\<lambda>len.
     rbind (need (pad_up (unat len)) (Xdr ''XDR string data truncated'')) (\<lambda>_.
     (\<lambda>d. case from_utf8 (take (unat len) d) of
            Ok s \<Rightarrow> rbind (advance (pad_up (unat len))) (\<lambda>_. rreturn s) d
          | _ \<Rightarrow> Err (Xdr ''XDR string not valid UTF-8'')))))"

definition decode_netaddr :: "(socket_addr, nfs_error) reader" where
  "decode_netaddr =
     rbind read_xdr_string (\<lambda>r_netid.
     rbind read_xdr_string (\<lambda>r_addr.
     lift (parse_netaddr4 r_netid r_addr)))"

definition decode_multipath :: "(socket_addr list, nfs_error) reader" where
  "decode_multipath =
     rbind (need 4 (Xdr ''GETDEVICEINFO multipath_list length truncated'')) (\<lambda>_.
     rbind get_u32 (\<lambda>num_addrs.
     if unat num_addrs > 256
     then rfail (Xdr (''GETDEVICEINFO DS has '' @ show_nat (unat num_addrs) @ '' addresses, max 256''))
     else read_n (unat num_addrs) decode_netaddr))"

definition decode_ds_addr :: "(device_info, nfs_error) reader" where
  "decode_ds_addr =
     rbind (need 4 (Xdr ''GETDEVICEINFO stripe_indices length truncated'')) (\<lambda>_.
     rbind get_u32 (\<lambda>num_indices.
     if unat num_indices > 4096
     then rfail (Xdr (''GETDEVICEINFO has '' @ show_nat (unat num_indices) @ '' stripe_indices, max 4096''))
     else rbind (need (unat num_indices * 4) (Xdr ''GETDEVICEINFO stripe_indices data truncated'')) (\<lambda>_.
     rbind (read_n (unat num_indices) get_u32) (\<lambda>stripe_indices.
     rbind (need 4 (Xdr ''GETDEVICEINFO multipath_ds_list length truncated'')) (\<lambda>_.
     rbind get_u32 (\<lambda>num_ds.
     if unat num_ds > 4096
     then rfail (Xdr (''GETDEVICEINFO has '' @ show_nat (unat num_ds) @ '' data servers, max 4096''))
     else rbind (read_n (unat num_ds) decode_multipath) (\<lambda>ds_addrs.
     rreturn \<lparr>di_stripe_indices = stripe_indices, di_ds_addrs = ds_addrs\<rparr>)))))))"

definition decode_getdeviceinfo_response :: "(device_info, nfs_error) reader" where
  "decode_getdeviceinfo_response =
     rbind (need 4 (Xdr ''GETDEVICEINFO layout_type truncated'')) (\<lambda>_.
     rbind get_u32 (\<lambda>layout_type.
     if layout_type \<noteq> 1
     then rfail (Xdr (''GETDEVICEINFO unsupported layout type: '' @ show_nat (unat layout_type)))
     else rbind (need 4 (Xdr ''GETDEVICEINFO da_addr_body length truncated'')) (\<lambda>_.
     rbind get_u32 (\<lambda>body_len.
     rbind (need (pad_up (unat body_len)) (Xdr ''GETDEVICEINFO da_addr_body truncated'')) (\<lambda>_.
     rbind (split_padded (unat body_len)) (\<lambda>body.
     lift (run decode_ds_addr body)))))))"

subsection \<open>Choice of an address\<close>

definition is_degenerate_device :: "device_info \<Rightarrow> socket_addr \<Rightarrow> bool" where
  "is_degenerate_device device server_addr \<longleftrightarrow>
     di_ds_addrs device \<noteq> []
     \<and> list_all (\<lambda>paths. case paths of p # _ \<Rightarrow> p = server_addr | [] \<Rightarrow> False) (di_ds_addrs device)"

definition word_leading_zeros :: "'a::len word \<Rightarrow> u32" where
  "word_leading_zeros w = word_of_nat (length (takeWhile (\<lambda>i. \<not> bit w i) (rev [0..<LENGTH('a)])))"

definition addr_prefix_len :: "socket_addr \<Rightarrow> socket_addr \<Rightarrow> u32" where
  "addr_prefix_len a b =
     (case (a, b) of
        (SocketV4 x _, SocketV4 y _) \<Rightarrow> word_leading_zeros (x XOR y)
      | (SocketV6 x _ _ _, SocketV6 y _ _ _) \<Rightarrow> word_leading_zeros (x XOR y)
      | _ \<Rightarrow> 0)"

definition is_ipv4 :: "socket_addr \<Rightarrow> bool" where
  "is_ipv4 a = (case a of SocketV4 _ _ \<Rightarrow> True | SocketV6 _ _ _ _ \<Rightarrow> False)"

definition affinity_key :: "socket_addr \<Rightarrow> socket_addr \<Rightarrow> bool \<times> bool \<times> u32" where
  "affinity_key server_addr addr =
     (addr \<noteq> server_addr, is_ipv4 addr \<noteq> is_ipv4 server_addr, - 1 - addr_prefix_len addr server_addr)"

definition sort_multipath_by_affinity :: "device_info \<Rightarrow> socket_addr \<Rightarrow> device_info" where
  "sort_multipath_by_affinity info server_addr =
     info\<lparr>di_ds_addrs := map (sort_key (affinity_key server_addr)) (di_ds_addrs info)\<rparr>"


subsection \<open>The decoders do not panic\<close>

lemma split_padded_safe [reader_safe]:
  "k \<le> n \<Longrightarrow> (\<And>x. safe_with 0 (f x)) \<Longrightarrow> safe_with n (rbind (split_padded k) f)"
  by (rule safe_rbind) (auto simp: split_padded_def safe_with_def rbind_def get_bytes_def advance_def rreturn_def)

lemma files_fh_safe [simp]: "safe_with n files_fh"
  unfolding files_fh_def by (rule safe_any) (rule reader_safe | rule safe_rbind | simp)+

lemma decode_files_layout_safe [simp]: "safe_with n decode_files_layout"
  unfolding decode_files_layout_def
  by (rule safe_any) (rule reader_safe safe_read_n | rule safe_rbind | simp split: if_split | intro conjI impI)+

lemma decode_layout_segment_safe [simp]: "safe_with n decode_layout_segment"
  unfolding decode_layout_segment_def
  by (rule safe_any) (rule reader_safe | rule safe_rbind | simp | intro conjI impI)+

lemma decode_layoutget_response_safe: "safe_with n decode_layoutget_response"
  unfolding decode_layoutget_response_def
  by (rule safe_any) (rule reader_safe safe_read_n | rule safe_rbind | simp | intro conjI impI)+

subsection \<open>Agreement with the COMPOUND decoder\<close>

lemma split_padded_eq_Ok:
  "pad_up len \<le> length d \<Longrightarrow> split_padded len d = Ok (x, d') \<longleftrightarrow> x = take len d \<and> d' = drop (pad_up len) d"
  using le_trans [OF pad_up_ge [of len], of "length d"]
  by (auto simp: split_padded_def rbind_def get_bytes_def advance_def rreturn_def)

lemma skip_segment_of_decode:
  assumes "decode_layout_segment d = Ok (s, d')" shows "skip_layout_segment d = Ok ((), d')"
proof -
  from assms obtain a b c e n body where
    d: "d = u64_to_be a @ u64_to_be b @ u32_to_be c @ u32_to_be e @ u32_to_be n @ body"
    and n: "pad_up (unat n) \<le> length body" and d': "d' = drop (pad_up (unat n)) body"
    by (auto simp: decode_layout_segment_def reader_eq_Ok get_u32_split get_u64_split split_padded_eq_Ok
        rreturn_def simp del: get_u32_eq_Ok split: if_splits)
  have "skip_n 24 what d = Ok ((), u32_to_be n @ body)" for what
    using skip_n_enc [of "u64_to_be a @ u64_to_be b @ u32_to_be c @ u32_to_be e" 24] unfolding d by simp
  then show ?thesis
    using n skip_n_enc [of "take (pad_up (unat n)) body" "pad_up (unat n)" _ "drop (pad_up (unat n)) body"]
    by (simp add: skip_layout_segment_def rbind_def [of "skip_n _ _"] skip_var_bytes_def d')
qed

lemma decode_layoutget_response_Ok:
  assumes "decode_layoutget_response d = Ok (l, d')"
  obtains r n body where "d = u32_to_be r @ lo_stateid l @ u32_to_be n @ body" "length (lo_stateid l) = 16"
    "unat n \<le> 1024" "read_n (unat n) decode_layout_segment body = Ok (lo_segments l, d')"
proof -
  have if_fail: "(if c then rfail e else m) x = Ok y \<longleftrightarrow> \<not> c \<and> m x = Ok y" for c e m x y
    by (simp add: rfail_def)
  from assms show ?thesis
    unfolding decode_layoutget_response_def rbind_eq_Ok need_eq_Ok get_u32_split get_bytes_eq_Ok if_fail rreturn_def
    by (auto intro: that)
qed

text \<open>C30. The COMPOUND decoder skips a LAYOUTGET result without understanding it; where the layout
  decoder accepts the result, both stop at the same byte, so the operations behind it are read
  from where they start.\<close>

theorem layoutget_skip_agrees:
  assumes "decode_layoutget_response d = Ok (l, d')"
  shows "skip_op_result (op_code Op_LayoutGet) 0 d = Ok ((), d')"
proof -
  from assms obtain r n body where d: "d = u32_to_be r @ lo_stateid l @ u32_to_be n @ body"
    and len: "length (lo_stateid l) = 16" "unat n \<le> 1024"
    and segs: "read_n (unat n) decode_layout_segment body = Ok (lo_segments l, d')"
    by (rule decode_layoutget_response_Ok)
  have "read_n (unat n) skip_layout_segment body = Ok (replicate (unat n) (), d')"
    using segs by (rule read_n_skip [rotated]) (rule skip_segment_of_decode)
  moreover have "skip_stateid4 (lo_stateid l @ u32_to_be n @ body) = Ok ((), u32_to_be n @ body)"
    using len by (simp add: skip_stateid4_def skip_n_enc)
  moreover have "skip_op_result (op_code Op_LayoutGet) 0 = skip_layoutget_result"
    by (simp add: skip_op_result_def result_arms_def)
  ultimately show ?thesis
    using len by (simp add: d skip_layoutget_result_def rbind_def [of skip_stateid4] rbind_def [of "read_n _ _"]
        forget_def MAX_LAYOUT_SEGMENTS_def rreturn_def)
qed

subsection \<open>What a server encodes is read back\<close>

text \<open>The encodings of RFC 5661 for the values the decoder can return.\<close>

definition nfl_util_enc :: "u32 \<Rightarrow> bool \<Rightarrow> bool \<Rightarrow> u32" where
  "nfl_util_enc stripe_unit is_dense commit_thru_mds =
     stripe_unit OR (if is_dense then NFL4_UFLG_DENSE else 0)
     OR (if commit_thru_mds then NFL4_UFLG_COMMIT_THRU_MDS else 0)"

fun content_enc :: "layout_content \<Rightarrow> bytes" where
  "content_enc (FilesLayout device_id stripe_unit is_dense commit_thru_mds first_stripe_index pattern_offset fh_list) =
     device_id @ u32_to_be (nfl_util_enc stripe_unit is_dense commit_thru_mds) @ u32_to_be first_stripe_index
     @ u64_to_be pattern_offset @ u32_to_be (word_of_nat (length fh_list)) @ concat (map opaque_enc fh_list)"
| "content_enc (Opaque content) = content"

primrec iomode_code :: "io_mode \<Rightarrow> u32" where
  "iomode_code Io_Read = 1"
| "iomode_code Io_ReadWrite = 2"

primrec layout_type_code :: "layout_type \<Rightarrow> u32" where
  "layout_type_code NfsV41Files = 1"
| "layout_type_code Osd2Objects = 2"
| "layout_type_code BlockVolume = 3"

definition segment_enc :: "layout_segment \<Rightarrow> bytes" where
  "segment_enc s = u64_to_be (seg_offset s) @ u64_to_be (seg_length s) @ u32_to_be (iomode_code (seg_iomode s))
     @ u32_to_be (layout_type_code (seg_layout_type s)) @ opaque_enc (content_enc (seg_content s))"

definition layout_enc :: "layout \<Rightarrow> bytes" where
  "layout_enc l = u32_to_be (of_bool (lo_return_on_close l)) @ lo_stateid l
     @ u32_to_be (word_of_nat (length (lo_segments l))) @ concat (map segment_enc (lo_segments l))"

fun valid_content :: "layout_type \<Rightarrow> layout_content \<Rightarrow> bool" where
  "valid_content NfsV41Files (FilesLayout device_id stripe_unit _ _ _ _ fh_list) \<longleftrightarrow>
     length device_id = 16 \<and> stripe_unit AND NFL4_UFLG_STRIPE_UNIT_SIZE_MASK = stripe_unit
     \<and> length fh_list \<le> 4096 \<and> list_all (\<lambda>fh. length fh < 2 ^ 32) fh_list"
| "valid_content NfsV41Files (Opaque _) \<longleftrightarrow> False"
| "valid_content _ (FilesLayout _ _ _ _ _ _ _) \<longleftrightarrow> False"
| "valid_content _ (Opaque _) \<longleftrightarrow> True"

definition valid_segment :: "layout_segment \<Rightarrow> bool" where
  "valid_segment s \<longleftrightarrow> valid_content (seg_layout_type s) (seg_content s) \<and> length (content_enc (seg_content s)) < 2 ^ 32"

definition valid_layout :: "layout \<Rightarrow> bool" where
  "valid_layout l \<longleftrightarrow> lo_generation l = 0 \<and> length (lo_stateid l) = 16 \<and> length (lo_segments l) \<le> 1024
     \<and> list_all valid_segment (lo_segments l)"

lemma nfl_util_enc:
  assumes "su AND NFL4_UFLG_STRIPE_UNIT_SIZE_MASK = su"
  shows "nfl_util_enc su dense thru AND NFL4_UFLG_STRIPE_UNIT_SIZE_MASK = su"
    "nfl_util_enc su dense thru AND NFL4_UFLG_DENSE \<noteq> 0 \<longleftrightarrow> dense"
    "nfl_util_enc su dense thru AND NFL4_UFLG_COMMIT_THRU_MDS \<noteq> 0 \<longleftrightarrow> thru"
proof -
  have low: "su AND NFL4_UFLG_DENSE = 0" "su AND NFL4_UFLG_COMMIT_THRU_MDS = 0"
    by (subst assms [symmetric], simp add: and.assoc NFL4_UFLG_STRIPE_UNIT_SIZE_MASK_def NFL4_UFLG_DENSE_def
        NFL4_UFLG_COMMIT_THRU_MDS_def)+
  show "nfl_util_enc su dense thru AND NFL4_UFLG_STRIPE_UNIT_SIZE_MASK = su"
    using assms by (simp add: nfl_util_enc_def bit.conj_disj_distrib2 NFL4_UFLG_DENSE_def NFL4_UFLG_COMMIT_THRU_MDS_def
        NFL4_UFLG_STRIPE_UNIT_SIZE_MASK_def)
  show "nfl_util_enc su dense thru AND NFL4_UFLG_DENSE \<noteq> 0 \<longleftrightarrow> dense"
    "nfl_util_enc su dense thru AND NFL4_UFLG_COMMIT_THRU_MDS \<noteq> 0 \<longleftrightarrow> thru"
    using low by (simp_all add: nfl_util_enc_def bit.conj_disj_distrib2 NFL4_UFLG_DENSE_def NFL4_UFLG_COMMIT_THRU_MDS_def)
qed

interpretation fh: codec opaque_enc files_fh "\<lambda>v. length v < 2 ^ 32"
  by unfold_locales (simp add: files_fh_def opaque_enc_def unat_of_nat_small slice_advance_def pad_up_eq)

lemma decode_files_layout_enc:
  "valid_content NfsV41Files c \<Longrightarrow> run decode_files_layout (content_enc c) = Ok c"
proof (cases c)
  case (FilesLayout dev su dense thru fsi po fhs)
  assume v: "valid_content NfsV41Files c"
  then have n: "unat (word_of_nat (length fhs) :: u32) = length fhs" "length fhs \<le> 4096"
    by (auto simp: FilesLayout unat_of_nat_small)
  have "read_n (length fhs) files_fh (concat (map opaque_enc fhs)) = Ok (fhs, [])"
    using fh.read_n_enc [of fhs "[]"] v by (simp add: FilesLayout)
  with v n show ?thesis
    by (simp add: FilesLayout run_def decode_files_layout_def rbind_def [of "read_n _ _"] rreturn_def nfl_util_enc
        del: word_of_nat_eq_0_iff)
qed simp

interpretation segment: codec segment_enc decode_layout_segment valid_segment
proof
  fix s d
  assume v: "valid_segment s"
  let ?c = "content_enc (seg_content s)"
  have n: "unat (word_of_nat (length ?c) :: u32) = length ?c" using v by (simp add: valid_segment_def unat_of_nat_small)
  have split: "split_padded (length ?c) (?c @ replicate (pad_len (length ?c)) 0 @ d) = Ok (?c, d)"
    by (simp add: split_padded_eq_Ok pad_up_eq)
  have content: "(if layout_type_of (layout_type_code (seg_layout_type s)) = NfsV41Files
        then lift (run decode_files_layout ?c) else rreturn (Opaque ?c)) d = Ok (seg_content s, d)"
    using v decode_files_layout_enc [of "seg_content s"]
    by (cases "seg_layout_type s"; cases "seg_content s")
      (simp_all add: valid_segment_def layout_type_of_def lift_def rreturn_def)
  show "decode_layout_segment (segment_enc s @ d) = Ok (s, d)"
    using content
    by (simp add: decode_layout_segment_def segment_enc_def opaque_enc_def n pad_up_eq rbind_def [of "split_padded _"] split
        rbind_def [of "If _ _ _"] rreturn_def) (cases "seg_layout_type s"; cases "seg_iomode s"; simp add: layout_type_of_def iomode_of_def)
qed

interpretation layoutget: codec layout_enc decode_layoutget_response valid_layout
proof
  fix l :: layout and d
  assume v: "valid_layout l"
  have n: "unat (word_of_nat (length (lo_segments l)) :: u32) = length (lo_segments l)" "length (lo_segments l) \<le> 1024"
    using v by (simp_all add: valid_layout_def unat_of_nat_small)
  have "read_n (length (lo_segments l)) decode_layout_segment (concat (map segment_enc (lo_segments l)) @ d) = Ok (lo_segments l, d)"
    using segment.read_n_enc [of "lo_segments l" d] v by (simp add: valid_layout_def)
  then show "decode_layoutget_response (layout_enc l @ d) = Ok (l, d)"
    using v n by (cases l) (simp add: decode_layoutget_response_def layout_enc_def valid_layout_def
        rbind_def [of "read_n _ _"] rreturn_def del: word_of_nat_eq_0_iff)
qed

text \<open>A granted layout survives the wire: the decoder returns exactly the layout the server
  encoded, segment by segment with its stripe unit, packing, commit path and file handles, and
  stops at the byte behind it.\<close>

theorem layoutget_roundtrip:
  assumes "valid_layout l"
  shows "decode_layoutget_response (layout_enc l @ d) = Ok (l, d)"
  using assms by (rule layoutget.dec_enc)

definition sample_layout :: layout where
  "sample_layout = \<lparr>lo_generation = 0, lo_stateid = replicate 16 3, lo_return_on_close = True,
     lo_segments = [\<lparr>seg_offset = 0, seg_length = - 1, seg_iomode = Io_ReadWrite, seg_layout_type = NfsV41Files,
       seg_content = FilesLayout (replicate 16 9) 65536 True False 1 0 [[1, 2, 3]]\<rparr>]\<rparr>"

lemma sample_layout_valid: "valid_layout sample_layout"
  by (simp add: valid_layout_def sample_layout_def valid_segment_def NFL4_UFLG_STRIPE_UNIT_SIZE_MASK_def opaque_enc_def
      pad_len_def)

theorem layoutget_roundtrip_witness:
  "decode_layoutget_response (layout_enc sample_layout @ [5]) = Ok (sample_layout, [5])"
  by (rule layoutget_roundtrip [OF sample_layout_valid])

theorem layoutget_skip_agrees_witness:
  "skip_op_result (op_code Op_LayoutGet) 0 (layout_enc sample_layout @ [5]) = Ok ((), [5])"
  by (rule layoutget_skip_agrees [OF layoutget.dec_enc [OF sample_layout_valid]])

subsection \<open>Address text\<close>

definition octet_text :: "u8 \<Rightarrow> bytes" where
  "octet_text b = str_bytes (show_nat (unat b))"

text \<open>The universal address of an IPv4 endpoint.\<close>

definition tcp_text :: "u8 \<Rightarrow> u8 \<Rightarrow> u8 \<Rightarrow> u8 \<Rightarrow> u16 \<Rightarrow> bytes" where
  "tcp_text a b c d port =
     octet_text a @ 46 # octet_text b @ 46 # octet_text c @ 46 # octet_text d @ 46
     # octet_text (ucast (drop_bit 8 port)) @ 46 # octet_text (ucast port)"

lemma octet_text_no_dot [simp]: "46 \<notin> set (octet_text b)"
  using str_bytes_digits [of 46 "unat b"] by (auto simp: octet_text_def)

lemma parse_octet_text [simp]: "parse_u8 (octet_text b) = Ok b"
  by (simp add: parse_u8_def octet_text_def parse_uint_show)

lemma port_of_parts [simp]: "port_of (ucast (drop_bit 8 port)) (ucast port) = port" for port :: u16
proof -
  have p: "unat port < 65536" using unat_word_less_exp [of port] by simp
  have hi: "unat (ucast (drop_bit 8 port) :: u8) = unat port div 256"
    using p by (simp add: unsigned_ucast_eq unsigned_drop_bit_eq take_bit_eq_mod drop_bit_eq_div unat_div)
  have lo: "unat (ucast port :: u8) = unat port mod 256" by (simp add: unsigned_ucast_eq take_bit_eq_mod)
  have "unat (port_of (ucast (drop_bit 8 port)) (ucast port)) = (unat port div 256 * 256 + unat port mod 256) mod 65536"
    unfolding port_of_def by (simp add: unat_word_ariths unat_ucast_up hi lo mod_simps)
  with p show ?thesis by (auto intro: word_eq_unatI)
qed

lemma parse_netaddr4_tcp:
  "parse_netaddr4 (str_bytes ''tcp'') (tcp_text a b c d port) = Ok (SocketV4 (ipv4_of a b c d) port)"
  by (simp add: parse_netaddr4_def parse_tcp_def tcp_text_def split_on_Cons split_on_none)

lemmas read_numeral =
  read_groups.simps(2) [of "pred_numeral v" for v, folded numeral_eq_Suc]
  read_octets.simps(2) [of "pred_numeral v" for v, folded numeral_eq_Suc]

text \<open>An IPv6 endpoint with a compressed address, and one with an embedded IPv4 address.\<close>

lemma parse_netaddr4_tcp6_sample:
  "parse_netaddr4 (str_bytes ''tcp6'') (str_bytes ''fd00::1:2.8.1'') = Ok (SocketV6 0xFD000000000000000000000000010002 2049 0 0)"
  "parse_netaddr4 (str_bytes ''tcp6'') (str_bytes ''::ffff:10.0.0.1.8.1'') = Ok (SocketV6 0xFFFF0A000001 2049 0 0)"
  "\<exists>e. parse_netaddr4 (str_bytes ''tcp6'') (str_bytes ''1::2::3.8.1'') = Err e"
  by (simp_all add: parse_netaddr4_def parse_tcp6_def parse_ipv6_def read_ipv6_addr_def read_numeral read_separator_def
      read_number_def is_digit_def digit_value_def str_bytes_def parse_u8_def parse_uint_def port_of_def
      replicate_Suc [of "pred_numeral v" for v, folded numeral_eq_Suc])

subsection \<open>The metadata server is preferred\<close>

lemma affinity_first:
  assumes "server \<in> set paths"
  shows "\<exists>rest. sort_key (affinity_key server) paths = server # rest"
proof -
  let ?s = "sort_key (affinity_key server) paths"
  have mem: "server \<in> set ?s" using assms by simp
  obtain p rest where s: "?s = p # rest" using mem by (cases ?s) auto
  have "sorted (map (affinity_key server) ?s)" by simp
  then have "affinity_key server p \<le> affinity_key server server" using mem unfolding s by auto
  then have "p = server" by (auto simp: affinity_key_def less_eq_prod_def split: if_splits)
  with s show ?thesis by simp
qed

text \<open>Sorting the addresses of each data server by closeness to the metadata server keeps the
  addresses, and puts the address of the metadata server first wherever it is listed; the
  topology is then recognised as degenerate exactly when every data server lists it.\<close>

theorem affinity_prefers_metadata_server:
  "map set (di_ds_addrs (sort_multipath_by_affinity info server)) = map set (di_ds_addrs info)
   \<and> map length (di_ds_addrs (sort_multipath_by_affinity info server)) = map length (di_ds_addrs info)
   \<and> (is_degenerate_device (sort_multipath_by_affinity info server) server
      \<longleftrightarrow> di_ds_addrs info \<noteq> [] \<and> list_all (\<lambda>paths. server \<in> set paths) (di_ds_addrs info))"
proof -
  have "(case sort_key (affinity_key server) paths of p # _ \<Rightarrow> p = server | [] \<Rightarrow> False) \<longleftrightarrow> server \<in> set paths" for paths
    using affinity_first [of server paths] set_sort [of "affinity_key server" paths]
    by (cases "sort_key (affinity_key server) paths") auto
  then show ?thesis
    by (simp add: is_degenerate_device_def sort_multipath_by_affinity_def list.pred_map comp_def)
qed

end
