(* ===== verification/Session.thy ===== *)
theory Session
  imports Slots Compound41 Rpc_Call
begin

text \<open>
  NFSv4.1 sessions (\<open>src/src/nfs41/session.rs\<close>): the SEQUENCE result, negotiation of the channel
  attributes, establishment of a session by EXCHANGE_ID, CREATE_SESSION and RECLAIM_COMPLETE, and
  the holder that publishes a replacement session.

  \<open>rpc.call\<close> is a parameter of the steps, a function from the encoded request to the reply or
  an error; the RECLAIM_COMPLETE loop takes one such function per round.  The generated status
  decoder is the parameter \<open>stat_error\<close> as in the COMPOUND decoder.
\<close>

subsection \<open>Generation fencing\<close>

text \<open>The contract of a cell that is replaced only by a writer who has seen its current generation.\<close>

locale fenced_store =
  fixes generation :: "'s \<Rightarrow> u64" and replace :: "'s \<Rightarrow> u64 \<Rightarrow> 'v \<Rightarrow> 's" and accepts :: "'s \<Rightarrow> 'v \<Rightarrow> bool"
  assumes stale: "generation s \<noteq> expected \<Longrightarrow> replace s expected v = s"
    and rejected: "\<not> accepts s v \<Longrightarrow> replace s expected v = s"
    and fresh: "generation s = expected \<Longrightarrow> accepts s v
      \<Longrightarrow> generation (replace s expected v) = saturating_add expected 1"
begin

lemma generation_grows: "unat (generation s) \<le> unat (generation (replace s expected v))"
  by (cases "generation s = expected \<and> accepts s v")
    (auto simp: stale rejected fresh unat_saturating_add unat_u64_le min_def)

lemma second_writer_loses:
  assumes "generation s = expected" and "accepts s v" and "expected \<noteq> - 1"
  shows "replace (replace s expected v) expected w = replace s expected v"
proof (rule stale)
  have "unat expected \<noteq> unat (- 1 :: u64)" using assms(3) by (metis word_unat_eq_iff)
  then have "unat (saturating_add expected 1) \<noteq> unat expected"
    using unat_u64_le [of expected] by (simp add: unat_saturating_add unat_max_word min_def)
  then show "generation (replace s expected v) \<noteq> expected"
    by (auto simp: fresh [OF assms(1,2)])
qed

end

subsection \<open>Identity and SEQUENCE\<close>

definition EXCHGID4_FLAG_USE_PNFS_MDS :: u32 where "EXCHGID4_FLAG_USE_PNFS_MDS = 0x00020000"
definition EXCHGID4_FLAG_USE_PNFS_DS :: u32 where "EXCHGID4_FLAG_USE_PNFS_DS = 0x00040000"

record client_identity =
  ci_minor_version :: minor_version
  ci_owner_id :: bytes
  ci_verifier :: bytes

definition hex_digit :: "nat \<Rightarrow> char" where
  "hex_digit n = char_of (if n < 10 then 48 + n else 87 + n)"

primrec hex_digits :: "nat \<Rightarrow> nat \<Rightarrow> string" where
  "hex_digits 0 n = []"
| "hex_digits (Suc k) n = hex_digits k (n div 16) @ [hex_digit (n mod 16)]"

text \<open>The random number and the verifier of the process are drawn elsewhere.\<close>

definition with_minor_version :: "u64 \<Rightarrow> bytes \<Rightarrow> minor_version \<Rightarrow> client_identity" where
  "with_minor_version unique_id process_verifier minor =
     \<lparr>ci_minor_version = minor,
      ci_owner_id = str_bytes (''nfs-rs-'' @ hex_digits 16 (unat unique_id) @ ''-v4.'' @ show_nat (unat (minor_code minor))),
      ci_verifier = process_verifier\<rparr>"

record channel_attrs =
  ch_header_pad_size :: u32
  ch_max_request_size :: u32
  ch_max_response_size :: u32
  ch_max_cached_response_size :: u32
  ch_max_ops :: u32
  ch_max_requests :: u32

record sequence_result =
  sq_highest_slot_id :: u32
  sq_target_highest_slot_id :: u32
  sq_status_flags :: u32

definition validate_sequence_result :: "op_response \<Rightarrow> bytes \<Rightarrow> u32 \<Rightarrow> u32 \<Rightarrow> sequence_result result" where
  "validate_sequence_result op expected_session_id expected_sequence_id expected_slot_id =
     (if or_opcode op \<noteq> op_code Op_Sequence \<or> or_status op \<noteq> 0
      then Err (Xdr ''response does not contain a successful SEQUENCE result'')
      else run
        (rbind (need 36 (Xdr ''SEQUENCE result truncated'')) (\<lambda>_.
         rbind (get_bytes 16) (\<lambda>session_id.
         rbind get_u32 (\<lambda>sequence_id.
         rbind get_u32 (\<lambda>slot_id.
         rbind get_u32 (\<lambda>highest_slot_id.
         rbind get_u32 (\<lambda>target_highest_slot_id.
         rbind get_u32 (\<lambda>status_flags.
         if session_id \<noteq> expected_session_id \<or> sequence_id \<noteq> expected_sequence_id \<or> slot_id \<noteq> expected_slot_id
         then rfail (Xdr (''SEQUENCE identity mismatch: expected seq='' @ show_nat (unat expected_sequence_id)
                @ '' slot='' @ show_nat (unat expected_slot_id)))
         else rreturn \<lparr>sq_highest_slot_id = highest_slot_id,
                       sq_target_highest_slot_id = target_highest_slot_id,
                       sq_status_flags = status_flags\<rparr>))))))))
        (or_data op))"

subsection \<open>Sessions\<close>

record session =
  ss_minor_version :: minor_version
  ss_generation :: u64
  ss_session_id :: bytes
  ss_client_id :: u64
  ss_slot_table :: slot_table
  ss_max_request_size :: u32
  ss_max_response_size :: u32
  ss_max_cached_response_size :: u32
  ss_max_operations :: u32
  ss_backchannel_max_requests :: u32
  ss_backchannel_max_request_size :: u32
  ss_backchannel_max_operations :: u32
  ss_pnfs_mds :: bool

definition max_requests :: "session \<Rightarrow> u32" where
  "max_requests s =
     (if length (slots (ss_slot_table s)) < 2 ^ 32 then word_of_nat (length (slots (ss_slot_table s))) else - 1)"

definition update_sequence_slot_limits :: "session \<Rightarrow> u32 \<Rightarrow> u32 \<Rightarrow> session result" where
  "update_sequence_slot_limits s highest target =
     (case checked_sub (max_requests s) 1 of
        None \<Rightarrow> Err (Rpc ''session negotiated zero fore-channel slots'')
      | Some maximum \<Rightarrow>
          if highest > maximum \<or> target > maximum
          then Err (Xdr (''SEQUENCE slot limits highest='' @ show_nat (unat highest) @ '' target=''
                 @ show_nat (unat target) @ '' exceed negotiated maximum '' @ show_nat (unat maximum)))
          else and_then (update_target_highest_slot_id (ss_slot_table s) (min target highest))
                 (\<lambda>t. Ok (s\<lparr>ss_slot_table := t\<rparr>)))"

definition decode_channel_attrs :: "(channel_attrs, nfs_error) reader" where
  "decode_channel_attrs =
     rbind (need 24 (Xdr ''channel_attrs truncated'')) (\<lambda>_.
     rbind get_u32 (\<lambda>header_pad_size.
     rbind get_u32 (\<lambda>max_request_size.
     rbind get_u32 (\<lambda>max_response_size.
     rbind get_u32 (\<lambda>max_cached_response_size.
     rbind get_u32 (\<lambda>max_ops.
     rbind get_u32 (\<lambda>max_requests.
     rbind (word_or ''ca_rdma_ird length truncated'') (\<lambda>n.
       if n > 1 then rfail (Xdr (''ca_rdma_ird count '' @ show_nat (unat n) @ '' exceeds protocol bound 1''))
       else rbind (skip_n (unat n * 4) ''ca_rdma_ird data truncated'') (\<lambda>_.
            rreturn \<lparr>ch_header_pad_size = header_pad_size, ch_max_request_size = max_request_size,
                     ch_max_response_size = max_response_size,
                     ch_max_cached_response_size = max_cached_response_size,
                     ch_max_ops = max_ops, ch_max_requests = max_requests\<rparr>)))))))))"

text \<open>The table of \<open>validate_channel_attrs\<close>: field, negotiated value, offered maximum.\<close>

definition channel_values :: "channel_attrs \<Rightarrow> channel_attrs_args \<Rightarrow> (string \<times> u32 \<times> u32) list" where
  "channel_values attrs offered =
     [(''headerpadsize'', ch_header_pad_size attrs, ca_headerpadsize offered),
      (''maxrequestsize'', ch_max_request_size attrs, ca_maxrequestsize offered),
      (''maxresponsesize'', ch_max_response_size attrs, ca_maxresponsesize offered),
      (''maxresponsesize_cached'', ch_max_cached_response_size attrs, ca_maxresponsesize_cached offered),
      (''maxoperations'', ch_max_ops attrs, ca_maxoperations offered),
      (''maxrequests'', ch_max_requests attrs, ca_maxrequests offered)]"

fun check_channel_values :: "string \<Rightarrow> (string \<times> u32 \<times> u32) list \<Rightarrow> unit result" where
  "check_channel_values name [] = Ok ()"
| "check_channel_values name ((field, value, maximum) # rest) =
     (if (field \<noteq> ''headerpadsize'' \<and> field \<noteq> ''maxresponsesize_cached'' \<and> value = 0) \<or> value > maximum
      then Err (Rpc (''invalid '' @ name @ ''-channel '' @ field @ '' '' @ show_nat (unat value)
             @ ''; offered range is 1..='' @ show_nat (unat maximum)))
      else check_channel_values name rest)"

definition validate_channel_attrs :: "string \<Rightarrow> channel_attrs \<Rightarrow> channel_attrs_args \<Rightarrow> unit result" where
  "validate_channel_attrs name attrs offered =
     and_then (check_channel_values name (channel_values attrs offered)) (\<lambda>_.
       if ch_max_cached_response_size attrs > ch_max_response_size attrs
       then Err (Rpc (''invalid '' @ name @ ''-channel cached response maximum ''
              @ show_nat (unat (ch_max_cached_response_size attrs)) @ '' exceeds response maximum ''
              @ show_nat (unat (ch_max_response_size attrs))))
       else Ok ())"

subsection \<open>Requests\<close>

definition NFS4_PROGRAM :: u32 where "NFS4_PROGRAM = 100003"
definition NFS4_VERSION :: u32 where "NFS4_VERSION = 4"
definition NFS4_COMPOUND_PROC :: u32 where "NFS4_COMPOUND_PROC = 1"
definition CB_PROGRAM :: u32 where "CB_PROGRAM = 0x40000000"

definition encode_with_header :: "builder \<Rightarrow> auth \<Rightarrow> minor_version \<Rightarrow> bytes" where
  "encode_with_header b auth minor =
     header_encode (rpc_header NFS4_PROGRAM NFS4_VERSION NFS4_COMPOUND_PROC auth) @ encode_body_for_version b minor"

definition send_compound ::
  "(u32 \<Rightarrow> string option) \<Rightarrow> (bytes \<Rightarrow> bytes result) \<Rightarrow> auth \<Rightarrow> builder \<Rightarrow> minor_version \<Rightarrow> compound_response result" where
  "send_compound stat_error call auth b minor =
     and_then (call (encode_with_header b auth minor)) (response_decode stat_error)"

definition send_compound_on_session ::
  "(u32 \<Rightarrow> string option) \<Rightarrow> (bytes \<Rightarrow> bytes result) \<Rightarrow> auth \<Rightarrow> builder \<Rightarrow> session \<Rightarrow> compound_response result" where
  "send_compound_on_session stat_error call auth b s =
     and_then (enforce_max_operations b (ss_max_operations s)) (\<lambda>_.
     let buf = encode_with_header b auth (ss_minor_version s); request_size = length buf + 8 in
     if request_size > unat (ss_max_request_size s)
     then Err (Rpc (''session request size '' @ show_nat request_size @ '' exceeds negotiated maximum ''
            @ show_nat (unat (ss_max_request_size s))))
     else and_then (call buf) (\<lambda>response_bytes.
       let response_size = length response_bytes + 24 in
       if response_size > unat (ss_max_response_size s)
       then Err (Rpc (''session response size '' @ show_nat response_size @ '' exceeds negotiated maximum ''
              @ show_nat (unat (ss_max_response_size s))))
       else and_then (response_decode stat_error response_bytes) (\<lambda>response.
         if length (cr_results response) > length (b_ops b)
            \<or> length (cr_results response) > unat (ss_max_operations s)
         then Err (Xdr ''session response operation count exceeds negotiated/requested bound'')
         else Ok response)))"

subsection \<open>Establishing a session\<close>

definition exchange_id_step ::
  "(u32 \<Rightarrow> string option) \<Rightarrow> (bytes \<Rightarrow> bytes result) \<Rightarrow> auth \<Rightarrow> client_identity \<Rightarrow> u32 \<Rightarrow> (u64 \<times> u32 \<times> u32) result" where
  "exchange_id_step stat_error call auth identity flags =
     (let flags = flags OR (if ci_minor_version identity = V2 then 0x4 else 0);
          b = b_exchange_id (builder_new (str_bytes ''exchange_id'')) (ci_verifier identity)
                (ci_owner_id identity) flags (str_bytes ''nfs-rs'') (str_bytes ''nfs-rs NFSv4.1/v4.2 client'')
      in and_then (send_compound stat_error call auth b (ci_minor_version identity)) (\<lambda>resp.
         and_then (response_check_status resp) (\<lambda>_.
         and_then (op_ok resp 0) (\<lambda>op.
         run (rbind (need 16 (Xdr ''EXCHANGE_ID result too short'')) (\<lambda>_.
              rbind get_u64 (\<lambda>client_id.
              rbind get_u32 (\<lambda>create_seq_id.
              rbind get_u32 (\<lambda>eir_flags.
              rreturn (client_id, create_seq_id, eir_flags)))))) (or_data op)))))"

definition fore_attrs_offered :: channel_attrs_args where
  "fore_attrs_offered = \<lparr>ca_headerpadsize = 0, ca_maxrequestsize = 1048576, ca_maxresponsesize = 1048576,
     ca_maxresponsesize_cached = 4096, ca_maxoperations = 16, ca_maxrequests = 64\<rparr>"

definition back_attrs_offered :: channel_attrs_args where
  "back_attrs_offered = \<lparr>ca_headerpadsize = 0, ca_maxrequestsize = 4096, ca_maxresponsesize = 4096,
     ca_maxresponsesize_cached = 4096, ca_maxoperations = 2, ca_maxrequests = 1\<rparr>"

definition create_session_result :: "(bytes \<times> channel_attrs \<times> channel_attrs, nfs_error) reader" where
  "create_session_result =
     rbind (need 24 (Xdr ''CREATE_SESSION result too short'')) (\<lambda>_.
     rbind (get_bytes 16) (\<lambda>session_id.
     rbind get_u32 (\<lambda>csr_sequence.
     rbind get_u32 (\<lambda>csr_flags.
     rbind decode_channel_attrs (\<lambda>fore_channel.
     rbind decode_channel_attrs (\<lambda>back_channel.
     rbind (lift (validate_channel_attrs ''fore'' fore_channel fore_attrs_offered)) (\<lambda>_.
     rbind (lift (validate_channel_attrs ''back'' back_channel back_attrs_offered)) (\<lambda>_.
     rreturn (session_id, fore_channel, back_channel)))))))))"

definition create_session_step ::
  "(u32 \<Rightarrow> string option) \<Rightarrow> (bytes \<Rightarrow> bytes result) \<Rightarrow> auth \<Rightarrow> u64 \<Rightarrow> u32 \<Rightarrow> minor_version \<Rightarrow> u32
     \<Rightarrow> (bytes \<times> channel_attrs \<times> channel_attrs) result" where
  "create_session_step stat_error call auth client_id create_seq_id minor csa_flags =
     (let b = b_create_session (builder_new (str_bytes ''create_session'')) client_id create_seq_id csa_flags
                fore_attrs_offered back_attrs_offered CB_PROGRAM
      in and_then (send_compound stat_error call auth b minor) (\<lambda>resp.
         and_then (response_check_status resp) (\<lambda>_.
         and_then (op_ok resp 0) (\<lambda>op.
         run create_session_result (or_data op)))))"

text \<open>The session before RECLAIM_COMPLETE.\<close>

definition new_session :: "client_identity \<Rightarrow> u64 \<Rightarrow> bool \<Rightarrow> bytes \<times> channel_attrs \<times> channel_attrs \<Rightarrow> session" where
  "new_session identity client_id pnfs_mds negotiated =
     (case negotiated of (session_id, fore, back) \<Rightarrow>
        \<lparr>ss_minor_version = ci_minor_version identity, ss_generation = 1, ss_session_id = session_id,
         ss_client_id = client_id, ss_slot_table = slot_table_new (ch_max_requests fore),
         ss_max_request_size = ch_max_request_size fore, ss_max_response_size = ch_max_response_size fore,
         ss_max_cached_response_size = ch_max_cached_response_size fore,
         ss_max_operations = ch_max_ops fore,
         ss_backchannel_max_requests = ch_max_requests back,
         ss_backchannel_max_request_size = ch_max_request_size back,
         ss_backchannel_max_operations = ch_max_ops back, ss_pnfs_mds = pnfs_mds\<rparr>)"

definition reclaim_request :: "session \<Rightarrow> acquired_slot \<Rightarrow> builder" where
  "reclaim_request s slot =
     b_reclaim_complete
       (b_sequence (builder_new (str_bytes ''reclaim_complete'')) (ss_session_id s)
          (current_sequence_id (ss_slot_table s) slot) (as_slot_id slot) (highest_slot_id (ss_slot_table s)))
       False"

text \<open>A successful SEQUENCE moves the slot on, whatever happened to RECLAIM_COMPLETE.\<close>

definition note_sequence :: "session \<Rightarrow> acquired_slot \<Rightarrow> compound_response \<Rightarrow> session result" where
  "note_sequence s slot resp =
     (case op_ok resp 0 of
        Ok sequence_op \<Rightarrow>
          and_then (validate_sequence_result sequence_op (ss_session_id s)
                      (current_sequence_id (ss_slot_table s) slot) (as_slot_id slot)) (\<lambda>sq.
          and_then (update_sequence_slot_limits s (sq_highest_slot_id sq) (sq_target_highest_slot_id sq)) (\<lambda>s.
          Ok (s\<lparr>ss_slot_table := slot_advance (ss_slot_table s) slot\<rparr>)))
      | _ \<Rightarrow> Ok s)"

text \<open>One round: the reply, the slot bookkeeping, and either the end or the error to back off on.\<close>

datatype reclaim_verdict = Reclaim_Done "session result" | Reclaim_Busy session nfs_error

definition reclaim_round ::
  "(u32 \<Rightarrow> string option) \<Rightarrow> (bytes \<Rightarrow> bytes result) \<Rightarrow> auth \<Rightarrow> session \<Rightarrow> acquired_slot \<Rightarrow> reclaim_verdict" where
  "reclaim_round stat_error call auth s slot =
     (case and_then (send_compound_on_session stat_error call auth (reclaim_request s slot) s)
                    (\<lambda>resp. and_then (note_sequence s slot resp) (\<lambda>s. Ok (s, resp))) of
        Err e \<Rightarrow> Reclaim_Done (Err e)
      | Panic \<Rightarrow> Reclaim_Done Panic
      | Ok (s, resp) \<Rightarrow>
          (case response_check_status resp of
             Ok _ \<Rightarrow> Reclaim_Done (and_then (op_ok resp 1) (\<lambda>_.
                       Ok (s\<lparr>ss_slot_table := drop_guard (ss_slot_table s) slot\<rparr>)))
           | Err error \<Rightarrow> if is_server_busy error then Reclaim_Busy s error else Reclaim_Done (Err error)
           | Panic \<Rightarrow> Reclaim_Done Panic))"

definition reclaim_context :: "client_identity \<Rightarrow> request_context" where
  "reclaim_context identity =
     \<lparr>ctx_operation = ''reclaim_complete'', ctx_protocol = minor_nfs_version (ci_minor_version identity),
      ctx_request_id = None\<rparr>"

lemma backoff_measure: "backoff env b w ctx e = (b', Ok ()) \<Longrightarrow> 16 - unat (bg_retries b') < 16 - unat (bg_retries b)"
  using retries_step [of "bg_retries b"] by (auto simp: backoff_Ok MAX_RETRIES_def word_less_nat_alt)

function reclaim_loop ::
  "(u32 \<Rightarrow> string option) \<Rightarrow> (nat \<Rightarrow> bytes \<Rightarrow> bytes result) \<Rightarrow> (nat \<Rightarrow> surroundings) \<Rightarrow> task_locals \<Rightarrow> auth
     \<Rightarrow> client_identity \<Rightarrow> acquired_slot \<Rightarrow> nat \<Rightarrow> budget \<Rightarrow> session \<Rightarrow> nat \<times> session result" where
  "reclaim_loop stat_error calls clock env auth identity slot i budget s =
     (case reclaim_round stat_error (calls i) auth s slot of
        Reclaim_Done r \<Rightarrow> (Suc i, r)
      | Reclaim_Busy s' error \<Rightarrow>
          (case backoff env budget (clock i) (reclaim_context identity) error of
             (budget', Ok _) \<Rightarrow> reclaim_loop stat_error calls clock env auth identity slot (Suc i) budget' s'
           | (_, Err e) \<Rightarrow> (Suc i, Err e)
           | (_, Panic) \<Rightarrow> (Suc i, Panic)))"
  by pat_completeness auto
termination
  by (relation "measure (\<lambda>(_, _, _, _, _, _, _, _, b, _). 16 - unat (bg_retries b))")
    (auto dest: backoff_measure [OF sym])

declare reclaim_loop.simps [simp del]

text \<open>\<open>establish_budgeted\<close>.  The first two requests go to \<open>exchange_call\<close> and \<open>create_call\<close>; the
  fresh table has a free slot, so \<open>acquire\<close> does not wait.\<close>

definition establish ::
  "(u32 \<Rightarrow> string option) \<Rightarrow> (bytes \<Rightarrow> bytes result) \<Rightarrow> (bytes \<Rightarrow> bytes result) \<Rightarrow> (nat \<Rightarrow> bytes \<Rightarrow> bytes result)
     \<Rightarrow> (nat \<Rightarrow> surroundings) \<Rightarrow> task_locals \<Rightarrow> budget \<Rightarrow> auth \<Rightarrow> client_identity \<Rightarrow> session option result" where
  "establish stat_error exchange_call create_call calls clock env budget auth identity =
     and_then (exchange_id_step stat_error exchange_call auth identity EXCHGID4_FLAG_USE_PNFS_MDS)
       (\<lambda>(client_id, create_seq_id, eir_flags).
     and_then (create_session_step stat_error create_call auth client_id create_seq_id (ci_minor_version identity) 0x2)
       (\<lambda>negotiated.
     let s = new_session identity client_id (eir_flags AND EXCHGID4_FLAG_USE_PNFS_MDS \<noteq> 0) negotiated in
     and_then (acquire_now (ss_slot_table s)) (\<lambda>got.
       case got of
         None \<Rightarrow> Ok None
       | Some (t, slot) \<Rightarrow>
           and_then (snd (reclaim_loop stat_error calls clock env auth identity slot 0 budget
                            (s\<lparr>ss_slot_table := t\<rparr>))) (Ok \<circ> Some))))"

definition NFS4ERR_MINOR_VERS_MISMATCH :: u32 where "NFS4ERR_MINOR_VERS_MISMATCH = 10021"

definition establish_ds ::
  "(u32 \<Rightarrow> string option) \<Rightarrow> (bytes \<Rightarrow> bytes result) \<Rightarrow> (bytes \<Rightarrow> bytes result) \<Rightarrow> (bytes \<Rightarrow> bytes result)
     \<Rightarrow> auth \<Rightarrow> client_identity \<Rightarrow> session result" where
  "establish_ds stat_error call retry_call create_call auth client_identity =
     (let downgraded = client_identity\<lparr>ci_minor_version := V1,
            ci_owner_id := ci_owner_id client_identity @ str_bytes ''-ds-v4.1''\<rparr>;
          first = exchange_id_step stat_error call auth client_identity EXCHGID4_FLAG_USE_PNFS_DS;
          (identity, exchanged) =
            (if first = Err (Nfs4 NFS4ERR_MINOR_VERS_MISMATCH) \<and> ci_minor_version client_identity = V2
             then (downgraded, exchange_id_step stat_error retry_call auth downgraded EXCHGID4_FLAG_USE_PNFS_DS)
             else (client_identity, first))
      in and_then exchanged (\<lambda>(client_id, create_seq_id, eir_flags).
         and_then (create_session_step stat_error create_call auth client_id create_seq_id
                     (ci_minor_version identity) 0) (\<lambda>negotiated.
         Ok ((new_session identity client_id False negotiated)
               \<lparr>ss_backchannel_max_requests := 1, ss_backchannel_max_request_size := 4096,
                ss_backchannel_max_operations := 2\<rparr>))))"

subsection \<open>The holder\<close>

record session_holder =
  sh_inner :: session
  sh_pnfs_mds :: bool

definition holder_new :: "session \<Rightarrow> session_holder" where
  "holder_new s = \<lparr>sh_inner = s\<lparr>ss_generation := 1\<rparr>, sh_pnfs_mds = ss_pnfs_mds s\<rparr>"

text \<open>\<open>callback.update_session\<close> may refuse; \<open>accept\<close> is its verdict on the new session.\<close>

definition replace_with_callback_if_current ::
  "(session \<Rightarrow> unit result) \<Rightarrow> session_holder \<Rightarrow> u64 \<Rightarrow> session \<Rightarrow> session_holder \<times> bool result" where
  "replace_with_callback_if_current accept h expected new =
     (if ss_generation (sh_inner h) \<noteq> expected then (h, Ok False)
      else let new = new\<lparr>ss_generation := saturating_add expected 1\<rparr> in
           case accept new of
             Ok _ \<Rightarrow> (\<lparr>sh_inner = new, sh_pnfs_mds = ss_pnfs_mds new\<rparr>, Ok True)
           | Err e \<Rightarrow> (h, Err e)
           | Panic \<Rightarrow> (h, Panic))"

subsection \<open>SEQUENCE results\<close>

lemma run_eq_Ok: "run r d = Ok x \<longleftrightarrow> (\<exists>d'. r d = Ok (x, d'))"
  by (auto simp: run_def)

text \<open>C20. A SEQUENCE result is accepted exactly when it is a successful SEQUENCE that carries the
  session, the sequence id and the slot of the request; the limits returned are the ones in
  the reply.\<close>

theorem validate_sequence_result_exact:
  assumes "length session_id = 16"
  shows "validate_sequence_result op session_id seq slot = Ok sq \<longleftrightarrow>
    or_opcode op = op_code Op_Sequence \<and> or_status op = 0
    \<and> (\<exists>rest. or_data op = session_id @ u32_to_be seq @ u32_to_be slot @ u32_to_be (sq_highest_slot_id sq)
          @ u32_to_be (sq_target_highest_slot_id sq) @ u32_to_be (sq_status_flags sq) @ rest)"
proof -
  let ?body = "\<lambda>sid s sl h t f rest. sid @ u32_to_be s @ u32_to_be sl @ u32_to_be h @ u32_to_be t @ u32_to_be f @ rest"
  have inv: "(if sid \<noteq> session_id \<or> s \<noteq> seq \<or> sl \<noteq> slot then rfail e
      else rreturn \<lparr>sq_highest_slot_id = h, sq_target_highest_slot_id = t, sq_status_flags = f\<rparr>) d = Ok (sq, d')
    \<longleftrightarrow> sid = session_id \<and> s = seq \<and> sl = slot \<and> h = sq_highest_slot_id sq \<and> t = sq_target_highest_slot_id sq
      \<and> f = sq_status_flags sq \<and> d = d'" for sid s sl h t f e d d'
    by (cases sq) (auto simp: rfail_def rreturn_def)
  have "36 \<le> length (?body session_id seq slot h t f rest)" for h t f rest using assms by simp
  then show ?thesis
    unfolding validate_sequence_result_def run_eq_Ok if_Err_eq_Ok rbind_eq_Ok need_eq_Ok get_bytes_eq_Ok
      get_u32_split inv
    using assms by (auto simp del: length_append)
qed

definition sample_sequence :: op_response where
  "sample_sequence = \<lparr>or_opcode = 53, or_status = 0,
     or_data = replicate 16 7 @ u32_to_be 1 @ u32_to_be 0 @ u32_to_be 63 @ u32_to_be 63 @ u32_to_be 0\<rparr>"

theorem validate_sequence_result_exact_witness:
  "validate_sequence_result sample_sequence (replicate 16 7) 1 0
   = Ok \<lparr>sq_highest_slot_id = 63, sq_target_highest_slot_id = 63, sq_status_flags = 0\<rparr>"
  by (subst validate_sequence_result_exact) (simp_all add: sample_sequence_def)

subsection \<open>Negotiation\<close>

lemma validate_channel_attrs_Ok:
  "validate_channel_attrs name attrs offered = Ok () \<longleftrightarrow>
     ch_header_pad_size attrs \<le> ca_headerpadsize offered
     \<and> ch_max_request_size attrs \<noteq> 0 \<and> ch_max_request_size attrs \<le> ca_maxrequestsize offered
     \<and> ch_max_response_size attrs \<noteq> 0 \<and> ch_max_response_size attrs \<le> ca_maxresponsesize offered
     \<and> ch_max_cached_response_size attrs \<le> ca_maxresponsesize_cached offered
     \<and> ch_max_ops attrs \<noteq> 0 \<and> ch_max_ops attrs \<le> ca_maxoperations offered
     \<and> ch_max_requests attrs \<noteq> 0 \<and> ch_max_requests attrs \<le> ca_maxrequests offered
     \<and> ch_max_cached_response_size attrs \<le> ch_max_response_size attrs"
  unfolding validate_channel_attrs_def channel_values_def check_channel_values.simps and_then_eq_Ok if_Err_eq_Ok
  by (auto simp: not_less)

text \<open>What a session that came out of the negotiation satisfies.\<close>

definition within_offer :: "session \<Rightarrow> bool" where
  "within_offer s \<longleftrightarrow>
     0 < length (slots (ss_slot_table s)) \<and> length (slots (ss_slot_table s)) \<le> 64
     \<and> 0 < ss_max_request_size s \<and> ss_max_request_size s \<le> 1048576
     \<and> 0 < ss_max_response_size s \<and> ss_max_response_size s \<le> 1048576
     \<and> ss_max_cached_response_size s \<le> 4096 \<and> ss_max_cached_response_size s \<le> ss_max_response_size s
     \<and> 0 < ss_max_operations s \<and> ss_max_operations s \<le> 16
     \<and> ss_backchannel_max_requests s = 1
     \<and> 0 < ss_backchannel_max_request_size s \<and> ss_backchannel_max_request_size s \<le> 4096
     \<and> 0 < ss_backchannel_max_operations s \<and> ss_backchannel_max_operations s \<le> 2
     \<and> length (ss_session_id s) = 16"

lemma create_session_result_bounds:
  assumes "create_session_result d = Ok ((session_id, fore, back), d')"
  shows "length session_id = 16 \<and> validate_channel_attrs ''fore'' fore fore_attrs_offered = Ok ()
    \<and> validate_channel_attrs ''back'' back back_attrs_offered = Ok ()"
  using assms unfolding create_session_result_def
  by (auto simp: rbind_eq_Ok need_eq_Ok get_bytes_eq_Ok lift_eq_Ok rreturn_def)

lemma new_session_within_offer:
  assumes "create_session_step stat_error call auth client_id create_seq_id minor flags = Ok negotiated"
  shows "within_offer (new_session identity cid mds negotiated)"
proof -
  obtain session_id fore bk where n: "negotiated = (session_id, fore, bk)" by (cases negotiated)
  from assms obtain d d' where "create_session_result d = Ok ((session_id, fore, bk), d')"
    unfolding create_session_step_def Let_def n by (auto simp: run_eq_Ok)
  from create_session_result_bounds [OF this]
  have "length session_id = 16" and v: "validate_channel_attrs ''fore'' fore fore_attrs_offered = Ok ()"
    and bk: "validate_channel_attrs ''back'' bk back_attrs_offered = Ok ()" by simp_all
  moreover from bk have "0 < ch_max_requests bk" "ch_max_requests bk \<le> 1"
    by (simp_all add: validate_channel_attrs_Ok back_attrs_offered_def word_neq_0_conv)
  then have "ch_max_requests bk = 1" by (simp add: word_le_nat_alt word_less_nat_alt word_unat_eq_iff)
  moreover from v have "ch_max_requests fore \<noteq> 0" "ch_max_requests fore \<le> 64"
    by (simp_all add: validate_channel_attrs_Ok fore_attrs_offered_def)
  then have "0 < unat (ch_max_requests fore)" "unat (ch_max_requests fore) \<le> 64"
    by (simp_all add: word_le_nat_alt unat_eq_0 [symmetric] del: unat_eq_0)
  ultimately show ?thesis
    by (simp add: within_offer_def new_session_def n slot_table_new_def validate_channel_attrs_Ok
        fore_attrs_offered_def back_attrs_offered_def word_neq_0_conv)
qed

text \<open>What the RECLAIM_COMPLETE loop keeps of a session.\<close>

definition same_limits :: "session \<Rightarrow> session \<Rightarrow> bool" where
  "same_limits s s' \<longleftrightarrow> (\<exists>t. s' = s\<lparr>ss_slot_table := t\<rparr> \<and> length (slots t) = length (slots (ss_slot_table s)))"

lemma same_limits_refl: "same_limits s s"
  by (auto simp: same_limits_def intro: exI [of _ "ss_slot_table s"])

lemma same_limits_trans: "same_limits s s' \<Longrightarrow> same_limits s' s'' \<Longrightarrow> same_limits s s''"
  by (auto simp: same_limits_def)

lemma same_limits_table: "length (slots t) = length (slots (ss_slot_table s)) \<Longrightarrow> same_limits s (s\<lparr>ss_slot_table := t\<rparr>)"
  by (auto simp: same_limits_def)

lemma within_offer_same: "within_offer s \<Longrightarrow> same_limits s s' \<Longrightarrow> within_offer s'"
  by (auto simp: within_offer_def same_limits_def)

lemma note_sequence_same: "note_sequence s slot resp = Ok s' \<Longrightarrow> same_limits s s'"
  unfolding note_sequence_def update_sequence_slot_limits_def update_target_highest_slot_id_def
  by (auto simp: if_Err_eq_Ok slot_advance_def intro!: same_limits_table same_limits_refl split: outcome.splits option.splits)

lemma drop_guard_slots: "length (slots (drop_guard t a)) = length (slots t)"
  by (simp add: drop_guard_def release_def add_permit_def release_push_def release_clear_def Let_def split: option.split)

lemma reclaim_round_same:
  "reclaim_round stat_error call auth s slot = Reclaim_Done (Ok s') \<Longrightarrow> same_limits s s'"
  "reclaim_round stat_error call auth s slot = Reclaim_Busy s' e \<Longrightarrow> same_limits s s'"
  unfolding reclaim_round_def
  by (auto split: outcome.splits prod.splits if_splits dest!: note_sequence_same
      simp: drop_guard_slots elim!: same_limits_trans intro!: same_limits_table)

lemma reclaim_loop_result:
  "snd (reclaim_loop stat_error calls clock env auth identity slot i b s) = Ok s' \<Longrightarrow> same_limits s s'"
proof (induction stat_error calls clock env auth identity slot i b s rule: reclaim_loop.induct)
  case (1 stat_error calls clock env auth identity slot i b s)
  show ?case
  proof (cases "reclaim_round stat_error (calls i) auth s slot")
    case (Reclaim_Done r)
    with "1.prems" show ?thesis
      by (auto simp: reclaim_loop.simps [of _ _ _ _ _ _ _ i] intro: reclaim_round_same(1))
  next
    case (Reclaim_Busy s1 e)
    with "1.prems" obtain b' where "backoff env b (clock i) (reclaim_context identity) e = (b', Ok ())"
      and "snd (reclaim_loop stat_error calls clock env auth identity slot (Suc i) b' s1) = Ok s'"
      by (auto simp: reclaim_loop.simps [of _ _ _ _ _ _ _ i] split: prod.splits outcome.splits)
    with "1.IH" [OF Reclaim_Busy] reclaim_round_same(2) [OF Reclaim_Busy] show ?thesis
      by (metis same_limits_trans)
  qed
qed

lemma acquire_now_slots: "acquire_now t = Ok (Some (t', a)) \<Longrightarrow> length (slots t') = length (slots t)"
  by (auto simp: acquire_now_def acquired_def Let_def split: if_splits option.splits prod.splits)

lemma establish_within_offer:
  "establish stat_error exchange_call create_call calls clock env b auth identity = Ok (Some s) \<Longrightarrow> within_offer s"
proof -
  assume "establish stat_error exchange_call create_call calls clock env b auth identity = Ok (Some s)"
  then obtain client_id seq flags negotiated t slot where
    created: "create_session_step stat_error create_call auth client_id seq (ci_minor_version identity) 2 = Ok negotiated"
    and got: "acquire_now (ss_slot_table (new_session identity client_id (flags AND EXCHGID4_FLAG_USE_PNFS_MDS \<noteq> 0) negotiated)) = Ok (Some (t, slot))"
    and loop: "snd (reclaim_loop stat_error calls clock env auth identity slot 0 b
        ((new_session identity client_id (flags AND EXCHGID4_FLAG_USE_PNFS_MDS \<noteq> 0) negotiated)\<lparr>ss_slot_table := t\<rparr>)) = Ok s"
    by (auto simp: establish_def Let_def split: option.splits)
  let ?new = "new_session identity client_id (flags AND EXCHGID4_FLAG_USE_PNFS_MDS \<noteq> 0) negotiated"
  have "within_offer ?new" by (rule new_session_within_offer [OF created])
  moreover have "same_limits ?new (?new\<lparr>ss_slot_table := t\<rparr>)"
    using acquire_now_slots [OF got] by (rule same_limits_table)
  ultimately show "within_offer s"
    using reclaim_loop_result [OF loop] within_offer_same by blast
qed

lemma establish_ds_within_offer:
  "establish_ds stat_error call retry_call create_call auth identity = Ok s \<Longrightarrow> within_offer s"
proof -
  assume "establish_ds stat_error call retry_call create_call auth identity = Ok s"
  then obtain ident minor client_id seq negotiated where
    "create_session_step stat_error create_call auth client_id seq minor 0 = Ok negotiated"
    and "s = (new_session ident client_id False negotiated)
        \<lparr>ss_backchannel_max_requests := 1, ss_backchannel_max_request_size := 4096, ss_backchannel_max_operations := 2\<rparr>"
    by (auto simp: establish_ds_def Let_def split: if_splits prod.splits)
  with new_session_within_offer show ?thesis by (fastforce simp: within_offer_def)
qed

text \<open>C21. Every session that is established, with the metadata server or a data server, stays within
  what the client offered.  On the fore channel: between one and sixty-four slots, so that every slot
  fits the bitmap of slots in use; non-zero request, response and operation limits no larger than the
  offer; and a reply cache no larger than a response.  On the backchannel, in the limits the session
  keeps: exactly one slot, and non-zero request size and operation limits no larger than the offer.  The
  session id has sixteen bytes.\<close>

theorem established_within_offer:
  assumes "establish stat_error exchange_call create_call calls clock env b auth identity = Ok (Some s)
    \<or> establish_ds stat_error call retry_call create_call auth identity = Ok s"
  shows "within_offer s"
  using assms establish_within_offer establish_ds_within_offer by blast

text \<open>A data server that answers EXCHANGE_ID and CREATE_SESSION.\<close>

lemma response_decode_single:
  assumes "skip_op_result opcode 0 (body @ []) = Ok ((), [])"
  shows "response_decode (\<lambda>_. None) (u32_to_be 0 @ opaque_enc [] @ u32_to_be 1 @ u32_to_be opcode @ u32_to_be 0 @ body @ [])
    = Ok \<lparr>cr_tag = [], cr_status = 0, cr_results = [\<lparr>or_opcode = opcode, or_status = 0, or_data = body @ []\<rparr>],
          cr_session_generation = 0\<rparr>"
proof -
  have "decode_string (opaque_enc [] @ d) = Ok ([], d)" for d
    by (rule decode_string_enc) (simp_all add: utf8_valid_def)
  moreover have "decode_result (\<lambda>_. None) (u32_to_be opcode @ u32_to_be 0 @ body) =
      Ok (\<lparr>or_opcode = opcode, or_status = 0, or_data = body\<rparr>, [])"
    using decode_result_enc [OF refl assms] by simp
  ultimately show ?thesis
    unfolding response_decode_def run_def response_body_def word_or_def
    by (simp add: rbind_assoc decode_nfsstat4_def rbind_def [of decode_string] rbind_def [of "decode_result _"]
        rbind_def [of "\<lambda>a. Ok (_, a)"] MAX_COMPOUND_OPS_def rreturn_def)
qed

definition sample_channel :: bytes where
  "sample_channel = u32_to_be 0 @ u32_to_be 4096 @ u32_to_be 4096 @ u32_to_be 4096 @ u32_to_be 2 @ u32_to_be 1 @ u32_to_be 0"

definition exchange_body :: bytes where
  "exchange_body = u64_to_be 9 @ u32_to_be 1 @ u32_to_be 0 @ u32_to_be 0 @ u64_to_be 0 @ u32_to_be 0 @ u32_to_be 0 @ u32_to_be 0"

definition create_body :: bytes where
  "create_body = replicate 16 7 @ u32_to_be 1 @ u32_to_be 0 @ sample_channel @ sample_channel"

definition one_reply :: "u32 \<Rightarrow> bytes \<Rightarrow> bytes" where
  "one_reply opcode body = u32_to_be 0 @ opaque_enc [] @ u32_to_be 1 @ u32_to_be opcode @ u32_to_be 0 @ body @ []"

definition sample_attrs :: channel_attrs where
  "sample_attrs = \<lparr>ch_header_pad_size = 0, ch_max_request_size = 4096, ch_max_response_size = 4096,
     ch_max_cached_response_size = 4096, ch_max_ops = 2, ch_max_requests = 1\<rparr>"

lemma decode_sample_channel: "decode_channel_attrs (sample_channel @ d) = Ok (sample_attrs, d)"
  by (simp add: decode_channel_attrs_def sample_channel_def word_or_def rbind_assoc skip_n_def advance_def
      rbind_def [of "advance _"] rreturn_def sample_attrs_def)

lemma skip_var_bytes_empty: "skip_var_bytes (u32_to_be 0 @ d) = Ok ((), d)"
  by (simp add: skip_var_bytes_def pad_up_def skip_n_enc [of "[]", simplified])

lemma skip_state_protect_none: "skip_state_protect (u32_to_be 0 @ d) = Ok ((), d)"
  by (simp add: skip_state_protect_def rreturn_def)

lemma skip_exchange_body: "skip_op_result 42 0 (exchange_body @ []) = Ok ((), [])"
proof -
  have "skip_n 16 what (u64_to_be 9 @ u32_to_be 1 @ u32_to_be 0 @ d) = Ok ((), d)" for what d
    using skip_n_enc [of "u64_to_be 9 @ u32_to_be 1 @ u32_to_be 0" 16 what d] by simp
  then show ?thesis
    by (simp add: skip_op_result_def result_arms_def skip_exchange_id_result_def exchange_body_def
        rbind_def [of "skip_n _ _"] rbind_def [of skip_state_protect] rbind_def [of skip_var_bytes] skip_n_enc
        skip_var_bytes_empty skip_state_protect_none forget_def rbind_def [of "rreturn _"] rreturn_def)
qed

lemma skip_sample_channel: "skip_channel_attrs (sample_channel @ d) = Ok ((), d)"
proof -
  have "skip_n 24 what (u32_to_be 0 @ u32_to_be 4096 @ u32_to_be 4096 @ u32_to_be 4096 @ u32_to_be 2 @ u32_to_be 1 @ d) = Ok ((), d)"
    for what d
    using skip_n_enc [of "u32_to_be 0 @ u32_to_be 4096 @ u32_to_be 4096 @ u32_to_be 4096 @ u32_to_be 2 @ u32_to_be 1" 24 what d]
    by simp
  then show ?thesis
    by (simp add: skip_channel_attrs_def sample_channel_def rbind_def [of "skip_n _ _"] skip_n_enc [of "[]", simplified])
qed

lemma skip_create_body: "skip_op_result 43 0 (create_body @ []) = Ok ((), [])"
proof -
  have "skip_n 24 what (replicate 16 7 @ u32_to_be 1 @ u32_to_be 0 @ d) = Ok ((), d)" for what d
    using skip_n_enc [of "replicate 16 7 @ u32_to_be 1 @ u32_to_be 0" 24 what d] by simp
  moreover have "skip_op_result 43 0 = skip_create_session_result"
    by (simp add: skip_op_result_def result_arms_def)
  ultimately show ?thesis
    using skip_sample_channel [of sample_channel] skip_sample_channel [of "[]"]
    by (simp add: skip_create_session_result_def create_body_def numeral_2_eq_2
        forget_def rbind_def [of "skip_n _ _"] rbind_def [of skip_channel_attrs] rbind_assoc rbind_def [of "\<lambda>a. Ok (_, a)"] rreturn_def)
qed

lemma sample_exchange:
  "exchange_id_step (\<lambda>_. None) (\<lambda>_. Ok (one_reply 42 exchange_body)) auth identity flags = Ok (9, 1, 0)"
  unfolding exchange_id_step_def Let_def send_compound_def and_then.simps one_reply_def
    response_decode_single [OF skip_exchange_body]
  by (simp add: response_check_status_def op_ok_def run_def exchange_body_def rreturn_def)

lemma sample_negotiated: "create_session_result create_body = Ok ((replicate 16 7, sample_attrs, sample_attrs), [])"
proof -
  have "validate_channel_attrs ''fore'' sample_attrs fore_attrs_offered = Ok ()"
    "validate_channel_attrs ''back'' sample_attrs back_attrs_offered = Ok ()"
    unfolding validate_channel_attrs_Ok by (simp_all add: sample_attrs_def fore_attrs_offered_def back_attrs_offered_def)
  moreover have "get_bytes 16 (replicate 16 7 @ d) = (Ok (replicate 16 7, d) :: (bytes \<times> bytes, nfs_error) outcome)" for d
    by (simp add: get_bytes_def)
  ultimately show ?thesis
    using decode_sample_channel [of sample_channel] decode_sample_channel [of "[]"]
    by (simp add: create_session_result_def create_body_def rbind_def [of decode_channel_attrs]
        rbind_def [of "get_bytes _"] rbind_def [of "lift _"] lift_def rreturn_def)
qed

lemma sample_create:
  "create_session_step (\<lambda>_. None) (\<lambda>_. Ok (one_reply 43 create_body)) auth client_id seq minor flags
   = Ok (replicate 16 7, sample_attrs, sample_attrs)"
  unfolding create_session_step_def Let_def send_compound_def and_then.simps one_reply_def
    response_decode_single [OF skip_create_body]
  by (simp add: response_check_status_def op_ok_def run_def sample_negotiated)

lemma sample_session:
  "establish_ds (\<lambda>_. None) (\<lambda>_. Ok (one_reply 42 exchange_body)) (\<lambda>_. Err (Rpc [])) (\<lambda>_. Ok (one_reply 43 create_body))
     auth_new_null (with_minor_version 5 (replicate 8 1) V1)
   = Ok ((new_session (with_minor_version 5 (replicate 8 1) V1) 9 False (replicate 16 7, sample_attrs, sample_attrs))
       \<lparr>ss_backchannel_max_requests := 1, ss_backchannel_max_request_size := 4096, ss_backchannel_max_operations := 2\<rparr>)"
  unfolding establish_ds_def Let_def sample_exchange by (simp add: sample_create)

theorem established_within_offer_witness:
  "within_offer ((new_session (with_minor_version 5 (replicate 8 1) V1) 9 False (replicate 16 7, sample_attrs, sample_attrs))
     \<lparr>ss_backchannel_max_requests := 1, ss_backchannel_max_request_size := 4096, ss_backchannel_max_operations := 2\<rparr>)"
  by (rule established_within_offer [OF disjI2, OF sample_session])

subsection \<open>The RECLAIM_COMPLETE loop\<close>

lemma reclaim_loop_rounds:
  "bg_retries b \<le> MAX_RETRIES \<Longrightarrow>
   fst (reclaim_loop stat_error calls clock env auth identity slot i b s) \<le> i + 17 - unat (bg_retries b)"
proof (induction stat_error calls clock env auth identity slot i b s rule: reclaim_loop.induct)
  case (1 stat_error calls clock env auth identity slot i b s)
  have small: "unat (bg_retries b) \<le> 16" using "1.prems" by (simp add: MAX_RETRIES_def word_le_nat_alt)
  show ?case
  proof (cases "reclaim_round stat_error (calls i) auth s slot")
    case (Reclaim_Done r)
    with small show ?thesis by (simp add: reclaim_loop.simps [of _ _ _ _ _ _ _ i])
  next
    case (Reclaim_Busy s1 e)
    obtain b' r where bo: "backoff env b (clock i) (reclaim_context identity) e = (b', r)" by fastforce
    show ?thesis
    proof (cases r)
      case (Ok u)
      with bo have ok: "backoff env b (clock i) (reclaim_context identity) e = (b', Ok ())" by simp
      then have "bg_retries b < MAX_RETRIES" "bg_retries b' = bg_retries b + 1" by (auto simp: backoff_Ok)
      with retries_step [of "bg_retries b"] have "bg_retries b' \<le> MAX_RETRIES" "unat (bg_retries b') = unat (bg_retries b) + 1"
        by simp_all
      with "1.IH" [OF Reclaim_Busy ok [symmetric] refl] small Reclaim_Busy ok show ?thesis
        by (simp add: reclaim_loop.simps [of _ _ _ _ _ _ _ i])
    qed (use Reclaim_Busy bo small in \<open>simp_all add: reclaim_loop.simps [of _ _ _ _ _ _ _ i]\<close>)
  qed
qed

text \<open>A server in its grace period cannot hold the client in the RECLAIM_COMPLETE loop: with a fresh
  budget at most seventeen requests are sent, whatever the server answers.\<close>

theorem reclaim_rounds_bounded:
  "fst (reclaim_loop stat_error calls clock env auth identity slot 0 (budget_new env now) s) \<le> 17"
  using reclaim_loop_rounds [of "budget_new env now" stat_error calls clock env auth identity slot 0 s]
  by (simp add: budget_new_def)

subsection \<open>Publication\<close>

interpretation holder: fenced_store "\<lambda>h. ss_generation (sh_inner h)"
  "\<lambda>h expected new. fst (replace_with_callback_if_current accept h expected new)"
  "\<lambda>h new. accept (new\<lparr>ss_generation := saturating_add (ss_generation (sh_inner h)) 1\<rparr>) = Ok ()" for accept
  by unfold_locales
    (auto simp: replace_with_callback_if_current_def Let_def split: outcome.splits)

text \<open>C12. Of two recoveries that both saw the same session, only the first publishes its
  replacement: the second finds a newer generation and leaves the holder as it is.  The
  generation never decreases.\<close>

theorem replacement_published_once:
  assumes "ss_generation (sh_inner h) = expected" and "expected \<noteq> - 1"
    and "accept (first\<lparr>ss_generation := saturating_add expected 1\<rparr>) = Ok ()"
  defines "h' \<equiv> fst (replace_with_callback_if_current accept h expected first)"
  shows "replace_with_callback_if_current accept h' expected second = (h', Ok False)
    \<and> expected < ss_generation (sh_inner h')"
proof -
  have gen: "ss_generation (sh_inner h') = saturating_add expected 1"
    unfolding h'_def by (rule holder.fresh) (use assms in simp_all)
  have "unat expected \<noteq> unat (- 1 :: u64)" using assms(2) by (metis word_unat_eq_iff)
  then have "unat expected \<noteq> 18446744073709551615" by (simp add: unat_max_word)
  then have "expected < saturating_add expected 1"
    using unat_u64_le [of expected] by (simp add: word_less_nat_alt unat_saturating_add min_def)
  moreover from this have "ss_generation (sh_inner h') \<noteq> expected" unfolding gen by auto
  ultimately show ?thesis by (simp add: replace_with_callback_if_current_def gen)
qed

theorem replacement_published_once_witness:
  "replace_with_callback_if_current (\<lambda>_. Ok ())
     (fst (replace_with_callback_if_current (\<lambda>_. Ok ())
        (holder_new (new_session (with_minor_version 5 [] V1) 9 False ([], sample_attrs, sample_attrs))) 1
        (new_session (with_minor_version 5 [] V1) 10 True ([], sample_attrs, sample_attrs)))) 1
     (new_session (with_minor_version 5 [] V1) 11 False ([], sample_attrs, sample_attrs))
   = (fst (replace_with_callback_if_current (\<lambda>_. Ok ())
        (holder_new (new_session (with_minor_version 5 [] V1) 9 False ([], sample_attrs, sample_attrs))) 1
        (new_session (with_minor_version 5 [] V1) 10 True ([], sample_attrs, sample_attrs))), Ok False)"
  by (rule replacement_published_once [THEN conjunct1]) (simp_all add: holder_new_def)

end
