(* ===== verification/Layout_Manager.thy ===== *)
theory Layout_Manager
  imports Layout Session
begin

text \<open>
  The layout manager of a mount (\<open>LayoutManager\<close>, \<open>src/src/nfs41/layout.rs\<close>): the caches of layouts,
  device mappings, data-server connections and unreachable addresses, the ranges written through a
  layout that still need LAYOUTCOMMIT, and the generation that fences all of them when the session
  is replaced.

  Each operation takes one lock and is one function on the state.  \<open>transition_to\<close> has await points;
  it is the sequence of its atomic parts, and a cancelled call is a prefix of that sequence.  The
  weak maps of singleflight gates only make callers wait and are not modelled.
\<close>

subsection \<open>State\<close>

record dirty_range =
  dty_generation :: u64
  dty_start :: u64
  dty_end :: u64
  dty_revision :: u64

record ds_connection =
  dc_session :: session
  dc_owner_generation :: u64

text \<open>A retained write is shared between its caller and the manager; the manager holds its
  identity.\<close>

record layout_manager =
  lm_layouts :: "bytes \<rightharpoonup> layout"
  lm_data_servers :: "socket_addr \<rightharpoonup> ds_connection"
  lm_device_cache :: "bytes \<rightharpoonup> u64 \<times> device_info"
  lm_device_revision :: u64
  lm_dirty :: "bytes \<rightharpoonup> dirty_range"
  lm_pending_writes :: "bytes \<Rightarrow> nat list"
  lm_degenerate_logged :: bool
  lm_unreachable_ds :: "socket_addr set"
  lm_active_generation :: u64

definition manager_new :: layout_manager where
  "manager_new = \<lparr>lm_layouts = Map.empty, lm_data_servers = Map.empty, lm_device_cache = Map.empty,
     lm_device_revision = 0, lm_dirty = Map.empty, lm_pending_writes = (\<lambda>_. []),
     lm_degenerate_logged = False, lm_unreachable_ds = {}, lm_active_generation = 1\<rparr>"

subsection \<open>Replacing the session\<close>

definition clear_devices :: "layout_manager \<Rightarrow> layout_manager" where
  "clear_devices m = m\<lparr>lm_device_revision := lm_device_revision m + 1, lm_device_cache := Map.empty\<rparr>"

text \<open>The parts of \<open>transition_to\<close> between its await points.\<close>

definition publish_fence :: "u64 \<Rightarrow> layout_manager \<Rightarrow> layout_manager" where
  "publish_fence generation m = m\<lparr>lm_active_generation := generation\<rparr>"

definition purge_layouts :: "layout_manager \<Rightarrow> layout_manager" where
  "purge_layouts m = m\<lparr>lm_layouts := Map.empty, lm_data_servers := Map.empty\<rparr>"

definition purge_devices :: "layout_manager \<Rightarrow> layout_manager" where
  "purge_devices m = (clear_devices m)\<lparr>lm_dirty := Map.empty\<rparr>"

definition purge_writes :: "layout_manager \<Rightarrow> layout_manager" where
  "purge_writes m = m\<lparr>lm_pending_writes := (\<lambda>_. []), lm_unreachable_ds := {}\<rparr>"

definition transition_to :: "u64 \<Rightarrow> layout_manager \<Rightarrow> layout_manager" where
  "transition_to generation m = purge_writes (purge_devices (purge_layouts (publish_fence generation m)))"

definition clear :: "layout_manager \<Rightarrow> layout_manager" where
  "clear m = (clear_devices (m\<lparr>lm_layouts := Map.empty\<rparr>))\<lparr>lm_dirty := Map.empty, lm_pending_writes := (\<lambda>_. [])\<rparr>"

subsection \<open>Retained writes and unreachable servers\<close>

definition register_write :: "bytes \<Rightarrow> nat \<Rightarrow> layout_manager \<Rightarrow> layout_manager" where
  "register_write fh write m =
     m\<lparr>lm_pending_writes := (lm_pending_writes m)(fh := lm_pending_writes m fh @ [write])\<rparr>"

definition pending_writes :: "layout_manager \<Rightarrow> bytes \<Rightarrow> nat list" where
  "pending_writes m fh = lm_pending_writes m fh"

definition prune_completed_writes :: "(nat \<Rightarrow> bool) \<Rightarrow> bytes \<Rightarrow> layout_manager \<Rightarrow> layout_manager" where
  "prune_completed_writes is_done fh m =
     m\<lparr>lm_pending_writes := (lm_pending_writes m)(fh := filter (\<lambda>w. \<not> is_done w) (lm_pending_writes m fh))\<rparr>"

definition mark_ds_unreachable_at :: "socket_addr \<Rightarrow> u64 \<Rightarrow> layout_manager \<Rightarrow> layout_manager \<times> bool" where
  "mark_ds_unreachable_at addr generation m =
     (if generation \<noteq> lm_active_generation m then (m, False)
      else (m\<lparr>lm_unreachable_ds := insert addr (lm_unreachable_ds m)\<rparr>, True))"

definition is_ds_unreachable :: "layout_manager \<Rightarrow> socket_addr \<Rightarrow> bool" where
  "is_ds_unreachable m addr \<longleftrightarrow> addr \<in> lm_unreachable_ds m"

definition should_log_degenerate :: "layout_manager \<Rightarrow> layout_manager \<times> bool" where
  "should_log_degenerate m =
     (if lm_degenerate_logged m then (m, False) else (m\<lparr>lm_degenerate_logged := True\<rparr>, True))"

subsection \<open>Layouts\<close>

definition store_layout_at :: "bytes \<Rightarrow> u64 \<Rightarrow> layout \<Rightarrow> layout_manager \<Rightarrow> layout_manager \<times> bool" where
  "store_layout_at fh generation layout m =
     (if generation \<noteq> lm_active_generation m then (m, False)
      else (m\<lparr>lm_layouts := (lm_layouts m)(fh \<mapsto> layout\<lparr>lo_generation := generation\<rparr>)\<rparr>, True))"

definition get_layout :: "layout_manager \<Rightarrow> bytes \<Rightarrow> layout option" where
  "get_layout m fh =
     (case lm_layouts m fh of
        Some layout \<Rightarrow> if lo_generation layout = lm_active_generation m then Some layout else None
      | None \<Rightarrow> None)"

definition get_layout_covering :: "layout_manager \<Rightarrow> bytes \<Rightarrow> u64 \<Rightarrow> layout option" where
  "get_layout_covering m fh offset =
     (case get_layout m fh of
        Some layout \<Rightarrow> if list_ex (\<lambda>segment. covers segment offset) (lo_segments layout) then Some layout else None
      | None \<Rightarrow> None)"

definition merge_into :: "layout \<Rightarrow> layout \<Rightarrow> layout" where
  "merge_into current update =
     current\<lparr>lo_segments := sort_key seg_offset
               (filter (\<lambda>old. \<not> list_ex (layout_segments_overlap old) (lo_segments update)) (lo_segments current)
                @ lo_segments update),
             lo_stateid := lo_stateid update,
             lo_return_on_close := (lo_return_on_close current \<or> lo_return_on_close update)\<rparr>"

definition merge_layout :: "bytes \<Rightarrow> layout \<Rightarrow> layout_manager \<Rightarrow> layout_manager" where
  "merge_layout fh update m =
     (if lo_generation update \<noteq> lm_active_generation m then m
      else m\<lparr>lm_layouts := (lm_layouts m)(fh \<mapsto>
             (case lm_layouts m fh of Some current \<Rightarrow> merge_into current update | None \<Rightarrow> update))\<rparr>)"

definition remove_layout :: "bytes \<Rightarrow> layout_manager \<Rightarrow> layout_manager \<times> layout option" where
  "remove_layout fh m = (m\<lparr>lm_layouts := (lm_layouts m)(fh := None)\<rparr>, lm_layouts m fh)"

definition invalidate_layout_segments :: "bytes \<Rightarrow> layout_manager \<Rightarrow> layout_manager" where
  "invalidate_layout_segments fh m =
     m\<lparr>lm_layouts := (lm_layouts m)(fh := map_option (\<lambda>layout. layout\<lparr>lo_segments := []\<rparr>) (lm_layouts m fh))\<rparr>"

subsection \<open>Ranges that need LAYOUTCOMMIT\<close>

definition mark_dirty_at :: "bytes \<Rightarrow> u64 \<Rightarrow> u64 \<Rightarrow> u64 \<Rightarrow> layout_manager \<Rightarrow> layout_manager \<times> bool" where
  "mark_dirty_at fh generation start end m =
     (if generation \<noteq> lm_active_generation m then (m, False)
      else (m\<lparr>lm_dirty := (lm_dirty m)(fh \<mapsto>
             (case lm_dirty m fh of
                Some r \<Rightarrow> r\<lparr>dty_start := min (dty_start r) start, dty_end := max (dty_end r) end,
                                dty_revision := dty_revision r + 1\<rparr>
              | None \<Rightarrow> \<lparr>dty_generation = generation, dty_start = start, dty_end = end, dty_revision = 0\<rparr>))\<rparr>, True))"

definition snapshot_dirty :: "layout_manager \<Rightarrow> bytes \<Rightarrow> dirty_range option" where
  "snapshot_dirty m fh =
     (case lm_dirty m fh of
        Some r \<Rightarrow> if dty_generation r = lm_active_generation m then Some r else None
      | None \<Rightarrow> None)"

definition acknowledge_dirty :: "bytes \<Rightarrow> dirty_range \<Rightarrow> layout_manager \<Rightarrow> layout_manager \<times> bool" where
  "acknowledge_dirty fh committed m =
     (let unchanged = (lm_dirty m fh = Some committed \<and> dty_generation committed = lm_active_generation m)
      in (if unchanged then m\<lparr>lm_dirty := (lm_dirty m)(fh := None)\<rparr> else m, unchanged))"

subsection \<open>Device mappings\<close>

definition store_device_if_current ::
  "bytes \<Rightarrow> u64 \<Rightarrow> u64 \<Rightarrow> device_info \<Rightarrow> layout_manager \<Rightarrow> layout_manager \<times> bool" where
  "store_device_if_current device_id generation revision info m =
     (if generation \<noteq> lm_active_generation m \<or> revision \<noteq> lm_device_revision m then (m, False)
      else (m\<lparr>lm_device_cache := (lm_device_cache m)(device_id \<mapsto> (generation, info))\<rparr>, True))"

definition get_device :: "layout_manager \<Rightarrow> bytes \<Rightarrow> device_info option" where
  "get_device m device_id =
     (case lm_device_cache m device_id of
        Some (owner, info) \<Rightarrow> if owner = lm_active_generation m then Some info else None
      | None \<Rightarrow> None)"

definition invalidate_device :: "bytes \<Rightarrow> u64 \<Rightarrow> bool \<Rightarrow> layout_manager \<Rightarrow> layout_manager" where
  "invalidate_device device_id generation notified m =
     (if generation \<noteq> lm_active_generation m then m
      else let m' = m\<lparr>lm_device_revision := lm_device_revision m + 1,
                      lm_device_cache := (lm_device_cache m)(device_id := None)\<rparr>
           in case lm_device_cache m device_id of
                Some (_, info) \<Rightarrow>
                  if notified
                  then m'\<lparr>lm_unreachable_ds := lm_unreachable_ds m' - set (concat (di_ds_addrs info))\<rparr>
                  else m'
              | None \<Rightarrow> m')"

subsection \<open>Data-server connections\<close>

definition should_negative_cache_ds_error :: "nfs_error \<Rightarrow> bool" where
  "should_negative_cache_ds_error error \<longleftrightarrow>
     (case error of
        Io e \<Rightarrow> io_kind e \<in> {Kind_ConnectionRefused, Kind_HostUnreachable, Kind_NetworkUnreachable, Kind_TimedOut}
      | _ \<Rightarrow> False)"

text \<open>\<open>get_data_server\<close> up to its first await, after the gate is held, and after the attempt to connect.
  Between them other tasks act on the manager.  \<open>shown\<close> is the address as \<open>Display\<close> writes it.\<close>

definition cached_data_server :: "layout_manager \<Rightarrow> socket_addr \<Rightarrow> u64 \<Rightarrow> ds_connection option" where
  "cached_data_server m addr owner_generation =
     (case lm_data_servers m addr of
        Some conn \<Rightarrow> if dc_owner_generation conn = owner_generation then Some conn else None
      | None \<Rightarrow> None)"

definition ds_lookup :: "layout_manager \<Rightarrow> socket_addr \<Rightarrow> u64 \<Rightarrow> ds_connection option result" where
  "ds_lookup m addr owner_generation =
     (if owner_generation \<noteq> lm_active_generation m
      then Err (Rpc ''refusing data-server I/O for stale MDS generation'')
      else Ok (cached_data_server m addr owner_generation))"

definition ds_recheck :: "layout_manager \<Rightarrow> socket_addr \<Rightarrow> string \<Rightarrow> u64 \<Rightarrow> ds_connection option result" where
  "ds_recheck m addr shown owner_generation =
     (if owner_generation \<noteq> lm_active_generation m
      then Err (Rpc ''refusing data-server initialization for stale MDS generation'')
      else case cached_data_server m addr owner_generation of
             Some conn \<Rightarrow> Ok (Some conn)
           | None \<Rightarrow> if is_ds_unreachable m addr
                     then Err (Rpc (''pNFS data server '' @ shown @ '' marked unreachable''))
                     else Ok None)"

datatype connect_outcome = Connected session | Connect_Failed nfs_error | Connect_Timeout

definition ds_publish ::
  "connect_outcome \<Rightarrow> socket_addr \<Rightarrow> string \<Rightarrow> u64 \<Rightarrow> layout_manager \<Rightarrow> layout_manager \<times> ds_connection result" where
  "ds_publish outcome addr shown owner_generation m =
     (case outcome of
        Connected s \<Rightarrow>
          let conn = \<lparr>dc_session = s, dc_owner_generation = owner_generation\<rparr> in
          if lm_active_generation m \<noteq> owner_generation
          then (m, Err (Rpc ''discarding data-server connection from stale MDS generation''))
          else (m\<lparr>lm_data_servers := (lm_data_servers m)(addr \<mapsto> conn)\<rparr>, Ok conn)
      | Connect_Failed e \<Rightarrow>
          (if should_negative_cache_ds_error e then fst (mark_ds_unreachable_at addr owner_generation m) else m, Err e)
      | Connect_Timeout \<Rightarrow>
          (fst (mark_ds_unreachable_at addr owner_generation m),
           Err (Rpc (''pNFS data server '' @ shown @ '' connect timed out''))))"

text \<open>The steps of other tasks at the two awaits are \<open>others\<close> and \<open>others'\<close>.\<close>

definition get_data_server ::
  "(layout_manager \<Rightarrow> layout_manager) \<Rightarrow> (layout_manager \<Rightarrow> layout_manager) \<Rightarrow> connect_outcome
     \<Rightarrow> socket_addr \<Rightarrow> string \<Rightarrow> u64 \<Rightarrow> layout_manager \<Rightarrow> layout_manager \<times> ds_connection result" where
  "get_data_server others others' outcome addr shown owner_generation m =
     (case ds_lookup m addr owner_generation of
        Ok (Some conn) \<Rightarrow> (m, Ok conn)
      | Ok None \<Rightarrow>
          let m = others m in
          (case ds_recheck m addr shown owner_generation of
             Ok (Some conn) \<Rightarrow> (m, Ok conn)
           | Ok None \<Rightarrow> ds_publish outcome addr shown owner_generation (others' m)
           | Err e \<Rightarrow> (m, Err e)
           | Panic \<Rightarrow> (m, Panic))
      | Err e \<Rightarrow> (m, Err e)
      | Panic \<Rightarrow> (m, Panic))"

definition remove_data_server :: "socket_addr \<Rightarrow> layout_manager \<Rightarrow> layout_manager" where
  "remove_data_server addr m = m\<lparr>lm_data_servers := (lm_data_servers m)(addr := None)\<rparr>"

definition drain_data_servers :: "layout_manager \<Rightarrow> layout_manager" where
  "drain_data_servers m = m\<lparr>lm_data_servers := Map.empty\<rparr>"

subsection \<open>Schedules\<close>

text \<open>What the tasks of a mount do to the manager, one lock at a time.  A fence without the purges
  behind it is a transition that was cancelled at its first await.\<close>

datatype manager_event =
    Store_Layout bytes u64 layout
  | Merge_Layout bytes layout
  | Remove_Layout bytes
  | Invalidate_Segments bytes
  | Mark_Dirty bytes u64 u64 u64
  | Acknowledge_Dirty bytes dirty_range
  | Store_Device bytes u64 u64 device_info
  | Invalidate_Device bytes u64 bool
  | Publish_Server connect_outcome socket_addr string u64
  | Remove_Server socket_addr
  | Register_Write bytes nat
  | Fence u64
  | Purge_Layouts
  | Purge_Devices
  | Purge_Writes
  | Prune_Writes "nat \<Rightarrow> bool" bytes
  | Mark_Unreachable socket_addr u64
  | Log_Degenerate
  | Drain_Servers
  | Clear

primrec manager_step :: "manager_event \<Rightarrow> layout_manager \<Rightarrow> layout_manager" where
  "manager_step (Store_Layout fh g l) m = fst (store_layout_at fh g l m)"
| "manager_step (Merge_Layout fh l) m = merge_layout fh l m"
| "manager_step (Remove_Layout fh) m = fst (remove_layout fh m)"
| "manager_step (Invalidate_Segments fh) m = invalidate_layout_segments fh m"
| "manager_step (Mark_Dirty fh g s e) m = fst (mark_dirty_at fh g s e m)"
| "manager_step (Acknowledge_Dirty fh r) m = fst (acknowledge_dirty fh r m)"
| "manager_step (Store_Device d g r info) m = fst (store_device_if_current d g r info m)"
| "manager_step (Invalidate_Device d g notified) m = invalidate_device d g notified m"
| "manager_step (Publish_Server out a shown g) m = fst (ds_publish out a shown g m)"
| "manager_step (Remove_Server a) m = remove_data_server a m"
| "manager_step (Register_Write fh w) m = register_write fh w m"
| "manager_step (Fence g) m = publish_fence g m"
| "manager_step Purge_Layouts m = purge_layouts m"
| "manager_step Purge_Devices m = purge_devices m"
| "manager_step Purge_Writes m = purge_writes m"
| "manager_step (Prune_Writes is_done fh) m = prune_completed_writes is_done fh m"
| "manager_step (Mark_Unreachable a g) m = fst (mark_ds_unreachable_at a g m)"
| "manager_step Log_Degenerate m = fst (should_log_degenerate m)"
| "manager_step Drain_Servers m = drain_data_servers m"
| "manager_step Clear m = clear m"

definition manager_run :: "manager_event list \<Rightarrow> layout_manager \<Rightarrow> layout_manager" where
  "manager_run es m = fold manager_step es m"

lemma manager_run_simps [simp]:
  "manager_run [] m = m" "manager_run (e # es) m = manager_run es (manager_step e m)"
  by (simp_all add: manager_run_def)

lemmas manager_defs = store_layout_at_def merge_layout_def remove_layout_def invalidate_layout_segments_def
  mark_dirty_at_def acknowledge_dirty_def store_device_if_current_def invalidate_device_def ds_publish_def
  remove_data_server_def register_write_def publish_fence_def purge_layouts_def purge_devices_def clear_devices_def
  purge_writes_def mark_ds_unreachable_at_def prune_completed_writes_def should_log_degenerate_def
  drain_data_servers_def clear_def Let_def

subsection \<open>The newest layout answers\<close>

lemma covers_end: "covers s pos \<Longrightarrow> pos \<noteq> - 1 \<Longrightarrow> pos < segment_end s"
  unfolding covers_def segment_end_def
  by (auto simp: saturating_add_code checked_add_code order.strict_iff_order split: if_splits)

lemma covers_overlap: "covers a pos \<Longrightarrow> covers b pos \<Longrightarrow> pos \<noteq> - 1 \<Longrightarrow> layout_segments_overlap a b"
  using covers_end [of a pos] covers_end [of b pos]
  unfolding layout_segments_overlap_def covers_def by (meson order.strict_trans1)

text \<open>\<open>find_covering_segment\<close> of \<open>pnfs_io.rs\<close>.\<close>

definition find_covering_segment :: "layout \<Rightarrow> u64 \<Rightarrow> layout_segment option" where
  "find_covering_segment layout offset = find (\<lambda>segment. covers segment offset) (lo_segments layout)"

text \<open>C29. When a later LAYOUTGET answers for a byte, the cached layout answers for it with a segment
  of that reply: every older segment that would also cover the byte is gone.  The merged layout
  keeps its segments ordered by offset and carries the newest stateid.\<close>

theorem merged_layout_newest_wins:
  assumes "get_layout m fh = Some current" and "lo_generation update = lm_active_generation m"
    and "find_covering_segment update offset = Some s" and "offset \<noteq> - 1"
  shows "\<exists>merged segment. get_layout_covering (merge_layout fh update m) fh offset = Some merged
     \<and> find_covering_segment merged offset = Some segment
     \<and> segment \<in> set (lo_segments update) \<and> covers segment offset
     \<and> sorted (map seg_offset (lo_segments merged)) \<and> lo_stateid merged = lo_stateid update"
proof -
  let ?merged = "merge_into current update"
  have cur: "lm_layouts m fh = Some current" "lo_generation current = lm_active_generation m"
    using assms(1) by (auto simp: get_layout_def split: option.splits if_splits)
  have s: "s \<in> set (lo_segments update)" "covers s offset"
    using assms(3) by (auto simp: find_covering_segment_def find_Some_iff)
  then have ex: "\<exists>x\<in>set (lo_segments ?merged). covers x offset" by (auto simp: merge_into_def)
  then obtain x where x: "find_covering_segment ?merged offset = Some x"
    unfolding find_covering_segment_def by (cases "find (\<lambda>segment. covers segment offset) (lo_segments ?merged)")
      (auto simp: find_None_iff)
  then have mem: "x \<in> set (lo_segments ?merged)" "covers x offset"
    by (auto simp: find_covering_segment_def find_Some_iff)
  have "x \<in> set (lo_segments update)"
  proof (rule ccontr)
    assume "x \<notin> set (lo_segments update)"
    with mem(1) have "\<not> layout_segments_overlap x s"
      using s(1) by (auto simp: merge_into_def list_ex_iff)
    with covers_overlap [OF mem(2) s(2) assms(4)] show False by contradiction
  qed
  moreover have "get_layout_covering (merge_layout fh update m) fh offset = Some ?merged"
    using cur assms(2) ex by (auto simp: get_layout_covering_def get_layout_def merge_layout_def merge_into_def list_ex_iff)
  ultimately show ?thesis using x mem(2) by (auto simp: merge_into_def)
qed

subsection \<open>The fence\<close>

text \<open>No cached entry belongs to a generation above the active one.\<close>

definition owners_le :: "layout_manager \<Rightarrow> bool" where
  "owners_le m \<longleftrightarrow>
     (\<forall>fh l. lm_layouts m fh = Some l \<longrightarrow> lo_generation l \<le> lm_active_generation m)
   \<and> (\<forall>d g i. lm_device_cache m d = Some (g, i) \<longrightarrow> g \<le> lm_active_generation m)
   \<and> (\<forall>fh r. lm_dirty m fh = Some r \<longrightarrow> dty_generation r \<le> lm_active_generation m)
   \<and> (\<forall>a c. lm_data_servers m a = Some c \<longrightarrow> dc_owner_generation c \<le> lm_active_generation m)"

text \<open>The fences of a schedule never go back.\<close>

fun fences_rise :: "manager_event list \<Rightarrow> layout_manager \<Rightarrow> bool" where
  "fences_rise [] m \<longleftrightarrow> True"
| "fences_rise (e # es) m \<longleftrightarrow>
     (case e of Fence g \<Rightarrow> lm_active_generation m \<le> g | _ \<Rightarrow> True) \<and> fences_rise es (manager_step e m)"

lemma owners_le_step:
  assumes "owners_le m" and "case e of Fence g \<Rightarrow> lm_active_generation m \<le> g | _ \<Rightarrow> True"
  shows "owners_le (manager_step e m)"
proof (cases e)
  case (Publish_Server out a shown g)
  with assms(1) show ?thesis by (cases out) (auto simp: owners_le_def manager_defs)
next
  case (Fence g)
  with assms(2) have up: "x \<le> lm_active_generation m \<Longrightarrow> x \<le> g" for x by (auto intro: order.trans)
  show ?thesis using assms(1) up unfolding Fence by (simp add: owners_le_def publish_fence_def)
next
  case (Merge_Layout fh l)
  with assms(1) show ?thesis by (auto simp: owners_le_def merge_layout_def merge_into_def split: option.splits)
next
  case (Invalidate_Device d g b)
  with assms(1) show ?thesis
    by (auto simp: owners_le_def invalidate_device_def Let_def split: option.splits if_splits)
qed (use assms(1) in \<open>auto simp: owners_le_def manager_defs split: option.splits if_splits\<close>)

lemma owners_le_run: "owners_le m \<Longrightarrow> fences_rise es m \<Longrightarrow> owners_le (manager_run es m)"
  by (induction es arbitrary: m) (auto intro: owners_le_step)

lemma owners_le_new: "owners_le manager_new"
  by (simp add: owners_le_def manager_new_def)

lemma fenced_lookups:
  assumes "owners_le m" and "lm_active_generation m < g"
  shows "get_layout (publish_fence g m) fh = None" "get_device (publish_fence g m) device = None"
    "snapshot_dirty (publish_fence g m) fh = None" "cached_data_server (publish_fence g m) addr g = None"
  using assms unfolding owners_le_def publish_fence_def get_layout_def get_device_def snapshot_dirty_def cached_data_server_def
  by (auto split: option.splits; meson leD)+

text \<open>C28. Publishing a newer generation hides every cache at once, on every schedule of the other
  tasks: before any map is cleared, no layout, device mapping, pending range or data-server
  connection of an older session can be looked up, so a recovery cancelled there is safe.\<close>

theorem fence_hides_caches:
  assumes "fences_rise es manager_new" and "lm_active_generation (manager_run es manager_new) < generation"
  defines "m \<equiv> publish_fence generation (manager_run es manager_new)"
  shows "get_layout m fh = None \<and> get_device m device = None \<and> snapshot_dirty m fh = None
    \<and> ds_lookup m addr generation = Ok None"
  unfolding m_def ds_lookup_def
  using fenced_lookups [OF owners_le_run [OF owners_le_new assms(1)] assms(2)] by (simp add: publish_fence_def)

subsection \<open>Device notifications\<close>

text \<open>How often a schedule makes the device mappings change.\<close>

fun device_changes :: "manager_event list \<Rightarrow> layout_manager \<Rightarrow> nat" where
  "device_changes [] m = 0"
| "device_changes (e # es) m =
     (case e of Invalidate_Device _ g _ \<Rightarrow> of_bool (g = lm_active_generation m) | Purge_Devices \<Rightarrow> 1 | Clear \<Rightarrow> 1 | _ \<Rightarrow> 0)
     + device_changes es (manager_step e m)"

lemma device_revision_step:
  "lm_device_revision (manager_step e m) = lm_device_revision m
     + (case e of Invalidate_Device _ g _ \<Rightarrow> of_bool (g = lm_active_generation m) | Purge_Devices \<Rightarrow> 1 | Clear \<Rightarrow> 1 | _ \<Rightarrow> 0)"
  by (cases e) (auto simp: manager_defs split: option.splits connect_outcome.splits if_splits)

lemma device_revision_run:
  "lm_device_revision (manager_run es m) = lm_device_revision m + word_of_nat (device_changes es m)"
  by (induction es arbitrary: m) (auto simp: device_revision_step add.assoc split: manager_event.splits)

lemma device_changes_le: "device_changes es m \<le> length es"
proof (induction es arbitrary: m)
  case (Cons e es)
  then show ?case using Cons [of "manager_step e m"] by (cases e) (auto intro: le_SucI)
qed simp

text \<open>A GETDEVICEINFO reply that was requested before a device notification is never cached after
  it: whatever the other tasks did in between, if the mappings changed, the reply is discarded.\<close>

theorem stale_device_reply_discarded:
  assumes "0 < device_changes es m" and "length es < 2 ^ 64"
  shows "store_device_if_current device generation (lm_device_revision m) info (manager_run es m) = (manager_run es m, False)"
proof -
  have "device_changes es m < 2 ^ 64" using device_changes_le [of es m] assms(2) by linarith
  then have "unat (word_of_nat (device_changes es m) :: u64) = device_changes es m"
    by (intro unat_of_nat_small) simp
  with assms(1) have "(word_of_nat (device_changes es m) :: u64) \<noteq> 0" by auto
  then show ?thesis by (simp add: store_device_if_current_def device_revision_run)
qed

subsection \<open>Ranges written through a layout\<close>














text \<open>A range that an earlier generation left behind swallows the next one.  When a transition is cancelled
  after it published the new generation, the old range is still there; a write of the new
  generation then extends it, is told that the mark was accepted, and leaves nothing to LAYOUTCOMMIT,
  because the entry keeps the old generation.\<close>

lemma stale_range_hides_mark:
  fixes start upto :: u64
  assumes "lm_dirty m fh = Some r" and "dty_generation r \<noteq> lm_active_generation m"
  shows "snd (mark_dirty_at fh (lm_active_generation m) start upto m)
    \<and> snapshot_dirty (fst (mark_dirty_at fh (lm_active_generation m) start upto m)) fh = None"
  using assms by (simp add: mark_dirty_at_def snapshot_dirty_def)

lemma cancelled_transition_hides_mark:
  fixes start upto :: u64
  shows "let m = manager_run [Mark_Dirty fh 1 0 10, Fence 2] manager_new
   in snd (mark_dirty_at fh 2 start upto m) \<and> snapshot_dirty (fst (mark_dirty_at fh 2 start upto m)) fh = None"
proof -
  define m where "m = manager_run [Mark_Dirty fh 1 0 10, Fence 2] manager_new"
  have "lm_active_generation m = 2" "\<exists>r. lm_dirty m fh = Some r \<and> dty_generation r = 1"
    by (simp_all add: m_def mark_dirty_at_def publish_fence_def manager_new_def)
  with stale_range_hides_mark [of m fh _ start upto] show ?thesis unfolding m_def [symmetric] Let_def by auto
qed

subsection \<open>Witnesses\<close>

definition sample_segment :: "u64 \<Rightarrow> u64 \<Rightarrow> layout_segment" where
  "sample_segment offset len = \<lparr>seg_offset = offset, seg_length = len, seg_iomode = Io_Read, seg_layout_type = NfsV41Files,
     seg_content = FilesLayout (replicate 16 9) 65536 True False 0 0 [[1]]\<rparr>"

definition sample_grant :: "u64 \<Rightarrow> layout_segment list \<Rightarrow> layout" where
  "sample_grant generation segments = \<lparr>lo_generation = generation, lo_stateid = [2], lo_return_on_close = False, lo_segments = segments\<rparr>"

theorem merged_layout_newest_wins_witness:
  "\<exists>merged segment. get_layout_covering
       (merge_layout [7] (sample_grant 1 [sample_segment 100 50])
         (fst (store_layout_at [7] 1 (sample_grant 0 [sample_segment 0 (- 1)]) manager_new))) [7] 120 = Some merged
     \<and> find_covering_segment merged 120 = Some segment \<and> segment \<in> set [sample_segment 100 50]
     \<and> covers segment 120 \<and> sorted (map seg_offset (lo_segments merged)) \<and> lo_stateid merged = [2]"
proof -
  have s: "find_covering_segment (sample_grant 1 [sample_segment 100 50]) 120 = Some (sample_segment 100 50)"
    by (simp add: find_covering_segment_def sample_grant_def sample_segment_def covers_def checked_add_code)
  have c: "get_layout (fst (store_layout_at [7] 1 (sample_grant 0 [sample_segment 0 (- 1)]) manager_new)) [7]
      = Some (sample_grant 1 [sample_segment 0 (- 1)])"
    by (simp add: get_layout_def store_layout_at_def manager_new_def sample_grant_def)
  show ?thesis
    using merged_layout_newest_wins [OF c _ s] by (simp add: store_layout_at_def manager_new_def sample_grant_def)
qed

theorem fence_hides_caches_witness:
  "let m = publish_fence 2 (manager_run [Store_Layout [7] 1 (sample_grant 0 []), Mark_Dirty [7] 1 0 10] manager_new)
   in get_layout m [7] = None \<and> get_device m [3] = None \<and> snapshot_dirty m [7] = None
      \<and> ds_lookup m (SocketV4 1 2049) 2 = Ok None \<and> lm_layouts m [7] \<noteq> None"
proof -
  let ?es = "[Store_Layout [7] 1 (sample_grant 0 []), Mark_Dirty [7] 1 0 10]"
  have r: "fences_rise ?es manager_new" by simp
  have g: "lm_active_generation (manager_run ?es manager_new) < 2"
    by (simp add: manager_defs manager_new_def)
  show ?thesis
    using fence_hides_caches [OF r g, of "[7]" "[3]" "SocketV4 1 2049"] unfolding Let_def
    by (simp del: manager_run_simps) (simp add: manager_defs manager_new_def)
qed

theorem stale_device_reply_discarded_witness:
  "snd (store_device_if_current [3] 1 0 \<lparr>di_stripe_indices = [], di_ds_addrs = []\<rparr>
     (manager_run [Register_Write [7] 0, Invalidate_Device [3] 1 True] manager_new)) = False"
proof -
  have c: "0 < device_changes [Register_Write [7] 0, Invalidate_Device [3] 1 True] manager_new"
    by (simp add: register_write_def manager_new_def)
  have "lm_device_revision manager_new = 0" by (simp add: manager_new_def)
  then show ?thesis
    using stale_device_reply_discarded [OF c, of "[3]" 1 "\<lparr>di_stripe_indices = [], di_ds_addrs = []\<rparr>"]
    by (simp del: manager_run_simps)
qed


end
