(* ===== verification/Callback41.thy ===== *)
theory Callback41
  imports Layout_Manager Rpc_Wire
begin

text \<open>
  The NFSv4.1 backchannel (\<open>src/src/nfs41/callback.rs\<close>): the CB_COMPOUND requests a server sends over
  the connection of the client, with the reply cache of each callback slot.

  The handler runs under one lock, so it is a function from the frame and the state to the state
  and the reply.  The state is the callback session, the bounded channel to the recall task and the
  layout manager whose device mappings a notification drops.  A poisoned lock is not modelled: the
  handler is shown not to panic.
\<close>

subsection \<open>State\<close>

definition MAX_CB_OPS :: u32 where "MAX_CB_OPS = 64"
definition MAX_REFERRING_LISTS :: nat where "MAX_REFERRING_LISTS = 256"
definition NFS4_OK :: u32 where "NFS4_OK = 0"
definition NFS4ERR_DELAY :: u32 where "NFS4ERR_DELAY = 10008"
definition NFS4ERR_BADXDR :: u32 where "NFS4ERR_BADXDR = 10036"
definition NFS4ERR_BADSESSION :: u32 where "NFS4ERR_BADSESSION = 10052"
definition NFS4ERR_BADSLOT :: u32 where "NFS4ERR_BADSLOT = 10053"
definition NFS4ERR_OP_ILLEGAL :: u32 where "NFS4ERR_OP_ILLEGAL = 10044"
definition CB_FALSE_RETRY :: u32 where "CB_FALSE_RETRY = 10062"
definition NFS4ERR_SEQ_MISORDERED :: u32 where "NFS4ERR_SEQ_MISORDERED = 10063"
definition NFS4ERR_OP_NOT_IN_SESSION :: u32 where "NFS4ERR_OP_NOT_IN_SESSION = 10071"
definition CB_MINOR_VERS_MISMATCH :: u32 where "CB_MINOR_VERS_MISMATCH = 10021"
definition NFS4ERR_INVAL :: u32 where "NFS4ERR_INVAL = 22"
definition CB_RECALL :: u32 where "CB_RECALL = 4"
definition CB_LAYOUTRECALL :: u32 where "CB_LAYOUTRECALL = 5"
definition CB_SEQUENCE :: u32 where "CB_SEQUENCE = 11"
definition CB_NOTIFY_DEVICEID :: u32 where "CB_NOTIFY_DEVICEID = 14"

datatype recall_notification =
    Delegation bytes bool bytes
  | LayoutFile bytes bytes u64 u64 u32
  | LayoutAll

record callback_slot =
  cbs_next_sequence :: u32
  cbs_request :: "bytes option"
  cbs_compound_reply :: "bytes option"

record callback_session =
  cbn_minor_version :: minor_version
  cbn_session_id :: bytes
  cbn_generation :: u64
  cbn_max_request_size :: nat
  cbn_max_operations :: u32
  cbn_slots :: "callback_slot list"

definition callback_slots :: "u32 \<Rightarrow> callback_slot list" where
  "callback_slots requests =
     replicate (unat (max requests 1)) \<lparr>cbs_next_sequence = 1, cbs_request = None, cbs_compound_reply = None\<rparr>"

definition new_negotiated :: "bytes \<Rightarrow> u64 \<Rightarrow> u32 \<Rightarrow> u32 \<Rightarrow> u32 \<Rightarrow> minor_version \<Rightarrow> callback_session" where
  "new_negotiated session_id generation requests max_request_size max_operations minor =
     \<lparr>cbn_minor_version = minor, cbn_session_id = session_id, cbn_generation = generation,
      cbn_max_request_size = unat (max max_request_size 1),
      cbn_max_operations = min (max max_operations 1) MAX_CB_OPS,
      cbn_slots = callback_slots requests\<rparr>"

definition update_session ::
  "bytes \<Rightarrow> u64 \<Rightarrow> u32 \<Rightarrow> u32 \<Rightarrow> u32 \<Rightarrow> callback_session \<Rightarrow> callback_session result" where
  "update_session session_id generation requests max_request_size max_operations state =
     (if generation < cbn_generation state
      then Err (Rpc ''refusing stale callback session publication'')
      else if generation = cbn_generation state \<and> session_id = cbn_session_id state then Ok state
      else Ok (state\<lparr>cbn_session_id := session_id, cbn_generation := generation,
                     cbn_max_request_size := unat (max max_request_size 1),
                     cbn_max_operations := min (max max_operations 1) MAX_CB_OPS,
                     cbn_slots := callback_slots requests\<rparr>))"

text \<open>What the handler reaches: the session, the channel of the recall task and the layouts.
  \<open>try_send\<close> fails when the channel is full or its receiver is gone.\<close>

record backchannel =
  bc_session :: callback_session
  bc_recalls :: "recall_notification list"
  bc_capacity :: nat
  bc_receiver_alive :: bool
  bc_layouts :: layout_manager

definition try_send :: "recall_notification \<Rightarrow> backchannel \<Rightarrow> backchannel \<times> bool" where
  "try_send n w =
     (if bc_receiver_alive w \<and> length (bc_recalls w) < bc_capacity w
      then (w\<lparr>bc_recalls := bc_recalls w @ [n]\<rparr>, True) else (w, False))"

subsection \<open>Replies\<close>

definition op_status :: "u32 \<Rightarrow> u32 \<Rightarrow> bytes" where
  "op_status opcode status = u32_to_be opcode @ u32_to_be status"

definition write_opaque :: "bytes \<Rightarrow> bytes" where
  "write_opaque value = u32_to_be (word_of_nat (length value)) @ value @ replicate ((4 - length value mod 4) mod 4) 0"

definition compound_body :: "bytes \<Rightarrow> u32 \<Rightarrow> bytes list \<Rightarrow> bytes" where
  "compound_body tag status replies =
     u32_to_be status @ write_opaque tag @ u32_to_be (word_of_nat (length replies)) @ concat replies"

definition compound_error_body :: "bytes \<Rightarrow> u32 \<Rightarrow> bytes" where
  "compound_error_body tag status = compound_body tag status []"

definition build_rpc_reply :: "u32 \<Rightarrow> bytes \<Rightarrow> bytes" where
  "build_rpc_reply xid body =
     u32_to_be xid @ u32_to_be 1 @ u32_to_be 0 @ u32_to_be 0 @ u32_to_be 0 @ u32_to_be 0 @ body"

subsection \<open>Arguments\<close>

definition cb_read_opaque :: "(bytes, nfs_error) reader" where
  "cb_read_opaque =
     rbind (need 4 (Xdr ''opaque length truncated'')) (\<lambda>_.
     rbind get_u32 (\<lambda>len.
     rbind (need (pad_up (unat len)) (Xdr ''opaque data truncated'')) (\<lambda>_.
     slice_advance (unat len) (pad_up (unat len)))))"

definition read_rpc_auth :: "(u32 \<times> nat, nfs_error) reader" where
  "read_rpc_auth =
     rbind (need 8 (Xdr ''RPC auth truncated'')) (\<lambda>_.
     rbind get_u32 (\<lambda>flavor.
     rbind get_u32 (\<lambda>len.
     rbind (need (pad_up (unat len)) (Xdr ''RPC auth body truncated'')) (\<lambda>_.
     rbind (advance (pad_up (unat len))) (\<lambda>_.
     rreturn (flavor, unat len))))))"

record sequence_args =
  sa_session_id :: bytes
  sa_sequence_id :: u32
  sa_slot_id :: u32

definition skip_referring_list :: "(unit, nfs_error) reader" where
  "skip_referring_list =
     rbind (need 20 (Xdr ''referring call list truncated'')) (\<lambda>_.
     rbind (advance 16) (\<lambda>_.
     rbind get_u32 (\<lambda>calls.
     rbind (need (unat calls * 8) (Xdr ''referring calls truncated'')) (\<lambda>_.
     advance (unat calls * 8)))))"

definition parse_sequence :: "(sequence_args, nfs_error) reader" where
  "parse_sequence =
     rbind (need 32 (Xdr ''CB_SEQUENCE truncated'')) (\<lambda>_.
     rbind (get_bytes 16) (\<lambda>session_id.
     rbind get_u32 (\<lambda>sequence_id.
     rbind get_u32 (\<lambda>slot_id.
     rbind get_u32 (\<lambda>highest_slot_id.
     rbind get_u32 (\<lambda>cache_this.
     rbind (need 4 (Xdr ''referring call list count truncated'')) (\<lambda>_.
     rbind get_u32 (\<lambda>count.
     if unat count > MAX_REFERRING_LISTS then rfail (Xdr ''too many referring call lists'')
     else rbind (read_n (unat count) skip_referring_list) (\<lambda>_.
     rreturn \<lparr>sa_session_id = session_id, sa_sequence_id = sequence_id, sa_slot_id = slot_id\<rparr>)))))))))"

definition sequence_reply :: "sequence_args \<Rightarrow> u32 \<Rightarrow> bytes \<Rightarrow> bytes" where
  "sequence_reply sequence max_slot session_id =
     op_status CB_SEQUENCE NFS4_OK @ session_id @ u32_to_be (sa_sequence_id sequence)
     @ u32_to_be (sa_slot_id sequence) @ u32_to_be max_slot @ u32_to_be max_slot"

text \<open>The words of a notification bitmap behind the first must be zero.\<close>

fun zero_words :: "nat \<Rightarrow> (unit, nfs_error) reader" where
  "zero_words 0 = rreturn ()"
| "zero_words (Suc k) = rbind get_u32 (\<lambda>w.
     if w \<noteq> 0 then rfail (Xdr ''unknown device notification type'') else zero_words k)"

definition notify_value :: "u32 \<Rightarrow> u32 \<Rightarrow> nat \<Rightarrow> (bytes list, nfs_error) reader" where
  "notify_value kinds flag width =
     (if kinds AND flag = 0 then rreturn []
      else rbind (need width (Xdr ''device notification value truncated'')) (\<lambda>_.
           rbind get_u32 (\<lambda>layout_type.
           rbind (get_bytes 16) (\<lambda>device.
           rbind (if flag = 2
                  then rbind get_u32 (\<lambda>immediate.
                       if immediate > 1 then rfail (Xdr ''invalid device notification boolean'') else rreturn ())
                  else rreturn ()) (\<lambda>_.
           rreturn (if layout_type = 1 then [device] else []))))))"

definition notify_values :: "u32 \<Rightarrow> bytes \<Rightarrow> bytes list result" where
  "notify_values kinds values =
     and_then ((rbind (notify_value kinds 2 24) (\<lambda>changed.
                rbind (notify_value kinds 4 20) (\<lambda>deleted.
                rreturn (changed @ deleted)))) values)
       (\<lambda>(devices, rest). if rest \<noteq> [] then Err (Xdr ''trailing device notification values'') else Ok devices)"

definition parse_notification :: "(bytes list, nfs_error) reader" where
  "parse_notification =
     rbind (need 8 (Xdr ''invalid device notification bitmap'')) (\<lambda>_.
     rbind get_u32 (\<lambda>words.
     (\<lambda>d. if words = 0 \<or> unat words > length d div 4
          then Err (Xdr ''device notification bitmap truncated'')
          else rbind get_u32 (\<lambda>kinds.
               rbind (zero_words (unat words - 1)) (\<lambda>_.
               if kinds = 0 \<or> kinds AND NOT 6 \<noteq> 0 then rfail (Xdr ''unknown device notification type'')
               else rbind cb_read_opaque (\<lambda>values. lift (notify_values kinds values)))) d)))"

definition parse_device_notifications :: "(bytes list, nfs_error) reader" where
  "parse_device_notifications =
     rbind (need 4 (Xdr ''device notification count truncated'')) (\<lambda>_.
     rbind get_u32 (\<lambda>count.
     (\<lambda>d. if unat count > 4096 \<or> unat count > length d div 12
          then Err (Xdr ''device notification count exceeds payload'')
          else rbind (read_n (unat count) parse_notification) (\<lambda>devices. rreturn (concat devices)) d)))"

definition recall_args :: "(recall_notification, nfs_error) reader" where
  "recall_args =
     rbind (need 20 (Xdr ''CB_RECALL truncated'')) (\<lambda>_.
     rbind (get_bytes 16) (\<lambda>stateid.
     rbind get_u32 (\<lambda>truncate.
     rbind cb_read_opaque (\<lambda>fh.
     rreturn (Delegation stateid (truncate \<noteq> 0) fh)))))"

text \<open>\<open>None\<close> stands for a recall type that is not defined.\<close>

definition layout_recall_args :: "(recall_notification option, nfs_error) reader" where
  "layout_recall_args =
     rbind (need 16 (Xdr ''CB_LAYOUTRECALL truncated'')) (\<lambda>_.
     rbind get_u32 (\<lambda>layout_type.
     rbind get_u32 (\<lambda>iomode.
     rbind get_u32 (\<lambda>changed.
     rbind get_u32 (\<lambda>recall_type.
     if recall_type = 1 then
       rbind cb_read_opaque (\<lambda>fh.
       rbind (need 32 (Xdr ''CB_LAYOUTRECALL file truncated'')) (\<lambda>_.
       rbind get_u64 (\<lambda>offset.
       rbind get_u64 (\<lambda>len.
       rbind (get_bytes 16) (\<lambda>stateid.
       rreturn (Some (LayoutFile stateid fh offset len iomode)))))))
     else if recall_type = 2 then
       rbind (need 16 (Xdr ''CB_LAYOUTRECALL fsid truncated'')) (\<lambda>_.
       rbind (advance 16) (\<lambda>_. rreturn (Some LayoutAll)))
     else if recall_type = 3 then rreturn (Some LayoutAll)
     else rreturn None)))))"

subsection \<open>One operation\<close>

definition finish_op :: "u32 \<Rightarrow> u32 \<Rightarrow> bytes \<Rightarrow> backchannel \<Rightarrow> (bytes \<times> u32 \<times> bytes \<times> backchannel) result" where
  "finish_op opcode status rest w = Ok (op_status opcode status, status, rest, w)"

definition send_recall :: "u32 \<Rightarrow> recall_notification \<Rightarrow> bytes \<Rightarrow> backchannel \<Rightarrow> (bytes \<times> u32 \<times> bytes \<times> backchannel) result" where
  "send_recall opcode n rest w =
     (let (w', sent) = try_send n w in finish_op opcode (if sent then NFS4_OK else NFS4ERR_DELAY) rest w')"

definition parse_layout_recall :: "u32 \<Rightarrow> bytes \<Rightarrow> backchannel \<Rightarrow> (bytes \<times> u32 \<times> bytes \<times> backchannel) result" where
  "parse_layout_recall opcode buf w =
     (case layout_recall_args buf of
        Ok (Some n, rest) \<Rightarrow> send_recall opcode n rest w
      | Ok (None, rest) \<Rightarrow> finish_op opcode NFS4ERR_INVAL rest w
      | Err _ \<Rightarrow> finish_op opcode NFS4ERR_BADXDR [] w
      | Panic \<Rightarrow> Panic)"

text \<open>The reply, its status, the bytes left and the state.  After a status other than \<open>NFS4_OK\<close> the
  bytes left are not read any more.\<close>

definition parse_callback_op :: "u32 \<Rightarrow> bytes \<Rightarrow> backchannel \<Rightarrow> (bytes \<times> u32 \<times> bytes \<times> backchannel) result" where
  "parse_callback_op opcode buf w =
     (if opcode = CB_RECALL then
        (case recall_args buf of
           Ok (n, rest) \<Rightarrow> send_recall opcode n rest w
         | Err _ \<Rightarrow> finish_op opcode NFS4ERR_BADXDR [] w
         | Panic \<Rightarrow> Panic)
      else if opcode = CB_LAYOUTRECALL then parse_layout_recall opcode buf w
      else if opcode = CB_NOTIFY_DEVICEID then
        (case parse_device_notifications buf of
           Ok (devices, rest) \<Rightarrow>
             finish_op opcode NFS4_OK rest
               (w\<lparr>bc_layouts := fold (\<lambda>device. invalidate_device device (cbn_generation (bc_session w)) True)
                    devices (bc_layouts w)\<rparr>)
         | Err _ \<Rightarrow> finish_op opcode NFS4ERR_BADXDR [] w
         | Panic \<Rightarrow> Panic)
      else finish_op opcode NFS4ERR_OP_ILLEGAL buf w)"

text \<open>The operations behind CB_SEQUENCE, up to the first that fails.\<close>

fun callback_ops :: "nat \<Rightarrow> bytes \<Rightarrow> backchannel \<Rightarrow> (bytes list \<times> u32 \<times> backchannel) result" where
  "callback_ops 0 buf w = Ok ([], NFS4_OK, w)"
| "callback_ops (Suc k) buf w =
     (if length buf < 4 then Ok ([], NFS4ERR_BADXDR, w)
      else and_then (parse_callback_op (u32_from_be (take 4 buf)) (drop 4 buf) w) (\<lambda>(reply, status, rest, w').
           if status \<noteq> NFS4_OK then Ok ([reply], status, w')
           else and_then (callback_ops k rest w') (\<lambda>(replies, status', w''). Ok (reply # replies, status', w''))))"

subsection \<open>CB_COMPOUND\<close>

definition compound_header :: "(bytes \<times> u32 \<times> u32, nfs_error) reader" where
  "compound_header =
     rbind cb_read_opaque (\<lambda>tag.
     rbind (need 12 (Xdr ''CB_COMPOUND args truncated'')) (\<lambda>_.
     rbind get_u32 (\<lambda>minor_version.
     rbind get_u32 (\<lambda>callback_ident.
     rbind get_u32 (\<lambda>num_ops.
     rreturn (tag, minor_version, num_ops))))))"

definition reject_sequence :: "bytes \<Rightarrow> u32 \<Rightarrow> bytes" where
  "reject_sequence tag status = compound_body tag status [op_status CB_SEQUENCE status]"

text \<open>The request is new on its slot: execute it and remember the reply.\<close>

definition execute_callback ::
  "bytes \<Rightarrow> bytes \<Rightarrow> u32 \<Rightarrow> sequence_args \<Rightarrow> bytes \<Rightarrow> backchannel \<Rightarrow> backchannel \<times> bytes result" where
  "execute_callback request tag num_ops sequence buf w =
     (let session = bc_session w;
          max_slot = word_of_nat (length (cbn_slots session) - 1);
          i = unat (sa_slot_id sequence)
      in case callback_ops (unat num_ops - 1) buf w of
           Ok (replies, status, w') \<Rightarrow>
             let reply = compound_body tag status (sequence_reply sequence max_slot (cbn_session_id session) # replies)
             in (w'\<lparr>bc_session := session\<lparr>cbn_slots := (cbn_slots session)[i :=
                   \<lparr>cbs_next_sequence = sa_sequence_id sequence + 1, cbs_request = Some request,
                    cbs_compound_reply = Some reply\<rparr>]\<rparr>\<rparr>, Ok reply)
         | Err e \<Rightarrow> (w, Err e)
         | Panic \<Rightarrow> (w, Panic))"

definition callback_sequence ::
  "bytes \<Rightarrow> bytes \<Rightarrow> u32 \<Rightarrow> sequence_args \<Rightarrow> bytes \<Rightarrow> backchannel \<Rightarrow> backchannel \<times> bytes result" where
  "callback_sequence request tag num_ops sequence buf w =
     (let session = bc_session w; i = unat (sa_slot_id sequence) in
      if sa_session_id sequence \<noteq> cbn_session_id session then (w, Ok (reject_sequence tag NFS4ERR_BADSESSION))
      else if \<not> i < length (cbn_slots session) then (w, Ok (reject_sequence tag NFS4ERR_BADSLOT))
      else
        let slot = cbn_slots session ! i in
        if sa_sequence_id sequence = cbs_next_sequence slot - 1 \<and> cbs_request slot \<noteq> None then
          (case cbs_compound_reply slot of
             Some reply \<Rightarrow> if cbs_request slot = Some request then (w, Ok reply)
                           else (w, Ok (reject_sequence tag CB_FALSE_RETRY))
           | None \<Rightarrow> (w, Ok (reject_sequence tag CB_FALSE_RETRY)))
        else if sa_sequence_id sequence \<noteq> cbs_next_sequence slot
        then (w, Ok (reject_sequence tag NFS4ERR_SEQ_MISORDERED))
        else execute_callback request tag num_ops sequence buf w)"

definition parse_compound :: "bytes \<Rightarrow> backchannel \<Rightarrow> backchannel \<times> bytes result" where
  "parse_compound request w =
     (case compound_header request of
        Err e \<Rightarrow> (w, Err e)
      | Panic \<Rightarrow> (w, Panic)
      | Ok ((tag, minor, num_ops), buf) \<Rightarrow>
          let session = bc_session w in
          if minor \<noteq> minor_code (cbn_minor_version session)
          then (w, Ok (compound_error_body tag CB_MINOR_VERS_MISMATCH))
          else if length request > cbn_max_request_size session \<or> num_ops > cbn_max_operations session
          then (w, Ok (compound_error_body tag NFS4ERR_BADXDR))
          else if num_ops = 0 then (w, Ok (compound_body tag NFS4_OK []))
          else if length buf < 4 then (w, Ok (compound_error_body tag NFS4ERR_BADXDR))
          else
            let first_opcode = u32_from_be (take 4 buf) in
            if first_opcode \<noteq> CB_SEQUENCE
            then (w, Ok (compound_body tag NFS4ERR_OP_NOT_IN_SESSION [op_status first_opcode NFS4ERR_OP_NOT_IN_SESSION]))
            else case parse_sequence (drop 4 buf) of
                   Ok (sequence, rest) \<Rightarrow> callback_sequence request tag num_ops sequence rest w
                 | Err _ \<Rightarrow> (w, Ok (reject_sequence tag NFS4ERR_BADXDR))
                 | Panic \<Rightarrow> (w, Panic))"

subsection \<open>The RPC envelope\<close>

definition call_header :: "(u32, nfs_error) reader" where
  "call_header =
     rbind (need 20 (Xdr ''CB RPC header too short'')) (\<lambda>_.
     rbind get_u32 (\<lambda>msg_type.
     rbind get_u32 (\<lambda>rpc_version.
     rbind get_u32 (\<lambda>program.
     rbind get_u32 (\<lambda>version.
     rbind get_u32 (\<lambda>procedure.
     if msg_type \<noteq> 0 \<or> rpc_version \<noteq> 2 \<or> program \<noteq> CB_PROGRAM \<or> version \<noteq> 1
     then rfail (Rpc (''invalid callback RPC header type='' @ show_nat (unat msg_type) @ '' rpc='' @ show_nat (unat rpc_version)
            @ '' program='' @ show_nat (unat program) @ '' version='' @ show_nat (unat version)))
     else rbind read_rpc_auth (\<lambda>credential.
          rbind read_rpc_auth (\<lambda>verifier.
          if credential \<noteq> (0, 0) \<or> verifier \<noteq> (0, 0)
          then rfail (Rpc ''callback RPC authentication does not match negotiated AUTH_NONE'')
          else rreturn procedure))))))))"

definition parse_rpc_call :: "u32 \<Rightarrow> bytes \<Rightarrow> backchannel \<Rightarrow> backchannel \<times> bytes result" where
  "parse_rpc_call xid buf w =
     (case call_header buf of
        Err e \<Rightarrow> (w, Err e)
      | Panic \<Rightarrow> (w, Panic)
      | Ok (procedure, request) \<Rightarrow>
          if procedure = 0 then (w, Ok (build_rpc_reply xid []))
          else if procedure \<noteq> 1
          then (w, Err (Rpc (''unsupported callback procedure '' @ show_nat (unat procedure))))
          else let (w', compound) = parse_compound request w
               in (w', and_then compound (\<lambda>body. Ok (build_rpc_reply xid body))))"

text \<open>\<open>Ok None\<close> when the frame has no transaction id to answer to.\<close>

definition handle_cb_rpc :: "bytes \<Rightarrow> backchannel \<Rightarrow> backchannel \<times> bytes option result" where
  "handle_cb_rpc frame w =
     (if length frame < 4 then (w, Ok None)
      else let xid = u32_from_be (take 4 frame) in
           case parse_rpc_call xid (drop 4 frame) w of
             (w', Ok reply) \<Rightarrow> (w', Ok (Some reply))
           | (w', Err _) \<Rightarrow> (w', Ok (Some (build_rpc_reply xid (compound_error_body [] NFS4ERR_BADXDR))))
           | (w', Panic) \<Rightarrow> (w', Panic))"

subsection \<open>The handler does not panic\<close>

lemma cb_read_opaque_safe [simp]: "safe_with n cb_read_opaque"
  unfolding cb_read_opaque_def by (rule safe_any) (rule reader_safe | rule safe_rbind | simp)+

lemma read_rpc_auth_safe [simp]: "safe_with n read_rpc_auth"
  unfolding read_rpc_auth_def by (rule safe_any) (rule reader_safe | simp)+

lemma skip_referring_list_safe [simp]: "safe_with n skip_referring_list"
  unfolding skip_referring_list_def
  by (rule safe_any) (rule reader_safe | simp | simp add: safe_with_def advance_def)+

lemma parse_sequence_safe [simp]: "safe_with n parse_sequence"
  unfolding parse_sequence_def
  by (rule safe_any) (rule reader_safe safe_read_n | rule safe_rbind | simp | intro conjI impI)+

lemma recall_args_safe [simp]: "safe_with n recall_args"
  unfolding recall_args_def by (rule safe_any) (rule reader_safe | rule safe_rbind | simp)+

lemma layout_recall_args_safe [simp]: "safe_with n layout_recall_args"
  unfolding layout_recall_args_def
  by (rule safe_any) (rule reader_safe | rule safe_rbind | simp | intro conjI impI)+

lemma compound_header_safe [simp]: "safe_with n compound_header"
  unfolding compound_header_def by (rule safe_any) (rule reader_safe | rule safe_rbind | simp)+

lemma call_header_safe [simp]: "safe_with n call_header"
  unfolding call_header_def
  by (rule safe_any) (rule reader_safe | rule safe_rbind | simp | intro conjI impI)+

lemma zero_words_safe: "safe_with (4 * k) (zero_words k)"
  by (induction k) (auto simp: safe_rreturn intro!: safe_get_u32 safe_rfail intro: safe_with_mono)

lemma notify_values_not_Panic: "notify_values kinds values \<noteq> Panic"
proof -
  have "safe_with 0 (notify_value kinds 2 24)" "safe_with 0 (notify_value kinds 4 20)"
    by (simp_all add: notify_value_def safe_rreturn) (intro impI, (rule reader_safe | rule safe_rbind | simp)+)+
  then have "safe_with 0 (rbind (notify_value kinds 2 24) (\<lambda>changed.
                rbind (notify_value kinds 4 20) (\<lambda>deleted. rreturn (changed @ deleted))))"
    by (auto intro!: safe_rbind safe_rreturn)
  then show ?thesis by (auto simp: notify_values_def safe_with_def and_then_eq_Panic)
qed

lemma parse_notification_safe: "safe_with 0 parse_notification"
proof -
  have z: "safe_with n (zero_words k)" if "4 * k \<le> n" for n k using zero_words_safe that by (rule safe_with_mono)
  have "safe_with 4 (\<lambda>d. if words = 0 \<or> unat words > length d div 4
          then Err (Xdr ''device notification bitmap truncated'')
          else rbind get_u32 (\<lambda>kinds.
               rbind (zero_words (unat words - 1)) (\<lambda>_.
               if kinds = 0 \<or> kinds AND NOT 6 \<noteq> 0 then rfail (Xdr ''unknown device notification type'')
               else rbind cb_read_opaque (\<lambda>values. lift (notify_values kinds values)))) d)" for words :: u32
  proof -
    have "safe_with (4 * unat words) (rbind get_u32 (\<lambda>kinds.
               rbind (zero_words (unat words - 1)) (\<lambda>_.
               if kinds = 0 \<or> kinds AND NOT 6 \<noteq> 0 then rfail (Xdr ''unknown device notification type'')
               else rbind cb_read_opaque (\<lambda>values. lift (notify_values kinds values)))))" if "words \<noteq> 0"
    proof -
      have "unat words > 0" using that by (simp add: unat_gt_0)
      then show ?thesis
        by (intro safe_get_u32 safe_rbind z) (auto intro!: safe_rfail safe_rbind safe_lift notify_values_not_Panic)
    qed
    then show ?thesis by (auto simp: safe_with_def)
  qed
  then show ?thesis unfolding parse_notification_def by (intro safe_need safe_get_u32) auto
qed

lemma parse_device_notifications_safe: "safe_with 0 parse_device_notifications"
proof -
  have "safe_with 0 (\<lambda>d. if unat count > 4096 \<or> unat count > length d div 12
          then Err (Xdr ''device notification count exceeds payload'')
          else rbind (read_n (unat count) parse_notification) (\<lambda>devices. rreturn (concat devices)) d)" for count :: u32
  proof -
    have "safe_with 0 (rbind (read_n (unat count) parse_notification) (\<lambda>devices. rreturn (concat devices)))"
      by (rule safe_rbind) (simp_all add: safe_read_n parse_notification_safe safe_rreturn)
    then show ?thesis by (auto simp: safe_with_def)
  qed
  then show ?thesis unfolding parse_device_notifications_def by (intro safe_need safe_get_u32) auto
qed

text \<open>Every operation produces a reply and leaves the callback session as it is.\<close>

lemma parse_callback_op_Ok:
  "\<exists>reply status rest w'. parse_callback_op opcode buf w = Ok (reply, status, rest, w') \<and> bc_session w' = bc_session w"
proof -
  have send: "\<exists>reply status rest w'. send_recall opcode n d w = Ok (reply, status, rest, w') \<and> bc_session w' = bc_session w" for n d
    by (simp add: send_recall_def finish_op_def try_send_def)
  show ?thesis
    using send safe_withD [OF recall_args_safe, of buf] safe_withD [OF layout_recall_args_safe, of buf]
      safe_withD [OF parse_device_notifications_safe, of buf]
    unfolding parse_callback_op_def parse_layout_recall_def
    by (cases "recall_args buf"; cases "layout_recall_args buf"; cases "parse_device_notifications buf")
      (auto simp: finish_op_def split: option.splits prod.splits)
qed

lemma callback_ops_Ok:
  "\<exists>replies status w'. callback_ops k buf w = Ok (replies, status, w') \<and> bc_session w' = bc_session w"
proof (induction k arbitrary: buf w)
  case (Suc k)
  obtain reply status rest w' where op: "parse_callback_op (u32_from_be (take 4 buf)) (drop 4 buf) w = Ok (reply, status, rest, w')"
    "bc_session w' = bc_session w"
    using parse_callback_op_Ok by blast
  then show ?case using Suc [of rest w'] by auto
qed simp

subsection \<open>A request is executed at most once\<close>

text \<open>The slot a request addresses, if it gets as far as naming one.\<close>

definition compound_slot :: "bytes \<Rightarrow> nat option" where
  "compound_slot request =
     (case compound_header request of
        Ok (_, buf) \<Rightarrow> (case parse_sequence (drop 4 buf) of
                          Ok (sequence, _) \<Rightarrow> Some (unat (sa_slot_id sequence)) | _ \<Rightarrow> None)
      | _ \<Rightarrow> None)"

definition addressed_slot :: "bytes \<Rightarrow> nat option" where
  "addressed_slot frame =
     (case call_header (drop 4 frame) of Ok (_, request) \<Rightarrow> compound_slot request | _ \<Rightarrow> None)"

text \<open>Sessions that look the same to a request on slot \<open>i\<close>.\<close>

definition alike :: "nat option \<Rightarrow> callback_session \<Rightarrow> callback_session \<Rightarrow> bool" where
  "alike i s s' \<longleftrightarrow>
     cbn_minor_version s' = cbn_minor_version s \<and> cbn_session_id s' = cbn_session_id s
   \<and> cbn_max_request_size s' = cbn_max_request_size s \<and> cbn_max_operations s' = cbn_max_operations s
   \<and> length (cbn_slots s') = length (cbn_slots s)
   \<and> (\<forall>j. i = Some j \<longrightarrow> j < length (cbn_slots s) \<longrightarrow> cbn_slots s' ! j = cbn_slots s ! j)"

lemma alike_refl [simp]: "alike i s s"
  by (simp add: alike_def)

lemma alike_trans: "alike i a b \<Longrightarrow> alike i b c \<Longrightarrow> alike i a c"
  by (auto simp: alike_def)

lemma execute_callback_eq:
  obtains replies status w' where
    "execute_callback request tag num_ops sequence buf w =
       (w'\<lparr>bc_session := (bc_session w)\<lparr>cbn_slots := (cbn_slots (bc_session w))[unat (sa_slot_id sequence) :=
          \<lparr>cbs_next_sequence = sa_sequence_id sequence + 1, cbs_request = Some request,
           cbs_compound_reply = Some (compound_body tag status (sequence_reply sequence
             (word_of_nat (length (cbn_slots (bc_session w)) - 1)) (cbn_session_id (bc_session w)) # replies))\<rparr>]\<rparr>\<rparr>,
        Ok (compound_body tag status (sequence_reply sequence
             (word_of_nat (length (cbn_slots (bc_session w)) - 1)) (cbn_session_id (bc_session w)) # replies)))"
    "callback_ops (unat num_ops - 1) buf w = Ok (replies, status, w')"
  using callback_ops_Ok [of "unat num_ops - 1" buf w] by (auto simp: execute_callback_def Let_def)

text \<open>Other slots are left alone.\<close>

lemma callback_sequence_frame:
  assumes "i \<noteq> Some (unat (sa_slot_id sequence))"
  shows "alike i (bc_session w) (bc_session (fst (callback_sequence request tag num_ops sequence buf w)))"
proof -
  obtain replies status w' where
    "bc_session (fst (execute_callback request tag num_ops sequence buf w)) =
       (bc_session w)\<lparr>cbn_slots := (cbn_slots (bc_session w))[unat (sa_slot_id sequence) :=
          \<lparr>cbs_next_sequence = sa_sequence_id sequence + 1, cbs_request = Some request, cbs_compound_reply = Some w'\<rparr>]\<rparr>"
    by (rule execute_callback_eq [of request tag num_ops sequence buf w]) auto
  with assms have "alike i (bc_session w) (bc_session (fst (execute_callback request tag num_ops sequence buf w)))"
    by (auto simp: alike_def nth_list_update)
  then show ?thesis
    by (auto simp: callback_sequence_def Let_def split: option.splits)
qed

text \<open>A request meets a session that looks as it left it: it gets the same reply and has no effect.\<close>

lemma callback_sequence_again:
  assumes "alike (Some (unat (sa_slot_id sequence))) (bc_session (fst (callback_sequence request tag num_ops sequence buf w))) (bc_session v)"
  shows "callback_sequence request tag num_ops sequence buf v = (v, snd (callback_sequence request tag num_ops sequence buf w))"
proof (cases "callback_sequence request tag num_ops sequence buf w = execute_callback request tag num_ops sequence buf w
    \<and> sa_session_id sequence = cbn_session_id (bc_session w) \<and> unat (sa_slot_id sequence) < length (cbn_slots (bc_session w))")
  case True
  obtain replies status w' where ex: "execute_callback request tag num_ops sequence buf w =
       (w'\<lparr>bc_session := (bc_session w)\<lparr>cbn_slots := (cbn_slots (bc_session w))[unat (sa_slot_id sequence) :=
          \<lparr>cbs_next_sequence = sa_sequence_id sequence + 1, cbs_request = Some request,
           cbs_compound_reply = Some (compound_body tag status (sequence_reply sequence
             (word_of_nat (length (cbn_slots (bc_session w)) - 1)) (cbn_session_id (bc_session w)) # replies))\<rparr>]\<rparr>\<rparr>,
        Ok (compound_body tag status (sequence_reply sequence
             (word_of_nat (length (cbn_slots (bc_session w)) - 1)) (cbn_session_id (bc_session w)) # replies)))"
    by (rule execute_callback_eq [of request tag num_ops sequence buf w]) blast
  show ?thesis
    using assms True unfolding True [THEN conjunct1] ex by (simp add: callback_sequence_def alike_def Let_def)
next
  case False
  then have "fst (callback_sequence request tag num_ops sequence buf w) = w"
    by (auto simp: callback_sequence_def Let_def split: option.splits if_splits)
  with assms False show ?thesis
    by (auto simp: callback_sequence_def alike_def Let_def split: option.splits if_splits)
qed

lemma parse_compound_frame:
  assumes "i \<noteq> compound_slot request \<or> i = None"
  shows "alike i (bc_session w) (bc_session (fst (parse_compound request w)))"
proof (cases "compound_header request")
  case (Ok h)
  obtain tag minor num_ops buf where h: "h = ((tag, minor, num_ops), buf)" by (metis prod.exhaust)
  show ?thesis
  proof (cases "parse_sequence (drop 4 buf)")
    case Seq: (Ok q)
    obtain sequence rest where q: "q = (sequence, rest)" by (cases q)
    have "i \<noteq> Some (unat (sa_slot_id sequence))" using assms Ok h Seq q by (auto simp: compound_slot_def)
    then show ?thesis
      using Ok h Seq q callback_sequence_frame [of i sequence w request tag num_ops rest]
      by (simp add: parse_compound_def Let_def)
  qed (use Ok h in \<open>simp_all add: parse_compound_def Let_def\<close>)
qed (simp_all add: parse_compound_def)

lemma parse_compound_again:
  assumes "alike (compound_slot request) (bc_session (fst (parse_compound request w))) (bc_session v)"
  shows "parse_compound request v = (v, snd (parse_compound request w))"
proof (cases "compound_header request")
  case (Ok h)
  obtain tag minor num_ops buf where h: "h = ((tag, minor, num_ops), buf)" by (metis prod.exhaust)
  show ?thesis
  proof (cases "parse_sequence (drop 4 buf)")
    case Seq: (Ok q)
    obtain sequence rest where q: "q = (sequence, rest)" by (cases q)
    have slot: "compound_slot request = Some (unat (sa_slot_id sequence))" using Ok h Seq q by (simp add: compound_slot_def)
    let ?seq = "callback_sequence request tag num_ops sequence rest w"
    have keep: "alike None (bc_session w) (bc_session (fst ?seq))" by (rule callback_sequence_frame) simp
    show ?thesis
      using assms Ok h Seq q slot keep callback_sequence_again [of sequence request tag num_ops rest w v]
      by (auto simp: parse_compound_def Let_def alike_def split: if_splits)
  qed (use assms Ok h in \<open>auto simp: parse_compound_def Let_def alike_def split: if_splits\<close>)
qed (simp_all add: parse_compound_def)

lemma parse_compound_not_Panic: "snd (parse_compound request w) \<noteq> Panic"
proof -
  have "snd (execute_callback request tag num_ops sequence buf w) \<noteq> Panic" for tag num_ops sequence buf
    by (rule execute_callback_eq [of request tag num_ops sequence buf w]) simp
  then have "snd (callback_sequence request tag num_ops sequence buf w) \<noteq> Panic" for tag num_ops sequence buf
    by (auto simp: callback_sequence_def Let_def split: option.splits)
  then show ?thesis
    using safe_withD [OF compound_header_safe, of request] safe_withD [OF parse_sequence_safe]
    by (auto simp: parse_compound_def Let_def split: outcome.splits)
qed

lemma handle_cb_rpc_not_Panic: "snd (handle_cb_rpc frame w) \<noteq> Panic"
proof -
  have "snd (parse_rpc_call xid buf w) \<noteq> Panic" for xid buf
    using safe_withD [OF call_header_safe, of buf] parse_compound_not_Panic
    by (auto simp: parse_rpc_call_def and_then_eq_Panic split: outcome.splits prod.splits) (metis snd_conv)
  then show ?thesis by (auto simp: handle_cb_rpc_def Let_def split: outcome.splits prod.splits) (metis snd_conv)
qed

lemma handle_cb_rpc_frame:
  assumes "i \<noteq> addressed_slot frame \<or> i = None"
  shows "alike i (bc_session w) (bc_session (fst (handle_cb_rpc frame w)))"
proof -
  have "alike i (bc_session w) (bc_session (fst (parse_rpc_call xid (drop 4 frame) w)))" for xid
    using assms parse_compound_frame [of i _ w]
    by (auto simp: parse_rpc_call_def addressed_slot_def split: outcome.splits prod.splits) (metis fst_conv)+
  then show ?thesis
    by (auto simp: handle_cb_rpc_def Let_def split: outcome.splits prod.splits) (metis fst_conv)+
qed

lemma parse_rpc_call_again:
  assumes "alike (addressed_slot frame) (bc_session (fst (parse_rpc_call xid (drop 4 frame) w))) (bc_session v)"
  shows "parse_rpc_call xid (drop 4 frame) v = (v, snd (parse_rpc_call xid (drop 4 frame) w))"
proof (cases "call_header (drop 4 frame)")
  case (Ok h)
  obtain procedure request where h: "h = (procedure, request)" by (cases h)
  have slot: "addressed_slot frame = compound_slot request" using Ok h by (simp add: addressed_slot_def)
  show ?thesis
  proof (cases "procedure = 1")
    case True
    with assms slot Ok h have "alike (compound_slot request) (bc_session (fst (parse_compound request w))) (bc_session v)"
      by (simp add: parse_rpc_call_def case_prod_beta)
    from parse_compound_again [OF this] True Ok h show ?thesis
      by (simp add: parse_rpc_call_def case_prod_beta)
  qed (use Ok h in \<open>auto simp: parse_rpc_call_def\<close>)
qed (simp_all add: parse_rpc_call_def)

lemma handle_cb_rpc_again:
  assumes "alike (addressed_slot frame) (bc_session (fst (handle_cb_rpc frame w))) (bc_session v)"
  shows "handle_cb_rpc frame v = (v, snd (handle_cb_rpc frame w))"
proof -
  let ?p = "parse_rpc_call (u32_from_be (take 4 frame)) (drop 4 frame)"
  have "fst (handle_cb_rpc frame w) = fst (?p w)" if "\<not> length frame < 4"
    using that by (simp add: handle_cb_rpc_def Let_def split: outcome.splits prod.splits)
  with assms parse_rpc_call_again [of frame "u32_from_be (take 4 frame)" w v] show ?thesis
    by (cases "?p w") (auto simp: handle_cb_rpc_def Let_def split: outcome.splits)
qed

text \<open>What happens to the backchannel while requests are outstanding: frames arrive, the recall
  task takes notifications from its channel, and a replacement session may be published.\<close>

datatype backchannel_event = Arrives bytes | Recall_Taken | Publishes bytes u64 u32 u32 u32

primrec backchannel_step :: "backchannel_event \<Rightarrow> backchannel \<Rightarrow> backchannel" where
  "backchannel_step (Arrives frame) w = fst (handle_cb_rpc frame w)"
| "backchannel_step Recall_Taken w = w\<lparr>bc_recalls := tl (bc_recalls w)\<rparr>"
| "backchannel_step (Publishes session_id generation requests max_request_size max_operations) w =
     (case update_session session_id generation requests max_request_size max_operations (bc_session w) of
        Ok s \<Rightarrow> w\<lparr>bc_session := s\<rparr> | _ \<Rightarrow> w)"

definition backchannel_run :: "backchannel_event list \<Rightarrow> backchannel \<Rightarrow> backchannel" where
  "backchannel_run es w = fold backchannel_step es w"

primrec leaves_slot :: "nat option \<Rightarrow> backchannel_event \<Rightarrow> bool" where
  "leaves_slot i (Arrives frame) \<longleftrightarrow> addressed_slot frame \<noteq> i"
| "leaves_slot i Recall_Taken \<longleftrightarrow> True"
| "leaves_slot i (Publishes _ _ _ _ _) \<longleftrightarrow> False"

lemma backchannel_run_alike:
  "list_all (leaves_slot i) es \<Longrightarrow> alike i (bc_session w) (bc_session (backchannel_run es w))"
proof (induction es arbitrary: w)
  case (Cons e es)
  have "alike i (bc_session w) (bc_session (backchannel_step e w))"
    using Cons.prems handle_cb_rpc_frame [of i _ w] by (cases e) auto
  with Cons show ?case by (simp add: backchannel_run_def) (blast intro: alike_trans)
qed (simp add: backchannel_run_def)

text \<open>C26. A callback is executed at most once.  When the server repeats a request, whatever arrived on
  other slots in the meantime and however much of the channel was drained, the client sends the
  reply it sent first and nothing else happens: no second recall is queued and no device mapping
  is dropped again.  The handler never panics.\<close>

theorem repeated_callback_not_executed:
  fixes w :: backchannel
  assumes "list_all (leaves_slot (addressed_slot frame)) es"
  defines "later \<equiv> backchannel_run es (fst (handle_cb_rpc frame w))"
  shows "handle_cb_rpc frame later = (later, snd (handle_cb_rpc frame w)) \<and> snd (handle_cb_rpc frame w) \<noteq> Panic"
  using handle_cb_rpc_again [OF backchannel_run_alike [OF assms(1)], of w] handle_cb_rpc_not_Panic
  by (simp add: later_def)

subsection \<open>Well-formed callback sessions\<close>

definition callback_wf :: "callback_session \<Rightarrow> bool" where
  "callback_wf s \<longleftrightarrow> cbn_slots s \<noteq> [] \<and> 1 \<le> cbn_max_request_size s
     \<and> 1 \<le> cbn_max_operations s \<and> cbn_max_operations s \<le> MAX_CB_OPS
     \<and> list_all (\<lambda>slot. cbs_request slot = None \<longleftrightarrow> cbs_compound_reply slot = None) (cbn_slots s)"

lemma callback_wf_new: "callback_wf (new_negotiated session_id generation requests max_request_size max_operations minor)"
proof -
  have pos: "0 < unat (max x 1)" for x :: u32
    using word_le_nat_alt [of 1 "max x 1"] by simp
  have "(1 :: u32) \<le> min (max max_operations 1) 64" by simp
  then show ?thesis
    using pos by (simp add: callback_wf_def new_negotiated_def callback_slots_def MAX_CB_OPS_def list_all_iff Suc_le_eq)
qed

lemma callback_wf_update:
  assumes "callback_wf s" and "update_session session_id generation requests max_request_size max_operations s = Ok s'"
  shows "callback_wf s' \<and> cbn_generation s \<le> cbn_generation s'"
proof (cases "generation = cbn_generation s \<and> session_id = cbn_session_id s")
  case False
  with assms(2) have s': "s' = s\<lparr>cbn_session_id := session_id, cbn_generation := generation,
       cbn_max_request_size := unat (max max_request_size 1), cbn_max_operations := min (max max_operations 1) MAX_CB_OPS,
       cbn_slots := callback_slots requests\<rparr>" "\<not> generation < cbn_generation s"
    by (auto simp: update_session_def split: if_splits)
  have "callback_wf s' = callback_wf (new_negotiated session_id generation requests max_request_size max_operations V1)"
    by (simp add: callback_wf_def new_negotiated_def s')
  with callback_wf_new s' show ?thesis by auto
qed (use assms in \<open>auto simp: update_session_def\<close>)

lemma list_all_update: "list_all P xs \<Longrightarrow> P v \<Longrightarrow> list_all P (xs[i := v])"
  by (auto simp: list_all_iff dest!: set_update_subset_insert [THEN subsetD])

lemma callback_wf_handle:
  assumes "callback_wf (bc_session w)"
  shows "callback_wf (bc_session (fst (handle_cb_rpc frame w)))
     \<and> cbn_generation (bc_session (fst (handle_cb_rpc frame w))) = cbn_generation (bc_session w)"
proof -
  define good where "good v \<longleftrightarrow> callback_wf (bc_session v) \<and> cbn_generation (bc_session v) = cbn_generation (bc_session w)" for v :: backchannel
  have w: "good w" using assms by (simp add: good_def)
  have "good (fst (execute_callback request tag num_ops sequence buf w))" for request tag num_ops sequence buf
    by (rule execute_callback_eq [of request tag num_ops sequence buf w])
      (use assms in \<open>simp add: good_def callback_wf_def list_all_update\<close>)
  then have "good (fst (callback_sequence request tag num_ops sequence buf w))" for request tag num_ops sequence buf
    using w by (auto simp: callback_sequence_def Let_def split: option.splits)
  then have "good (fst (parse_compound request w))" for request
    using w by (auto simp: parse_compound_def Let_def split: outcome.splits prod.splits)
  then have "good (fst (parse_rpc_call xid buf w))" for xid buf
    using w by (auto simp: parse_rpc_call_def case_prod_beta split: outcome.splits)
  from this [of "u32_from_be (take 4 frame)" "drop 4 frame"] have "good (fst (handle_cb_rpc frame w))"
    using w by (cases "parse_rpc_call (u32_from_be (take 4 frame)) (drop 4 frame) w")
      (auto simp: handle_cb_rpc_def Let_def split: outcome.splits)
  then show ?thesis by (simp add: good_def)
qed

text \<open>On every history of frames, drained recalls and republished sessions, the callback session
  stays well formed: it has a slot, accepts at least one operation and at most 64, and a slot
  remembers a request exactly when it remembers its reply.  Its generation never goes back.\<close>

theorem callback_session_well_formed:
  "callback_wf (bc_session (backchannel_run es
     (w\<lparr>bc_session := new_negotiated session_id generation requests max_request_size max_operations minor\<rparr>)))
   \<and> generation \<le> cbn_generation (bc_session (backchannel_run es
     (w\<lparr>bc_session := new_negotiated session_id generation requests max_request_size max_operations minor\<rparr>)))"
proof -
  have "callback_wf (bc_session v) \<Longrightarrow> callback_wf (bc_session (backchannel_run es v))
      \<and> cbn_generation (bc_session v) \<le> cbn_generation (bc_session (backchannel_run es v))" for v
  proof (induction es arbitrary: v)
    case (Cons e es)
    have "callback_wf (bc_session (backchannel_step e v)) \<and> cbn_generation (bc_session v) \<le> cbn_generation (bc_session (backchannel_step e v))"
      using Cons.prems callback_wf_handle [of v] callback_wf_update [of "bc_session v"]
      by (cases e) (auto split: outcome.splits)
    with Cons.IH [of "backchannel_step e v"] show ?case by (auto simp: backchannel_run_def intro: order.trans)
  qed (simp add: backchannel_run_def)
  from this [of "w\<lparr>bc_session := new_negotiated session_id generation requests max_request_size max_operations minor\<rparr>"]
  show ?thesis
    using callback_wf_new [of session_id generation requests max_request_size max_operations minor]
    by (simp add: new_negotiated_def)
qed

subsection \<open>Witness\<close>

definition sample_id :: bytes where "sample_id = replicate 16 8"

definition sample_compound :: bytes where
  "sample_compound = opaque_enc [] @ u32_to_be 1 @ u32_to_be 0 @ u32_to_be 2
     @ u32_to_be CB_SEQUENCE @ sample_id @ u32_to_be 1 @ u32_to_be 0 @ u32_to_be 0 @ u32_to_be 0 @ u32_to_be 0
     @ u32_to_be CB_RECALL @ replicate 16 4 @ u32_to_be 0 @ opaque_enc [1]"

definition sample_frame :: bytes where
  "sample_frame = u32_to_be 7 @ u32_to_be 0 @ u32_to_be 2 @ u32_to_be CB_PROGRAM @ u32_to_be 1 @ u32_to_be 1
     @ u32_to_be 0 @ u32_to_be 0 @ u32_to_be 0 @ u32_to_be 0 @ sample_compound"

definition sample_backchannel :: backchannel where
  "sample_backchannel = \<lparr>bc_session = new_negotiated sample_id 1 1 4096 64 V1, bc_recalls = [], bc_capacity = 4,
     bc_receiver_alive = True, bc_layouts = manager_new\<rparr>"

lemma opaque_enc_small: "opaque_enc [] = u32_to_be 0" "opaque_enc [a] = u32_to_be 1 @ [a, 0, 0, 0]"
  by (simp_all add: opaque_enc_def pad_len_def replicate_Suc [of "pred_numeral v" for v, folded numeral_eq_Suc])

lemma sample_call_header: "call_header (drop 4 sample_frame) = Ok (1, sample_compound)"
  by (simp add: sample_frame_def call_header_def read_rpc_auth_def rbind_assoc pad_up_def rreturn_def)

lemma sample_compound_header:
  "compound_header sample_compound = Ok (([], 1, 2), u32_to_be CB_SEQUENCE @ sample_id @ u32_to_be 1 @ u32_to_be 0 @ u32_to_be 0
     @ u32_to_be 0 @ u32_to_be 0 @ u32_to_be CB_RECALL @ replicate 16 4 @ u32_to_be 0 @ opaque_enc [1])"
  by (simp add: sample_compound_def opaque_enc_small compound_header_def cb_read_opaque_def rbind_assoc pad_up_def
      rbind_def [of "slice_advance _ _"] slice_advance_def rreturn_def sample_id_def)

lemma sample_sequence_args:
  "parse_sequence (sample_id @ u32_to_be 1 @ u32_to_be 0 @ u32_to_be 0 @ u32_to_be 0 @ u32_to_be 0 @ d)
   = Ok (\<lparr>sa_session_id = sample_id, sa_sequence_id = 1, sa_slot_id = 0\<rparr>, d)"
proof -
  have "get_bytes 16 (sample_id @ r) = (Ok (sample_id, r) :: (bytes \<times> bytes, nfs_error) outcome)" for r
    by (simp add: get_bytes_def sample_id_def)
  moreover have "length sample_id = 16" by (simp add: sample_id_def)
  ultimately show ?thesis
    by (simp add: parse_sequence_def rbind_def [of "get_bytes _"] rbind_def [of "read_n 0 _"] rreturn_def)
qed

lemma sample_recall_args:
  "recall_args (replicate 16 4 @ u32_to_be 0 @ opaque_enc [1]) = Ok (Delegation (replicate 16 4) False [1], [])"
proof -
  have "get_bytes 16 (replicate 16 4 @ r) = (Ok (replicate 16 4, r) :: (bytes \<times> bytes, nfs_error) outcome)" for r
    by (simp add: get_bytes_def)
  then show ?thesis
    by (simp add: recall_args_def rbind_def [of "get_bytes _"] opaque_enc_small cb_read_opaque_def rbind_assoc pad_up_def
        rbind_def [of "slice_advance _ _"] slice_advance_def rreturn_def)
qed

lemma sample_session_fields:
  "cbn_minor_version (bc_session sample_backchannel) = V1" "cbn_session_id (bc_session sample_backchannel) = sample_id"
  "cbn_max_request_size (bc_session sample_backchannel) = 4096" "cbn_max_operations (bc_session sample_backchannel) = 64"
  "cbn_slots (bc_session sample_backchannel) = [\<lparr>cbs_next_sequence = 1, cbs_request = None, cbs_compound_reply = None\<rparr>]"
  by (simp_all add: sample_backchannel_def new_negotiated_def callback_slots_def MAX_CB_OPS_def)

lemma sample_recall_queued: "bc_recalls (fst (handle_cb_rpc sample_frame sample_backchannel)) = [Delegation (replicate 16 4) False [1]]"
proof -
  let ?rest = "u32_to_be CB_RECALL @ replicate 16 4 @ u32_to_be 0 @ opaque_enc [1]"
  let ?seq = "\<lparr>sa_session_id = sample_id, sa_sequence_id = 1, sa_slot_id = 0\<rparr>"
  have "send_recall CB_RECALL n [] sample_backchannel
      = Ok (op_status CB_RECALL NFS4_OK, NFS4_OK, [], sample_backchannel\<lparr>bc_recalls := [n]\<rparr>)" for n
    by (simp add: send_recall_def try_send_def finish_op_def sample_backchannel_def)
  then have op: "parse_callback_op CB_RECALL (replicate 16 4 @ u32_to_be 0 @ opaque_enc [1]) sample_backchannel
      = Ok (op_status CB_RECALL NFS4_OK, NFS4_OK, [], sample_backchannel\<lparr>bc_recalls := [Delegation (replicate 16 4) False [1]]\<rparr>)"
    by (simp add: parse_callback_op_def sample_recall_args)
  have "bc_recalls (fst (callback_sequence sample_compound [] 2 ?seq ?rest sample_backchannel)) = [Delegation (replicate 16 4) False [1]]"
    using op by (simp add: callback_sequence_def execute_callback_def sample_session_fields Let_def)
  moreover have "length sample_compound \<le> 4096" by (simp add: sample_compound_def sample_id_def opaque_enc_small)
  ultimately have "bc_recalls (fst (parse_compound sample_compound sample_backchannel)) = [Delegation (replicate 16 4) False [1]]"
    using sample_sequence_args [of ?rest] by (simp add: parse_compound_def sample_compound_header sample_session_fields Let_def)
  then have "bc_recalls (fst (parse_rpc_call xid (drop 4 sample_frame) sample_backchannel)) = [Delegation (replicate 16 4) False [1]]" for xid
    by (simp add: parse_rpc_call_def sample_call_header case_prod_beta)
  from this [of "u32_from_be (take 4 sample_frame)"] show ?thesis
    by (cases "parse_rpc_call (u32_from_be (take 4 sample_frame)) (drop 4 sample_frame) sample_backchannel")
      (auto simp: handle_cb_rpc_def Let_def sample_frame_def split: outcome.splits)
qed

theorem repeated_callback_not_executed_witness:
  "let first = handle_cb_rpc sample_frame sample_backchannel; later = backchannel_run [Recall_Taken] (fst first)
   in bc_recalls (fst first) \<noteq> [] \<and> handle_cb_rpc sample_frame later = (later, snd first) \<and> bc_recalls later = []"
  using repeated_callback_not_executed [of sample_frame "[Recall_Taken]" sample_backchannel] sample_recall_queued
  by (simp add: Let_def backchannel_run_def)

subsection \<open>The status of a false retry\<close>

text \<open>A request that reuses the sequence id of the last one with other contents is refused with
  status 10062.  In \<open>nfs4.x\<close>, and in the rest of the client, NFS4ERR_SEQ_FALSE_RETRY is 10076; 10062
  is NFS4ERR_UNKNOWN_LAYOUTTYPE.\<close>

theorem false_retry_wrong_status:
  "snd (callback_sequence [2] [] 1 \<lparr>sa_session_id = sample_id, sa_sequence_id = 1, sa_slot_id = 0\<rparr> []
     (sample_backchannel\<lparr>bc_session := (bc_session sample_backchannel)\<lparr>cbn_slots :=
        [\<lparr>cbs_next_sequence = 2, cbs_request = Some [1], cbs_compound_reply = Some []\<rparr>]\<rparr>\<rparr>))
   = Ok (reject_sequence [] 10062) \<and> NFS4ERR_SEQ_FALSE_RETRY \<noteq> 10062"
  by (simp add: callback_sequence_def sample_session_fields CB_FALSE_RETRY_def NFS4ERR_SEQ_FALSE_RETRY_def)

end
