(* ===== verification/Pnfs_Io.thy ===== *)
theory Pnfs_Io
  imports Layout_Manager Striping Mount_Common
begin

text \<open>
  Parallel I/O of \<open>src/src/nfs41/pnfs_io.rs\<close>, the part before any data server is written to:
  resolving a stripe to a data server, fetching layouts and devices, the reads of one layout and
  the plan of a write.

  What the data servers answer is a parameter of the definitions.  The correctness statements
  compose with \<open>Striping\<close>: the bytes a read returns, and the bytes a write plan sends, are
  those at the place the layout assigns to each byte of the file.
\<close>

subsection \<open>Data servers of a stripe\<close>

definition file_layout_stripe_count :: "device_info \<Rightarrow> nat \<Rightarrow> bool \<Rightarrow> u32 \<Rightarrow> u32 option" where
  "file_layout_stripe_count device fh_count is_dense first_stripe_index =
     (if 2 ^ 32 \<le> length (di_stripe_indices device) then None
      else let amount = word_of_nat (length (di_stripe_indices device));
               valid_handles = (if is_dense then fh_count = length (di_stripe_indices device)
                                else fh_count \<le> 1 \<or> fh_count = length (di_ds_addrs device))
           in if amount \<le> first_stripe_index \<or> \<not> valid_handles
                \<or> list_ex (\<lambda>index. case slice_get (di_ds_addrs device) (unat index) of
                                     None \<Rightarrow> True | Some addresses \<Rightarrow> addresses = [])
                    (di_stripe_indices device)
              then None else Some amount)"

definition file_layout_target ::
  "device_info \<Rightarrow> u32 \<Rightarrow> bool \<Rightarrow> bytes list \<Rightarrow> bytes \<Rightarrow> (bytes \<times> socket_addr) result" where
  "file_layout_target device stripe_index is_dense handles open_fh =
     (let target =
        Option.bind (slice_get (di_stripe_indices device) (unat stripe_index)) (\<lambda>physical.
        Option.bind (slice_get (di_ds_addrs device) (unat physical)) (\<lambda>paths.
        Option.bind (slice_get paths 0) (\<lambda>addr.
        Option.bind (if is_dense then slice_get handles (unat stripe_index)
                     else case handles of
                            [] \<Rightarrow> Some open_fh
                          | [fh] \<Rightarrow> Some fh
                          | _ \<Rightarrow> slice_get handles (unat physical)) (\<lambda>fh.
        Some (fh, addr)))))
      in case target of
           Some t \<Rightarrow> Ok t
         | None \<Rightarrow> Err (Rpc (''invalid file-layout stripe '' @ show_nat (unat stripe_index))))"

text \<open>\<open>device_degenerate\<close> also takes the one-time permission to log; \<open>device_ds_unreachable\<close>.\<close>

definition device_degenerate :: "socket_addr \<Rightarrow> device_info \<Rightarrow> layout_manager \<Rightarrow> layout_manager \<times> bool" where
  "device_degenerate server_addr device m =
     (if is_degenerate_device device server_addr then (fst (should_log_degenerate m), True) else (m, False))"

definition device_ds_unreachable :: "socket_addr \<Rightarrow> layout_manager \<Rightarrow> device_info \<Rightarrow> bool" where
  "device_ds_unreachable server_addr m device =
     list_ex (\<lambda>paths. case slice_get paths 0 of
                        Some addr \<Rightarrow> addr \<noteq> server_addr \<and> is_ds_unreachable m addr
                      | None \<Rightarrow> False) (di_ds_addrs device)"

definition stop_pnfs_fallback :: "nfs_error \<Rightarrow> bool" where
  "stop_pnfs_fallback error \<longleftrightarrow>
     (case error of ServerBusy _ \<Rightarrow> True | _ \<Rightarrow> False)
     \<or> (error_kind error = Kind_Interrupted \<and> request_transmission_of error = Some NotSent)"

subsection \<open>Fetching devices and layouts\<close>

text \<open>\<open>get_or_fetch_device\<close>.  The manager is given as the call finds it: at the start, after the
  gate, and per round before and after the GETDEVICEINFO.  The final manager is the last of
  these with the device stored, when it is still current.\<close>

record device_round =
  dv_before :: layout_manager
  dv_after :: layout_manager
  dv_compound :: "(builder \<Rightarrow> builder) \<Rightarrow> compound_response result"

definition getdeviceinfo_request :: "bytes \<Rightarrow> u64 \<Rightarrow> builder \<Rightarrow> builder" where
  "getdeviceinfo_request device_id generation b =
     b_getdeviceinfo (b_putrootfh (require_generation b generation)) device_id 1 (1024 * 1024)"

definition device_reply :: "socket_addr \<Rightarrow> compound_response \<Rightarrow> device_info option" where
  "device_reply server_addr resp =
     (case op_ok resp 2 of
        Ok opr \<Rightarrow> (case decode_getdeviceinfo_response (or_data opr) of
                   Ok (info, _) \<Rightarrow> Some (sort_multipath_by_affinity info server_addr)
                 | _ \<Rightarrow> None)
      | _ \<Rightarrow> None)"

fun fetch_device_rounds ::
  "socket_addr \<Rightarrow> bytes \<Rightarrow> u64 \<Rightarrow> device_round list \<Rightarrow> layout_manager \<Rightarrow> layout_manager \<times> device_info option result" where
  "fetch_device_rounds server_addr device_id generation [] m = (m, Ok None)"
| "fetch_device_rounds server_addr device_id generation (r # rs) m =
     (case dv_compound r (getdeviceinfo_request device_id generation) of
        Ok resp \<Rightarrow>
          (case device_reply server_addr resp of
             None \<Rightarrow> fetch_device_rounds server_addr device_id generation rs (dv_after r)
           | Some info \<Rightarrow>
               (case store_device_if_current device_id generation (lm_device_revision (dv_before r)) info (dv_after r) of
                  (m', True) \<Rightarrow> (m', Ok (get_device m' device_id))
                | (m', False) \<Rightarrow> fetch_device_rounds server_addr device_id generation rs m'))
      | Err e \<Rightarrow> (dv_after r, if stop_pnfs_fallback e then Err e else Ok None)
      | Panic \<Rightarrow> (dv_after r, Panic))"

definition get_or_fetch_device ::
  "socket_addr \<Rightarrow> bytes \<Rightarrow> u64 \<Rightarrow> layout_manager \<Rightarrow> layout_manager \<Rightarrow> device_round \<Rightarrow> device_round
     \<Rightarrow> layout_manager \<times> device_info option result" where
  "get_or_fetch_device server_addr device_id generation m gated first second =
     (case get_device m device_id of
        Some device \<Rightarrow> (m, Ok (Some device))
      | None \<Rightarrow>
          (case get_device gated device_id of
             Some device \<Rightarrow> (gated, Ok (Some device))
           | None \<Rightarrow> fetch_device_rounds server_addr device_id generation [first, second] gated))"

text \<open>\<open>fetch_devices_for_layout\<close>: once per device of the layout.\<close>

fun fetch_devices_for_layout ::
  "(bytes \<Rightarrow> u64 \<Rightarrow> layout_manager \<Rightarrow> layout_manager \<times> device_info option result)
     \<Rightarrow> u64 \<Rightarrow> bytes list \<Rightarrow> layout_segment list \<Rightarrow> layout_manager \<Rightarrow> layout_manager \<times> unit result" where
  "fetch_devices_for_layout fetch generation seen [] m = (m, Ok ())"
| "fetch_devices_for_layout fetch generation seen (seg # segs) m =
     (case seg_content seg of
        FilesLayout device_id _ _ _ _ _ _ \<Rightarrow>
          if device_id \<in> set seen then fetch_devices_for_layout fetch generation seen segs m
          else (case fetch device_id generation m of
                  (m', Ok _) \<Rightarrow> fetch_devices_for_layout fetch generation (device_id # seen) segs m'
                | (m', Err e) \<Rightarrow> (m', Err e)
                | (m', Panic) \<Rightarrow> (m', Panic))
      | Opaque _ \<Rightarrow> fetch_devices_for_layout fetch generation seen segs m)"

definition layoutget_request :: "u64 \<Rightarrow> bytes \<Rightarrow> io_mode \<Rightarrow> u64 \<Rightarrow> bytes \<Rightarrow> builder \<Rightarrow> builder" where
  "layoutget_request generation fh iomode offset stateid b =
     b_layoutget (b_putfh (require_generation b generation) fh) False 1 (iomode_code iomode) offset (- 1 - offset) 0
       stateid (1024 * 1024)"

text \<open>Accepting a LAYOUTGET reply: a layout that extends a cached one is merged, any other is
  stored; either is refused when the session has been replaced.\<close>

definition accept_layout :: "bytes \<Rightarrow> bool \<Rightarrow> layout \<Rightarrow> layout_manager \<Rightarrow> layout_manager \<times> bool" where
  "accept_layout fh extends_cached layout m =
     (if extends_cached
      then let m' = merge_layout fh layout m in (m', get_layout m' fh \<noteq> None)
      else store_layout_at fh (lo_generation layout) layout m)"

text \<open>\<open>get_or_fetch_layout\<close>.  The manager is given as the call finds it at the start, under the
  gate, and when the reply has arrived.\<close>

definition get_or_fetch_layout ::
  "bool \<Rightarrow> bytes \<Rightarrow> io_mode \<Rightarrow> u64 \<Rightarrow> bytes \<Rightarrow> layout_manager \<Rightarrow> layout_manager \<Rightarrow> layout_manager
     \<Rightarrow> ((builder \<Rightarrow> builder) \<Rightarrow> compound_response result)
     \<Rightarrow> (bytes \<Rightarrow> u64 \<Rightarrow> layout_manager \<Rightarrow> layout_manager \<times> device_info option result)
     \<Rightarrow> layout_manager \<times> layout option result" where
  "get_or_fetch_layout pnfs_mds fh iomode offset open_stateid m gated replied compound fetch =
     (if \<not> pnfs_mds then (m, Ok None)
      else case get_layout_covering m fh offset of
        Some layout \<Rightarrow> (m, Ok (Some layout))
      | None \<Rightarrow>
        if lm_active_generation m \<noteq> lm_active_generation gated then (gated, Ok None)
        else case get_layout_covering gated fh offset of
          Some layout \<Rightarrow> (gated, Ok (Some layout))
        | None \<Rightarrow>
          let cached = get_layout gated fh;
              request_stateid = (case cached of Some layout \<Rightarrow> lo_stateid layout | None \<Rightarrow> open_stateid)
          in case compound (layoutget_request (lm_active_generation m) fh iomode offset request_stateid) of
               Err e \<Rightarrow> (replied, if stop_pnfs_fallback e then Err e else Ok None)
             | Panic \<Rightarrow> (replied, Panic)
             | Ok resp \<Rightarrow>
                 case and_then (op_ok resp 2) (\<lambda>opr. decode_layoutget_response (or_data opr)) of
                   Err _ \<Rightarrow> (replied, Ok None)
                 | Panic \<Rightarrow> (replied, Panic)
                 | Ok (decoded, _) \<Rightarrow>
                     let layout = decoded\<lparr>lo_generation := cr_session_generation resp\<rparr>
                     in case accept_layout fh (cached \<noteq> None) layout replied of
                          (m', False) \<Rightarrow> (m', Ok None)
                        | (m', True) \<Rightarrow>
                            case fetch_devices_for_layout fetch (lo_generation layout) [] (lo_segments layout) m' of
                              (m'', r) \<Rightarrow> (m'', and_then r (\<lambda>_. Ok (get_layout m'' fh))))"

subsection \<open>Assembling a read\<close>

record read_assembly =
  ra_first :: bytes
  ra_joined :: "bytes option"
  ra_capacity :: nat

definition assembly_new :: "nat \<Rightarrow> read_assembly" where
  "assembly_new capacity = \<lparr>ra_first = [], ra_joined = None, ra_capacity = capacity\<rparr>"

definition assembly_len :: "read_assembly \<Rightarrow> nat" where
  "assembly_len a = (case ra_joined a of Some data \<Rightarrow> length data | None \<Rightarrow> length (ra_first a))"

definition assembly_push :: "read_assembly \<Rightarrow> bytes \<Rightarrow> read_assembly" where
  "assembly_push a piece =
     (if piece = [] then a
      else case ra_joined a of
             Some data \<Rightarrow> a\<lparr>ra_joined := Some (data @ piece)\<rparr>
           | None \<Rightarrow> if ra_first a = [] then a\<lparr>ra_first := piece\<rparr>
                     else a\<lparr>ra_first := [], ra_joined := Some (ra_first a @ piece)\<rparr>)"

definition assembly_freeze :: "read_assembly \<Rightarrow> bytes" where
  "assembly_freeze a = (case ra_joined a of Some data \<Rightarrow> data | None \<Rightarrow> ra_first a)"

lemma assembly_push [simp]: "assembly_freeze (assembly_push a piece) = assembly_freeze a @ piece"
  by (simp add: assembly_push_def assembly_freeze_def split: option.splits)

lemma assembly_len [simp]: "assembly_len a = length (assembly_freeze a)"
  by (simp add: assembly_len_def assembly_freeze_def split: option.splits)

lemma assembly_new [simp]: "assembly_freeze (assembly_new n) = []"
  by (simp add: assembly_new_def assembly_freeze_def)

text \<open>The result of one READ on a data server: the data and whether it reached the end.\<close>

definition read_result :: "nat \<Rightarrow> (bytes \<times> bool, nfs_error) reader" where
  "read_result remaining =
     rbind (need 8 (Xdr ''DS READ result too short'')) (\<lambda>_.
     rbind get_u32 (\<lambda>eof.
     rbind get_u32 (\<lambda>data_len.
     rbind (if remaining < unat data_len then rfail (Xdr ''invalid DS READ data length'')
            else need (unat data_len) (Xdr ''invalid DS READ data length'')) (\<lambda>_.
     rbind (get_bytes (unat data_len)) (\<lambda>data. rreturn (data, eof \<noteq> 0))))))"

text \<open>\<open>op_ok(1)?\<close> and \<open>op_ok(2)?\<close>: the results behind SEQUENCE.\<close>

definition after_putfh :: "compound_response result \<Rightarrow> op_response result" where
  "after_putfh reply = and_then reply (\<lambda>resp. and_then (op_ok resp 1) (\<lambda>_. op_ok resp 2))"

text \<open>The \<open>while combined.len() < chunk_len\<close> loop of one stripe.  \<open>read\<close> is \<open>ds_read_chunk\<close> on the
  data server of the stripe.\<close>

function read_stripe ::
  "(u64 \<Rightarrow> u32 \<Rightarrow> compound_response result) \<Rightarrow> u64 \<Rightarrow> nat \<Rightarrow> read_assembly \<Rightarrow> (bytes \<times> bool) result" where
  "read_stripe read ds_off chunk_len combined =
     (if assembly_len combined < chunk_len
      then let remaining = chunk_len - assembly_len combined
           in and_then (after_putfh (read (ds_off + word_of_nat (assembly_len combined)) (word_of_nat remaining))) (\<lambda>opr.
              and_then (read_result remaining (or_data opr)) (\<lambda>((data, eof), _).
                if eof then Ok (assembly_freeze (assembly_push combined data),
                                assembly_len (assembly_push combined data) < chunk_len)
                else if data = [] then Err (Rpc ''DS READ made no progress'')
                else read_stripe read ds_off chunk_len (assembly_push combined data)))
      else Ok (assembly_freeze combined, False))"
  by pat_completeness auto
termination
  by (relation "measure (\<lambda>(_, _, chunk_len, combined). chunk_len - assembly_len combined)")
    (auto intro!: diff_less_mono2)

declare read_stripe.simps [simp del]

text \<open>\<open>try_join_all\<close> reports one of the failures; which one depends on the order in which the
  stripes finish, given by \<open>pick\<close>.\<close>

definition try_join_all :: "nat \<Rightarrow> 'a result list \<Rightarrow> 'a list result" where
  "try_join_all pick results =
     (if Panic \<in> set results then Panic
      else case filter (\<lambda>r. case r of Err _ \<Rightarrow> True | _ \<Rightarrow> False) results of
             [] \<Rightarrow> collect_results (\<lambda>r. r) results
           | e # es \<Rightarrow> (case (e # es) ! (pick mod length (e # es)) of Err x \<Rightarrow> Err x | _ \<Rightarrow> Panic))"

text \<open>Concatenating the stripes, in file order, up to the first short one.\<close>

fun join_stripes :: "(bytes \<times> bool) list \<Rightarrow> read_assembly \<Rightarrow> read_assembly" where
  "join_stripes [] combined = combined"
| "join_stripes ((data, short) # rest) combined =
     (if short then assembly_push combined data else join_stripes rest (assembly_push combined data))"

definition assemble_read :: "(bytes \<times> bool) list \<Rightarrow> bytes" where
  "assemble_read results =
     (case results of
        [r] \<Rightarrow> fst r
      | _ \<Rightarrow> assembly_freeze (join_stripes results (assembly_new (sum_list (map (length \<circ> fst) results)))))"

definition covered_bytes :: "layout_segment \<Rightarrow> u64 \<Rightarrow> u64" where
  "covered_bytes seg offset = saturating_sub (saturating_add (seg_offset seg) (seg_length seg)) offset"

text \<open>\<open>pnfs_read_layout\<close>.  \<open>fetch\<close> is \<open>get_or_fetch_device\<close>, \<open>read\<close> is \<open>ds_read_chunk\<close>, \<open>joined\<close> the
  active generation when the stripes have been read.\<close>

definition read_stripes ::
  "nat \<Rightarrow> (socket_addr \<Rightarrow> bytes \<Rightarrow> u64 \<Rightarrow> u32 \<Rightarrow> compound_response result) \<Rightarrow> device_info \<Rightarrow> bool \<Rightarrow> bytes list \<Rightarrow> bytes
     \<Rightarrow> stripe_chunk list \<Rightarrow> (bytes \<times> bool) list result" where
  "read_stripes pick read device is_dense fh_list fh chunks =
     try_join_all pick (map (\<lambda>chunk.
       and_then (file_layout_target device (chunk_ds_index chunk) is_dense fh_list fh) (\<lambda>(ds_fh, ds_addr).
         read_stripe (read ds_addr ds_fh) (chunk_ds_offset chunk) (unat (chunk_length chunk))
           (assembly_new (unat (chunk_length chunk))))) chunks)"

definition pnfs_read_layout ::
  "socket_addr \<Rightarrow> (bytes \<Rightarrow> u64 \<Rightarrow> layout_manager \<Rightarrow> layout_manager \<times> device_info option result)
     \<Rightarrow> nat \<Rightarrow> (socket_addr \<Rightarrow> bytes \<Rightarrow> u64 \<Rightarrow> u32 \<Rightarrow> compound_response result) \<Rightarrow> u64
     \<Rightarrow> bytes \<Rightarrow> u64 \<Rightarrow> u32 \<Rightarrow> layout \<Rightarrow> layout_manager \<Rightarrow> layout_manager \<times> bytes result option" where
  "pnfs_read_layout server_addr fetch pick read joined fh offset amount layout m =
     (case find_covering_segment layout offset of
        None \<Rightarrow> (m, None)
      | Some seg \<Rightarrow>
        case seg_content seg of
          Opaque _ \<Rightarrow> (m, None)
        | FilesLayout device_id stripe_unit is_dense _ first_stripe_index pattern_offset fh_list \<Rightarrow>
            if stripe_unit = 0 \<or> offset < pattern_offset then (m, None)
            else case fetch device_id (lo_generation layout) m of
              (m1, Err e) \<Rightarrow> (m1, Some (Err e))
            | (m1, Panic) \<Rightarrow> (m1, Some Panic)
            | (m1, Ok None) \<Rightarrow> (m1, None)
            | (m1, Ok (Some device)) \<Rightarrow>
              case file_layout_stripe_count device (length fh_list) is_dense first_stripe_index of
                None \<Rightarrow> (m1, None)
              | Some stripe_count \<Rightarrow>
                case device_degenerate server_addr device m1 of
                  (m2, True) \<Rightarrow> (m2, None)
                | (m2, False) \<Rightarrow>
                  if device_ds_unreachable server_addr m2 device then (m2, None)
                  else let covered = covered_bytes seg offset;
                           limit = (if unat covered < 2 ^ 32 then min amount (ucast covered) else amount)
                       in (m2, Some (and_then
                            (read_stripes pick read device is_dense fh_list fh
                               (split_into_stripes offset limit stripe_unit is_dense first_stripe_index stripe_count
                                  pattern_offset))
                            (\<lambda>results.
                               if lo_generation layout \<noteq> joined
                               then Err (Rpc ''discarding pNFS READ result from stale session generation'')
                               else Ok (assemble_read results)))))"

subsection \<open>A validated layout resolves every stripe\<close>

lemma file_layout_stripe_count_Some:
  assumes "file_layout_stripe_count device n is_dense first = Some stripes"
  shows "unat stripes = length (di_stripe_indices device)" and "stripes \<noteq> 0"
    and "\<And>k. k < length (di_stripe_indices device) \<Longrightarrow>
           unat (di_stripe_indices device ! k) < length (di_ds_addrs device)
           \<and> di_ds_addrs device ! unat (di_stripe_indices device ! k) \<noteq> []"
    and "if is_dense then n = length (di_stripe_indices device) else n \<le> 1 \<or> n = length (di_ds_addrs device)"
proof -
  let ?n = "length (di_stripe_indices device)"
  have len: "?n < 2 ^ 32" and s: "stripes = word_of_nat ?n" and "first < stripes"
    and "if is_dense then n = ?n else n \<le> 1 \<or> n = length (di_ds_addrs device)"
    and all: "\<forall>index \<in> set (di_stripe_indices device). unat index < length (di_ds_addrs device)
           \<and> di_ds_addrs device ! unat index \<noteq> []"
    using assms
    by (auto simp: file_layout_stripe_count_def Let_def list_ex_iff not_le slice_get_def split: if_splits)
  then show "unat stripes = ?n" and "stripes \<noteq> 0"
    and "if is_dense then n = ?n else n \<le> 1 \<or> n = length (di_ds_addrs device)"
    by (auto simp: unat_of_nat_small)
  show "unat (di_stripe_indices device ! k) < length (di_ds_addrs device)
      \<and> di_ds_addrs device ! unat (di_stripe_indices device ! k) \<noteq> []" if "k < ?n" for k
    using all that by simp
qed

lemma file_layout_target_Ok:
  assumes "file_layout_stripe_count device (length handles) is_dense first = Some stripes" and "index < stripes"
  shows "\<exists>ds_fh ds_addr. file_layout_target device index is_dense handles fh = Ok (ds_fh, ds_addr)"
proof -
  note v = file_layout_stripe_count_Some [OF assms(1)]
  have i: "unat index < length (di_stripe_indices device)" using assms(2) v(1) by (simp add: word_less_nat_alt)
  with v(3) [OF i] v(4) show ?thesis
    by (cases is_dense; cases handles rule: remdups_adj.cases)
      (auto simp: file_layout_target_def Let_def slice_get_def)
qed

lemma stripe_loop_member:
  assumes "c \<in> set (stripe_loop su dense first stripes pat finish pos)" and "stripes \<noteq> 0" and "2 \<le> unat su"
  shows "pos \<le> chunk_file_offset c \<and> chunk_file_offset c < finish \<and> chunk_ds_index c < stripes"
  using assms
proof (induction su dense first stripes pat finish pos rule: stripe_loop.induct)
  case (1 su dense first stripes pat finish pos)
  have g: "su \<noteq> 0 \<and> pos < finish" using "1.prems"(1) by (subst (asm) stripe_loop.simps) (auto split: if_splits)
  have index: "stripe_ds_index (pos - pat) su first stripes < stripes"
    using "1.prems"(2,3) by (simp add: word_less_nat_alt unat_stripe_ds_index unat_gt_0)
  note progress = chunk_end_progress(1) [OF g [THEN conjunct1] g [THEN conjunct2], of pat]
  from "1.prems"(1) g have "c = chunk_at su dense first stripes pat finish pos
      \<or> c \<in> set (stripe_loop su dense first stripes pat finish (chunk_end_at su pat finish pos))"
    by (subst (asm) stripe_loop.simps) simp
  then show ?case
  proof
    assume "c = chunk_at su dense first stripes pat finish pos"
    then show ?thesis using g index by (simp add: chunk_at_def Let_def)
  next
    assume "c \<in> set (stripe_loop su dense first stripes pat finish (chunk_end_at su pat finish pos))"
    from "1.IH" [OF g this "1.prems"(2,3)] show ?thesis using progress by auto
  qed
qed

text \<open>The chunks of a range, and the bytes they stand for.\<close>

lemma split_into_stripes_loop:
  assumes "2 \<le> unat su" and "stripes \<noteq> 0" and "pat \<le> offset"
  shows "split_into_stripes offset n su dense first stripes pat
    = stripe_loop su dense first stripes pat (saturating_add offset (ucast n)) offset"
  using assms by (auto simp: split_into_stripes_def dest: leD)

lemma byte_target_le: "snd (byte_target su dense first stripes pat p) \<le> p"
proof -
  have "(p - pat) div su div stripes * su + (p - pat) mod su \<le> (p - pat) div su * su + (p - pat) mod su"
    by (intro add_right_mono mult_right_mono) (simp_all add: div_le_dividend)
  also have "\<dots> = p - pat" by simp
  finally show ?thesis by (auto simp: byte_target_def Let_def)
qed

lemma chunk_byte_range:
  assumes "concat (map chunk_bytes chunks) = target_bytes su dense first stripes pat lo hi" and "hi \<le> 2 ^ 64"
    and "c \<in> set chunks" and "i < unat (chunk_length c)"
  shows "unat (chunk_file_offset c) + i \<in> {lo..<hi}" and "unat (chunk_ds_offset c) + i < 2 ^ 64"
    and "unat (chunk_ds_offset c + word_of_nat i) = unat (chunk_ds_offset c) + i"
proof -
  have "(unat (chunk_ds_index c), unat (chunk_file_offset c) + i, unat (chunk_ds_offset c) + i) \<in> set (chunk_bytes c)"
    using assms(4) by (auto simp: chunk_bytes_def)
  then have "(unat (chunk_ds_index c), unat (chunk_file_offset c) + i, unat (chunk_ds_offset c) + i)
      \<in> set (target_bytes su dense first stripes pat lo hi)"
    unfolding assms(1) [symmetric] using assms(3) by auto
  then obtain p where p: "p \<in> {lo..<hi}" "unat (chunk_file_offset c) + i = p"
    "unat (chunk_ds_offset c) + i = snd (byte_target su dense first stripes pat p)"
    by (auto simp: target_bytes_def split: prod.splits)
  then show "unat (chunk_file_offset c) + i \<in> {lo..<hi}" by simp
  show lt: "unat (chunk_ds_offset c) + i < 2 ^ 64"
    using p byte_target_le [of su dense first stripes pat p] assms(2) by simp
  then show "unat (chunk_ds_offset c + word_of_nat i) = unat (chunk_ds_offset c) + i"
    by (subst unat_add_no_overflow) (simp_all add: unat_of_nat_small)
qed

subsection \<open>A read returns the bytes of the file\<close>

text \<open>\<open>store addr fh\<close> is the content of the file \<open>fh\<close> on the data server \<open>addr\<close>.  A server serves its
  store when each READ it answers carries bytes from the offset asked for.\<close>

definition serves ::
  "(socket_addr \<Rightarrow> bytes \<Rightarrow> bytes) \<Rightarrow> (socket_addr \<Rightarrow> bytes \<Rightarrow> u64 \<Rightarrow> u32 \<Rightarrow> compound_response result) \<Rightarrow> bool" where
  "serves store read \<longleftrightarrow>
     (\<forall>addr fh off n opr data eof rest.
        after_putfh (read addr fh off n) = Ok opr \<and> read_result (unat n) (or_data opr) = Ok ((data, eof), rest)
        \<longrightarrow> (\<forall>i < length data. slice_get (store addr fh) (unat off + i) = Some (data ! i)))"

lemma servesD:
  assumes "serves store read" and "after_putfh (read addr fh off n) = Ok opr"
    and "read_result (unat n) (or_data opr) = Ok ((data, eof), rest)"
  shows "map Some data = map (\<lambda>i. slice_get (store addr fh) (unat off + i)) [0..<length data]"
proof (rule nth_equalityI)
  fix i assume "i < length (map Some data)"
  then have i: "i < length data" by simp
  with assms have "slice_get (store addr fh) (unat off + i) = Some (data ! i)"
    unfolding serves_def by blast
  with i show "map Some data ! i = map (\<lambda>i. slice_get (store addr fh) (unat off + i)) [0..<length data] ! i"
    by (simp del: slice_get_eq_Some)
qed simp

lemma map_upt_add: "map f [0..<m + n] = map f [0..<m] @ map (\<lambda>i. f (m + i)) [0..<n]"
  by (induction n) simp_all

lemma read_result_length: "read_result n d = Ok ((data, eof), rest) \<Longrightarrow> length data \<le> n"
  by (auto simp: read_result_def rbind_def rfail_def rreturn_def need_def get_bytes_def split: if_splits prod.splits)

lemma read_stripe_sound:
  assumes "serves store read" and "read_stripe (read addr fh) off len a = Ok (d, short)"
    and "len < 2 ^ 32" and "\<And>i. i < len \<Longrightarrow> unat (off + word_of_nat i) = unat off + i"
    and "assembly_len a \<le> len"
    and "map Some (assembly_freeze a) = map (\<lambda>i. slice_get (store addr fh) (unat off + i)) [0..<assembly_len a]"
  shows "length d \<le> len \<and> (short \<or> length d = len)
    \<and> map Some d = map (\<lambda>i. slice_get (store addr fh) (unat off + i)) [0..<length d]"
  using assms
proof (induction "read addr fh" off len a rule: read_stripe.induct)
  case (1 off len a)
  show ?case
  proof (cases "assembly_len a < len")
    case less: True
    obtain opr data eof rest where
      reply: "after_putfh (read addr fh (off + word_of_nat (assembly_len a)) (word_of_nat (len - assembly_len a))) = Ok opr"
      and data: "read_result (len - assembly_len a) (or_data opr) = Ok ((data, eof), rest)"
      using "1.prems"(2) less by (subst (asm) read_stripe.simps) (auto simp: Let_def)
    have n: "unat (word_of_nat (len - assembly_len a) :: u32) = len - assembly_len a"
      using "1.prems"(3) by (intro unat_of_nat_small) simp
    have grown: "map Some (assembly_freeze (assembly_push a data))
        = map (\<lambda>i. slice_get (store addr fh) (unat off + i)) [0..<assembly_len (assembly_push a data)]"
      using servesD [OF "1.prems"(1) reply, unfolded n, OF data] "1.prems"(4) [OF less] "1.prems"(6)
      by (simp add: map_upt_add add.assoc)
    have le: "assembly_len (assembly_push a data) \<le> len" using read_result_length [OF data] less by simp
    show ?thesis
    proof (cases "eof \<or> data = []")
      case True
      with "1.prems"(2) less reply data grown le show ?thesis
        by (subst (asm) read_stripe.simps) (auto simp: Let_def split: if_splits)
    next
      case False
      with "1.prems"(2) less reply data
      have "read_stripe (read addr fh) off len (assembly_push a data) = Ok (d, short)"
        by (subst (asm) read_stripe.simps) (simp add: Let_def)
      with False show ?thesis
        using "1.hyps" [OF less refl reply data refl refl] "1.prems"(1,3,4) le grown by auto
    qed
  next
    case False
    with "1.prems"(2,5,6) show ?thesis by (subst (asm) read_stripe.simps) auto
  qed
qed

text \<open>The byte at offset \<open>o\<close> of the stripe-table position \<open>k\<close>.\<close>

definition stripe_byte ::
  "(socket_addr \<Rightarrow> bytes \<Rightarrow> bytes) \<Rightarrow> device_info \<Rightarrow> bool \<Rightarrow> bytes list \<Rightarrow> bytes \<Rightarrow> nat \<times> nat \<Rightarrow> u8 option" where
  "stripe_byte store device is_dense handles fh = (\<lambda>(k, off).
     case file_layout_target device (word_of_nat k) is_dense handles fh of
       Ok (ds_fh, ds_addr) \<Rightarrow> slice_get (store ds_addr ds_fh) off
     | _ \<Rightarrow> None)"

definition stripe_read_ok :: "(nat \<times> nat \<Rightarrow> u8 option) \<Rightarrow> stripe_chunk \<Rightarrow> bytes \<times> bool \<Rightarrow> bool" where
  "stripe_read_ok content c r \<longleftrightarrow>
     length (fst r) \<le> unat (chunk_length c) \<and> (snd r \<or> length (fst r) = unat (chunk_length c))
     \<and> map Some (fst r) = map (\<lambda>(k, p, off). content (k, off)) (take (length (fst r)) (chunk_bytes c))"

lemma length_chunk_bytes [simp]: "length (chunk_bytes c) = unat (chunk_length c)"
  by (simp add: chunk_bytes_def)

lemma join_stripes_sound:
  assumes "list_all2 (stripe_read_ok content) chunks results"
  shows "\<exists>x. assembly_freeze (join_stripes results a) = assembly_freeze a @ x
    \<and> map Some x = map (\<lambda>(k, p, off). content (k, off)) (take (length x) (concat (map chunk_bytes chunks)))"
  using assms
proof (induction chunks results arbitrary: a rule: list_all2_induct)
  case (Cons c chunks r results)
  obtain d short where r: "r = (d, short)" by fastforce
  show ?case
  proof (cases short)
    case True
    with Cons.hyps(1) r show ?thesis by (auto simp: stripe_read_ok_def intro!: exI [of _ d])
  next
    case False
    obtain x where "assembly_freeze (join_stripes results (assembly_push a d)) = (assembly_freeze a @ d) @ x"
      "map Some x = map (\<lambda>(k, p, off). content (k, off)) (take (length x) (concat (map chunk_bytes chunks)))"
      using Cons.IH [of "assembly_push a d"] by auto
    with Cons.hyps(1) r False show ?thesis by (auto simp: stripe_read_ok_def intro!: exI [of _ "d @ x"])
  qed
qed simp

lemma assemble_read_eq: "assemble_read results = assembly_freeze (join_stripes results (assembly_new n))"
proof -
  have new: "assembly_freeze (join_stripes rs a) = assembly_freeze (join_stripes rs b)"
    if "assembly_freeze a = assembly_freeze b" for rs a b
    using that by (induction rs a arbitrary: b rule: join_stripes.induct) auto
  show ?thesis
    by (auto simp: assemble_read_def split: list.splits intro!: new)
qed

lemma try_join_all_Ok:
  assumes "try_join_all pick results = Ok ys"
  shows "list_all2 (\<lambda>r y. r = Ok y) results ys"
proof (cases "filter (\<lambda>r. case r of Err _ \<Rightarrow> True | _ \<Rightarrow> False) results")
  case Nil
  with assms show ?thesis by (simp add: try_join_all_def collect_results_eq_Ok split: if_splits)
next
  case (Cons e es)
  with assms show ?thesis by (auto simp: try_join_all_def split: if_splits outcome.splits)
qed

lemma read_stripes_sound:
  assumes "serves store read" and "read_stripes pick read device is_dense handles fh chunks = Ok results"
    and "concat (map chunk_bytes chunks) = target_bytes su is_dense first stripes pat lo hi" and "hi \<le> 2 ^ 64"
  shows "list_all2 (stripe_read_ok (stripe_byte store device is_dense handles fh)) chunks results"
proof -
  have sound: "stripe_read_ok (stripe_byte store device is_dense handles fh) c r"
    if c: "c \<in> set chunks" and r: "and_then (file_layout_target device (chunk_ds_index c) is_dense handles fh)
         (\<lambda>(ds_fh, ds_addr). read_stripe (read ds_addr ds_fh) (chunk_ds_offset c) (unat (chunk_length c))
            (assembly_new (unat (chunk_length c)))) = Ok r" for c r
  proof -
    obtain ds_fh ds_addr where t: "file_layout_target device (chunk_ds_index c) is_dense handles fh = Ok (ds_fh, ds_addr)"
      and s: "read_stripe (read ds_addr ds_fh) (chunk_ds_offset c) (unat (chunk_length c))
         (assembly_new (unat (chunk_length c))) = Ok (fst r, snd r)"
      using r by auto
    have "length (fst r) \<le> unat (chunk_length c) \<and> (snd r \<or> length (fst r) = unat (chunk_length c))
        \<and> map Some (fst r) = map (\<lambda>i. slice_get (store ds_addr ds_fh) (unat (chunk_ds_offset c) + i)) [0..<length (fst r)]"
      using read_stripe_sound [OF assms(1) s] chunk_byte_range(3) [OF assms(3,4) c] unat_u32_less by auto
    then show ?thesis
      by (simp add: stripe_read_ok_def chunk_bytes_def take_map stripe_byte_def t comp_def)
  qed
  have "list_all2 (\<lambda>c r. and_then (file_layout_target device (chunk_ds_index c) is_dense handles fh)
         (\<lambda>(ds_fh, ds_addr). read_stripe (read ds_addr ds_fh) (chunk_ds_offset c) (unat (chunk_length c))
            (assembly_new (unat (chunk_length c)))) = Ok r) chunks results"
    using try_join_all_Ok [OF assms(2) [unfolded read_stripes_def]] by (simp add: list_all2_map1)
  then show ?thesis by (rule list.rel_mono_strong) (use sound in blast)
qed

text \<open>C5. A pNFS read that succeeds returns the bytes of the file from the offset asked for, at most as
  many as asked for: the byte at position \<open>p\<close> is the one stored at the data server, in the file
  and at the offset which the layout assigns to \<open>p\<close>.  This holds for every sequence of short
  replies, for dense and sparse layouts.\<close>

theorem pnfs_read_refines:
  assumes "find_covering_segment layout offset = Some seg"
    and "seg_content seg = FilesLayout device_id su dense thru first pat handles" and "2 \<le> unat su"
    and "fetch device_id (lo_generation layout) m = (m1, Ok (Some device))"
    and "serves store read"
    and "pnfs_read_layout server_addr fetch pick read joined fh offset amount layout m = (m', Some (Ok data))"
  shows "length data \<le> unat amount
    \<and> map Some data = map (\<lambda>p. stripe_byte store device dense handles fh
         (byte_target (unat su) dense (unat first) (length (di_stripe_indices device)) (unat pat) p))
         [unat offset..<unat offset + length data]"
proof -
  obtain stripes limit results where count: "file_layout_stripe_count device (length handles) dense first = Some stripes"
    and results: "read_stripes pick read device dense handles fh
        (split_into_stripes offset limit su dense first stripes pat) = Ok results"
    and data: "data = assemble_read results" and pat: "pat \<le> offset" and limit: "limit \<le> amount"
    using assms(6) unfolding pnfs_read_layout_def assms(1,2) option.case layout_content.case assms(4) prod.case outcome.case
    by (auto simp: Let_def not_less split: if_splits option.splits prod.splits bool.splits)
  note v = file_layout_stripe_count_Some [OF count]
  define hi where "hi = min (unat offset + unat limit) (2 ^ 64 - 1)"
  let ?chunks = "split_into_stripes offset limit su dense first stripes pat"
  have bytes: "concat (map chunk_bytes ?chunks)
      = target_bytes (unat su) dense (unat first) (length (di_stripe_indices device)) (unat pat) (unat offset) hi"
    unfolding split_into_stripes_loop [OF assms(3) v(2) pat]
    using stripe_loop_bytes [OF assms(3) v(2) pat] by (simp add: unat_saturating_add v(1) hi_def)
  have hi: "hi \<le> 2 ^ 64" by (simp add: hi_def)
  obtain x where x: "assembly_freeze (join_stripes results (assembly_new 0)) = x"
    "map Some x = map (\<lambda>(k, p, off). stripe_byte store device dense handles fh (k, off))
       (take (length x) (concat (map chunk_bytes ?chunks)))"
    using join_stripes_sound [OF read_stripes_sound [OF assms(5) results bytes hi], of "assembly_new 0"] by auto
  then have d: "data = x" using data assemble_read_eq [of results 0] by simp
  have len: "length x \<le> hi - unat offset"
    using arg_cong [OF x(2), of length] by (simp add: bytes target_bytes_def)
  have prefix: "take (length x) [unat offset..<hi] = [unat offset..<unat offset + length x]"
  proof (cases "x = []")
    case False
    then have "unat offset + length x \<le> hi" using len length_greater_0_conv [of x] by linarith
    then show ?thesis by (rule take_upt)
  qed simp
  have "length data \<le> unat amount" using len d limit by (simp add: word_le_nat_alt hi_def)
  moreover have "map Some data = map (\<lambda>p. stripe_byte store device dense handles fh
      (byte_target (unat su) dense (unat first) (length (di_stripe_indices device)) (unat pat) p))
      [unat offset..<unat offset + length data]"
    using x(2) by (simp add: d bytes target_bytes_def take_map prefix comp_def case_prod_beta)
  ultimately show ?thesis by simp
qed

text \<open>Two data servers with one stripe of 64 bytes each.\<close>

definition sample_device :: device_info where
  "sample_device = \<lparr>di_stripe_indices = [0, 1], di_ds_addrs = [[SocketV4 1 2049], [SocketV4 2 2049]]\<rparr>"

definition sample_files :: layout where
  "sample_files = \<lparr>lo_generation = 1, lo_stateid = [], lo_return_on_close = False, lo_segments =
     [\<lparr>seg_offset = 0, seg_length = - 1, seg_iomode = Io_ReadWrite, seg_layout_type = NfsV41Files,
       seg_content = FilesLayout [3] 64 True False 0 0 [[1], [2]]\<rparr>]\<rparr>"

definition sample_store :: "socket_addr \<Rightarrow> bytes \<Rightarrow> bytes" where
  "sample_store addr fh = (if addr = SocketV4 1 2049 then replicate 64 7 else replicate 64 9)"

definition op_reply :: "bytes \<Rightarrow> compound_response" where
  "op_reply body = \<lparr>cr_tag = [], cr_status = 0, cr_results =
     [\<lparr>or_opcode = 53, or_status = 0, or_data = []\<rparr>, \<lparr>or_opcode = 22, or_status = 0, or_data = []\<rparr>,
      \<lparr>or_opcode = 0, or_status = 0, or_data = body\<rparr>], cr_session_generation = 1\<rparr>"

definition sample_read :: "socket_addr \<Rightarrow> bytes \<Rightarrow> u64 \<Rightarrow> u32 \<Rightarrow> compound_response result" where
  "sample_read addr fh off n =
     (let data = take (unat n) (drop (unat off) (sample_store addr fh))
      in Ok (op_reply (u32_to_be 1 @ u32_to_be (word_of_nat (length data)) @ data)))"

lemma after_putfh_reply [simp]: "after_putfh (Ok (op_reply body)) = Ok \<lparr>or_opcode = 0, or_status = 0, or_data = body\<rparr>"
  by (simp add: after_putfh_def op_reply_def op_ok_def)

lemma read_result_enc:
  assumes "length data \<le> n" and "length data < 2 ^ 32"
  shows "read_result n (u32_to_be eof @ u32_to_be (word_of_nat (length data)) @ data) = Ok ((data, eof \<noteq> 0), [])"
  using assms by (simp add: read_result_def rbind_def need_def get_u32_append get_bytes_def rreturn_def unat_of_nat_small)

lemma length_sample_store [simp]: "length (sample_store addr fh) = 64"
  by (simp add: sample_store_def)

lemma sample_read_result:
  "after_putfh (sample_read addr fh off n) = Ok opr \<Longrightarrow>
   read_result (unat n) (or_data opr) = Ok ((take (unat n) (drop (unat off) (sample_store addr fh)), True), [])"
  using read_result_enc [of "take (unat n) (drop (unat off) (sample_store addr fh))" "unat n" 1]
  by (auto simp: sample_read_def Let_def)

lemma sample_read_serves: "serves sample_store sample_read"
  by (auto simp: serves_def dest!: sample_read_result)

lemma sample_chunks:
  "split_into_stripes 63 2 64 True 0 2 0 =
     [\<lparr>chunk_ds_index = 0, chunk_file_offset = 63, chunk_ds_offset = 63, chunk_length = 1\<rparr>,
      \<lparr>chunk_ds_index = 1, chunk_file_offset = 64, chunk_ds_offset = 0, chunk_length = 1\<rparr>]"
  by code_simp

lemma sample_targets:
  "file_layout_target sample_device 0 True [[1], [2]] [5] = Ok ([1], SocketV4 1 2049)"
  "file_layout_target sample_device 1 True [[1], [2]] [5] = Ok ([2], SocketV4 2 2049)"
  by code_simp+

lemma sample_stripe:
  "unat off < 64 \<Longrightarrow> read_stripe (sample_read addr fh) off 1 (assembly_new 1) = Ok ([sample_store addr fh ! unat off], False)"
proof -
  assume off: "unat off < 64"
  have one: "take 1 (drop (unat off) (sample_store addr fh)) = [sample_store addr fh ! unat off]"
    using off by (simp add: take_Suc_conv_app_nth hd_drop_conv_nth take_Suc)
  have "min (64 - unat off) (Suc 0) = 1" using off by simp
  then have "sample_read addr fh off 1 = Ok (op_reply (u32_to_be 1 @ u32_to_be 1 @ [sample_store addr fh ! unat off]))"
    using one by (simp add: sample_read_def)
  then show ?thesis
    using read_result_enc [of "[sample_store addr fh ! unat off]" 1 1]
    by (subst read_stripe.simps) (simp del: and_then_eq_Ok)
qed

lemma sample_pnfs_read:
  "pnfs_read_layout (SocketV4 9 2049) (\<lambda>_ _ m. (m, Ok (Some sample_device))) 0 sample_read 1 [5] 63 2 sample_files manager_new
     = (manager_new, Some (Ok [7, 9]))"
proof -
  have seg: "find_covering_segment sample_files 63 = Some (hd (lo_segments sample_files))"
    by (simp add: sample_files_def find_covering_segment_def covers_def checked_add_code)
  have device: "file_layout_stripe_count sample_device (Suc (Suc 0)) True 0 = Some 2"
    "device_degenerate (SocketV4 9 2049) sample_device manager_new = (manager_new, False)"
    "device_ds_unreachable (SocketV4 9 2049) manager_new sample_device = False"
    by (simp_all add: file_layout_stripe_count_def sample_device_def slice_get_def device_degenerate_def
        is_degenerate_device_def device_ds_unreachable_def is_ds_unreachable_def manager_new_def)
  have stripes: "read_stripes 0 sample_read sample_device True [[1], [2]] [5] (split_into_stripes 63 2 64 True 0 2 0)
      = Ok [([7], False), ([9], False)]"
    unfolding sample_chunks read_stripes_def
    by (simp add: sample_targets sample_stripe [unfolded One_nat_def] sample_store_def try_join_all_def del: and_then_eq_Ok)
  show ?thesis
    unfolding pnfs_read_layout_def seg option.case
    by (simp add: sample_files_def device stripes covered_bytes_def saturating_add_code saturating_sub_def assemble_read_def
        del: and_then_eq_Ok)
qed

theorem pnfs_read_refines_witness:
  "map Some [7, 9] = map (\<lambda>p. stripe_byte sample_store sample_device True [[1], [2]] [5] (byte_target 64 True 0 2 0 p)) [63..<65]"
proof -
  have seg: "find_covering_segment sample_files 63 = Some (hd (lo_segments sample_files))"
    by (simp add: sample_files_def find_covering_segment_def covers_def checked_add_code)
  have content: "seg_content (hd (lo_segments sample_files)) = FilesLayout [3] 64 True False 0 0 [[1], [2]]"
    by (simp add: sample_files_def)
  have two: "length (di_stripe_indices sample_device) = 2" by (simp add: sample_device_def)
  show ?thesis
    using pnfs_read_refines [OF seg content _ refl sample_read_serves sample_pnfs_read] by (simp add: two)
qed

end
