(* ===== verification/Pnfs_Write.thy ===== *)
theory Pnfs_Write
  imports Pnfs_Io
begin

text \<open>
  Writes through a layout, of \<open>src/src/nfs41/pnfs_io.rs\<close>: the plan of a write, the WRITE requests to the
  data servers with their short replies and restarts, and the classification of a batch that failed.

  A \<open>PendingWrite\<close> is shared (\<open>Arc\<close>) between the caller and the layout manager, so it lives in an
  explicit store and the manager holds its address.  The servers are parameters: a function of the
  number of the request, its offset and its data.
\<close>

subsection \<open>Planning a write\<close>

record planned_ds_write =
  pw_file_offset :: u64
  pw_stripe_index :: nat
  pw_ds_fh :: bytes
  pw_ds_addr :: socket_addr
  pw_ds_offset :: u64
  pw_data :: bytes

definition plan_ds_write ::
  "device_info \<Rightarrow> bool \<Rightarrow> bytes list \<Rightarrow> bytes \<Rightarrow> u64 \<Rightarrow> bytes \<Rightarrow> nat \<times> stripe_chunk \<Rightarrow> planned_ds_write result" where
  "plan_ds_write device is_dense fh_list fh offset data = (\<lambda>(stripe_index, chunk).
     and_then (file_layout_target device (chunk_ds_index chunk) is_dense fh_list fh) (\<lambda>(ds_fh, ds_addr).
       let chunk_start = unat (chunk_file_offset chunk - offset);
           len = unat (chunk_length chunk)
       in if length data < chunk_start + len then Panic
          else Ok \<lparr>pw_file_offset = chunk_file_offset chunk, pw_stripe_index = stripe_index, pw_ds_fh = ds_fh,
                   pw_ds_addr = ds_addr, pw_ds_offset = chunk_ds_offset chunk,
                   pw_data = take len (drop chunk_start data)\<rparr>))"

definition plan_ds_writes ::
  "device_info \<Rightarrow> bool \<Rightarrow> bytes list \<Rightarrow> bytes \<Rightarrow> u64 \<Rightarrow> bytes \<Rightarrow> stripe_chunk list \<Rightarrow> planned_ds_write list result" where
  "plan_ds_writes device is_dense fh_list fh offset data chunks =
     collect_results (plan_ds_write device is_dense fh_list fh offset data) (List.enumerate 0 chunks)"

subsection \<open>Receipts\<close>

record ds_write_reply =
  wr_file_offset :: u64
  wr_written :: u32
  wr_committed :: write_committed
  wr_data :: bytes
  wr_verifier :: bytes
  wr_ds_addr :: socket_addr
  wr_ds_fh :: bytes
  wr_ds_offset :: u64

record pending_write =
  pend_fh :: bytes
  pend_offset :: u64
  pend_count :: u32
  pend_generation :: u64
  pend_commit_thru_mds :: bool
  pend_replies :: "ds_write_reply list"
  pend_done :: bool
  pend_failed :: bool

definition pending_committed :: "pending_write \<Rightarrow> write_committed" where
  "pending_committed p = (if pend_replies p = [] then Unstable else Min (set (map wr_committed (pend_replies p))))"

subsection \<open>Writing one stripe\<close>

definition NFS4ERR_STALE :: u32 where "NFS4ERR_STALE = 70"

definition uncertain_pnfs_write :: "request_context \<Rightarrow> nfs_error \<Rightarrow> nfs_error" where
  "uncertain_pnfs_write context source =
     OperationOutcome (new_operation_outcome Uncertain ReplaySensitive VerifyThenResume context source)"

primrec rejected_before_write :: "nfs_error \<Rightarrow> bool" where
  "rejected_before_write (Nfs4 status) \<longleftrightarrow> status = NFS4ERR_STALE"
| "rejected_before_write (ServerBusy _) \<longleftrightarrow> True"
| "rejected_before_write (Io _) \<longleftrightarrow> False"
| "rejected_before_write (Nfs3 _) \<longleftrightarrow> False"
| "rejected_before_write (LockDenied _ _ _ _) \<longleftrightarrow> False"
| "rejected_before_write (MountError _) \<longleftrightarrow> False"
| "rejected_before_write (Rpc _) \<longleftrightarrow> False"
| "rejected_before_write (Xdr _) \<longleftrightarrow> False"
| "rejected_before_write (Unsupported _) \<longleftrightarrow> False"
| "rejected_before_write (InvalidInput _) \<longleftrightarrow> False"
| "rejected_before_write (ClosedResource _) \<longleftrightarrow> False"
| "rejected_before_write (ModeViolation _) \<longleftrightarrow> False"
| "rejected_before_write (ClientClosed _) \<longleftrightarrow> False"
| "rejected_before_write (PositionUncertain _) \<longleftrightarrow> False"
| "rejected_before_write (LostOpenState _) \<longleftrightarrow> False"
| "rejected_before_write (FileClose _) \<longleftrightarrow> False"
| "rejected_before_write (RdattrError _) \<longleftrightarrow> False"
| "rejected_before_write (OperationOutcome _) \<longleftrightarrow> False"

definition ds_error_after_progress :: "nfs_error \<Rightarrow> u32 \<Rightarrow> nfs_version \<Rightarrow> nfs_error" where
  "ds_error_after_progress error confirmed protocol =
     (if 0 < confirmed \<and> rejected_before_write error
      then uncertain_pnfs_write \<lparr>ctx_operation = ''pnfs_write'', ctx_protocol = protocol, ctx_request_id = None\<rparr> error
      else error)"

text \<open>\<open>error.operation_outcome().is_some_and(|o| o.context().operation == "write_verifier")\<close>.\<close>

definition verifier_changed :: "nfs_error \<Rightarrow> bool" where
  "verifier_changed error \<longleftrightarrow>
     (case operation_outcome_of error of
        Some oe \<Rightarrow> ctx_operation (oe_context oe) = ''write_verifier''
      | None \<Rightarrow> False)"

text \<open>The acknowledgement of one WRITE: count, stability and verifier.\<close>

definition write_ack :: "nat \<Rightarrow> (nat \<times> u32 \<times> bytes, nfs_error) reader" where
  "write_ack remaining =
     rbind (need 16 (Xdr ''DS WRITE result too short'')) (\<lambda>_.
     rbind get_u32 (\<lambda>n.
     rbind get_u32 (\<lambda>committed.
     rbind (if n = 0 \<or> remaining < unat n \<or> committed > 2 then rfail (Rpc ''invalid DS WRITE acknowledgement'')
            else rreturn ()) (\<lambda>_.
     rbind (get_bytes 8) (\<lambda>current. rreturn (unat n, committed, current))))))"

lemma write_ack_progress:
  "write_ack remaining d = Ok ((n, committed, current), rest) \<Longrightarrow> 0 < n \<and> n \<le> remaining"
  by (auto simp: write_ack_def rbind_def need_def rreturn_def rfail_def unat_gt_0 split: if_splits prod.splits)

text \<open>\<open>write_ds_attempt\<close>: the loop over short writes.  \<open>net k off data\<close> is the outcome of the
  \<open>k\<close>-th \<open>ds_write_chunk\<close> of this stripe; the first component of the result counts them.\<close>

function write_ds_loop ::
  "nfs_version \<Rightarrow> (nat \<Rightarrow> u64 \<Rightarrow> bytes \<Rightarrow> compound_response result) \<Rightarrow> planned_ds_write \<Rightarrow> nat \<Rightarrow> nat \<Rightarrow> u32 \<Rightarrow> bytes option
     \<Rightarrow> nat \<times> ds_write_reply result" where
  "write_ds_loop protocol net write calls done_bytes level verifier =
     (if done_bytes < length (pw_data write)
      then case after_putfh (net calls (pw_ds_offset write + word_of_nat done_bytes) (drop done_bytes (pw_data write))) of
             Err e \<Rightarrow> (Suc calls, Err (ds_error_after_progress e (word_of_nat done_bytes) protocol))
           | Panic \<Rightarrow> (Suc calls, Panic)
           | Ok opr \<Rightarrow>
               case write_ack (length (pw_data write) - done_bytes) (or_data opr) of
                 Err e \<Rightarrow> (Suc calls, Err e)
               | Panic \<Rightarrow> (Suc calls, Panic)
               | Ok ((n, committed, current), _) \<Rightarrow>
                   if verifier \<noteq> None \<and> verifier \<noteq> Some current then (Suc calls, Err (write_verifier_changed protocol))
                   else write_ds_loop protocol net write (Suc calls) (done_bytes + n) (min level committed) (Some current)
      else (calls, and_then (write_committed_try_from level) (\<lambda>committed.
             Ok \<lparr>wr_file_offset = pw_file_offset write, wr_written = word_of_nat done_bytes, wr_committed = committed,
                 wr_data = pw_data write,
                 wr_verifier = (case verifier of Some v \<Rightarrow> v | None \<Rightarrow> replicate 8 0),
                 wr_ds_addr = pw_ds_addr write, wr_ds_fh = pw_ds_fh write, wr_ds_offset = pw_ds_offset write\<rparr>)))"
  by pat_completeness auto
termination
  by (relation "measure (\<lambda>(_, _, write, _, done_bytes, _). length (pw_data write) - done_bytes)")
    (auto dest: write_ack_progress)

declare write_ds_loop.simps [simp del]

definition write_ds_attempt ::
  "nfs_version \<Rightarrow> (nat \<Rightarrow> u64 \<Rightarrow> bytes \<Rightarrow> compound_response result) \<Rightarrow> planned_ds_write \<Rightarrow> nat \<Rightarrow> nat \<times> ds_write_reply result" where
  "write_ds_attempt protocol net write calls = write_ds_loop protocol net write calls 0 2 None"

text \<open>\<open>write_ds_complete\<close>: \<open>for attempt in 0..3\<close>.\<close>

fun write_ds_rounds ::
  "nat \<Rightarrow> nfs_version \<Rightarrow> (nat \<Rightarrow> u64 \<Rightarrow> bytes \<Rightarrow> compound_response result) \<Rightarrow> planned_ds_write \<Rightarrow> nat \<Rightarrow> nat
     \<Rightarrow> nat \<times> ds_write_reply result" where
  "write_ds_rounds 0 protocol net write attempt calls = (calls, Panic)"
| "write_ds_rounds (Suc left) protocol net write attempt calls =
     (case write_ds_attempt protocol net write calls of
        (calls', Err e) \<Rightarrow>
          if attempt < 2 \<and> verifier_changed e then write_ds_rounds left protocol net write (attempt + 1) calls'
          else (calls', Err (ds_error_after_progress e (if 0 < attempt then 1 else 0) protocol))
      | (calls', r) \<Rightarrow> (calls', r))"

definition write_ds_complete ::
  "nfs_version \<Rightarrow> (nat \<Rightarrow> u64 \<Rightarrow> bytes \<Rightarrow> compound_response result) \<Rightarrow> planned_ds_write \<Rightarrow> nat \<times> ds_write_reply result" where
  "write_ds_complete protocol net write = write_ds_rounds 3 protocol net write 0 0"

subsection \<open>A batch of writes\<close>

record ds_write_completion =
  wc_stripe_index :: nat
  wc_ds_addr :: socket_addr
  wc_result :: "ds_write_reply result"

text \<open>\<open>settle_ds_batch\<close> waits for every stripe; \<open>net i\<close> is what the server of stripe \<open>i\<close> answers.\<close>

definition settle_ds_batch ::
  "nfs_version \<Rightarrow> (nat \<Rightarrow> nat \<Rightarrow> u64 \<Rightarrow> bytes \<Rightarrow> compound_response result) \<Rightarrow> planned_ds_write list \<Rightarrow> ds_write_completion list" where
  "settle_ds_batch protocol net writes =
     map (\<lambda>write. \<lparr>wc_stripe_index = pw_stripe_index write, wc_ds_addr = pw_ds_addr write,
                    wc_result = snd (write_ds_complete protocol (net (pw_stripe_index write)) write)\<rparr>) writes"

definition ds_batch_rejected_without_write :: "ds_write_completion list \<Rightarrow> bool" where
  "ds_batch_rejected_without_write completions \<longleftrightarrow>
     completions \<noteq> [] \<and> list_all (\<lambda>c. wc_result c = Err (Nfs4 NFS4ERR_STALE)) completions"

datatype pnfs_write_outcome =
    NotAttempted
  | Attempted "nat write_outcome result"
  | RefreshRequired layout

fun is_busy_error :: "nfs_error \<Rightarrow> bool" where
  "is_busy_error (ServerBusy _) \<longleftrightarrow> True"
| "is_busy_error _ \<longleftrightarrow> False"

definition is_rejected :: "'a result \<Rightarrow> bool" where
  "is_rejected r = (case r of Err e \<Rightarrow> rejected_before_write e | _ \<Rightarrow> False)"

definition is_ok :: "'a result \<Rightarrow> bool" where
  "is_ok r = (case r of Ok _ \<Rightarrow> True | _ \<Rightarrow> False)"

definition ok_values :: "'a result list \<Rightarrow> 'a list" where
  "ok_values rs = List.map_filter (\<lambda>r. case r of Ok x \<Rightarrow> Some x | _ \<Rightarrow> None) rs"

definition err_values :: "'a result list \<Rightarrow> nfs_error list" where
  "err_values rs = List.map_filter (\<lambda>r. case r of Err e \<Rightarrow> Some e | _ \<Rightarrow> None) rs"

text \<open>\<open>iter().min().unwrap_or(0)\<close> and \<open>iter().max().unwrap_or(0)\<close>.\<close>

fun least :: "u64 list \<Rightarrow> u64" where
  "least [] = 0"
| "least (x # xs) = fold min xs x"

fun greatest :: "u64 list \<Rightarrow> u64" where
  "greatest [] = 0"
| "greatest (x # xs) = fold max xs x"

text \<open>The store of retained writes, and the layout manager that holds their addresses.\<close>

record pnfs_state =
  ps_heap :: "nat \<Rightarrow> pending_write option"
  ps_manager :: layout_manager

text \<open>\<open>Arc::new\<close> at the unused address \<open>a\<close> and \<open>register_write\<close>.\<close>

definition retain_write :: "nat \<Rightarrow> bytes \<Rightarrow> pending_write \<Rightarrow> pnfs_state \<Rightarrow> pnfs_state" where
  "retain_write a fh p s = s\<lparr>ps_heap := (ps_heap s)(a \<mapsto> p), ps_manager := register_write fh a (ps_manager s)\<rparr>"

definition aggregate_context :: "nfs_version \<Rightarrow> bytes \<Rightarrow> request_context" where
  "aggregate_context protocol session_id =
     \<lparr>ctx_operation = ''pnfs_write'', ctx_protocol = protocol, ctx_request_id = Some (Nfs41Session session_id 0 0)\<rparr>"

text \<open>The aggregate result of a batch whose requests have all been answered.  \<open>diagnostic\<close> is the
  text of \<open>ds_batch_diagnostic\<close>.\<close>

definition failed_batch_error :: "nfs_error list \<Rightarrow> string \<Rightarrow> nfs_error" where
  "failed_batch_error errors diagnostic =
     (case find (\<lambda>error. is_busy_error error
              \<or> (case operation_outcome_of error of Some oe \<Rightarrow> is_server_busy (oe_source oe) | None \<Rightarrow> False)) errors of
        Some error \<Rightarrow> error
      | None \<Rightarrow> Rpc (''pNFS DS WRITE results: '' @ diagnostic))"

definition settle_pnfs_write ::
  "nfs_version \<Rightarrow> bytes \<Rightarrow> string \<Rightarrow> nat \<Rightarrow> layout \<Rightarrow> bool \<Rightarrow> bytes \<Rightarrow> u64 \<Rightarrow> ds_write_completion list \<Rightarrow> pnfs_state
     \<Rightarrow> pnfs_state \<times> pnfs_write_outcome" where
  "settle_pnfs_write protocol session_id diagnostic a layout commit_thru_mds fh offset completions s =
     (let results = map wc_result completions;
          uncertain = (\<lambda>source. Attempted (Err (uncertain_pnfs_write (aggregate_context protocol session_id) source)));
          receipt = (\<lambda>amount replies failed.
            \<lparr>pend_fh = fh, pend_offset = offset, pend_count = amount, pend_generation = lo_generation layout,
             pend_commit_thru_mds = commit_thru_mds, pend_replies = replies, pend_done = False, pend_failed = failed\<rparr>)
      in if list_all is_ok results then
           if lo_generation layout \<noteq> lm_active_generation (ps_manager s)
           then (s, uncertain (Rpc ''pNFS WRITE outcome crossed a session generation boundary''))
           else let replies = ok_values results;
                    total = sum_list (map wr_written replies);
                    pending = receipt total replies False
                in (retain_write a fh pending s,
                    Attempted (Ok \<lparr>wo_count = total, wo_committed = pending_committed pending, wo_verifier = None,
                                   wo_pnfs = Some a\<rparr>))
         else if ds_batch_rejected_without_write completions then (s, RefreshRequired layout)
         else if list_all is_rejected results
         then (s, Attempted (Err (case find is_busy_error (err_values results) of
                                    Some busy \<Rightarrow> busy | None \<Rightarrow> Rpc ''empty rejected DS batch'')))
         else let known = ok_values results;
                  finish = greatest (map (\<lambda>r. wr_file_offset r + ucast (wr_written r)) known);
                  s' = (if known = [] then s
                        else retain_write a fh (receipt (ucast (finish - offset)) known True) s)
              in (s', uncertain (failed_batch_error (err_values results) diagnostic)))"

text \<open>\<open>pnfs_write\<close>.  \<open>layout\<close> is the result of \<open>get_or_fetch_layout\<close>, \<open>fetch\<close> is
  \<open>get_or_fetch_device\<close>, \<open>preflight\<close> is \<open>preflight_write_data_servers\<close>; \<open>settled\<close> is what other tasks
  do to the state while the batch is on the wire.\<close>

record pnfs_net =
  pn_protocol :: nfs_version
  pn_server_addr :: socket_addr
  pn_session_id :: bytes
  pn_diagnostic :: "ds_write_completion list \<Rightarrow> string"
  pn_fetch :: "bytes \<Rightarrow> u64 \<Rightarrow> layout_manager \<Rightarrow> layout_manager \<times> device_info option result"
  pn_preflight :: "planned_ds_write list \<Rightarrow> u64 \<Rightarrow> unit result"
  pn_write :: "nat \<Rightarrow> nat \<Rightarrow> u64 \<Rightarrow> bytes \<Rightarrow> compound_response result"
  pn_settled :: "pnfs_state \<Rightarrow> pnfs_state"

definition send_planned ::
  "pnfs_net \<Rightarrow> nat \<Rightarrow> layout \<Rightarrow> bool \<Rightarrow> bytes \<Rightarrow> u64 \<Rightarrow> planned_ds_write list \<Rightarrow> pnfs_state \<Rightarrow> pnfs_state \<times> pnfs_write_outcome" where
  "send_planned net a layout commit_thru_mds fh offset writes s =
     (case pn_preflight net writes (lo_generation layout) of
        Ok _ \<Rightarrow>
          let completions = settle_ds_batch (pn_protocol net) (pn_write net) writes
          in settle_pnfs_write (pn_protocol net) (pn_session_id net) (pn_diagnostic net completions) a layout commit_thru_mds
               fh offset completions (pn_settled net s)
      | _ \<Rightarrow> (s, RefreshRequired layout))"

definition covered_data :: "layout_segment \<Rightarrow> u64 \<Rightarrow> bytes \<Rightarrow> bytes" where
  "covered_data seg offset data = take (unat (covered_bytes seg offset)) data"

definition pnfs_write ::
  "pnfs_net \<Rightarrow> nat \<Rightarrow> layout option result \<Rightarrow> bytes \<Rightarrow> u64 \<Rightarrow> bytes \<Rightarrow> pnfs_state \<Rightarrow> pnfs_state \<times> pnfs_write_outcome" where
  "pnfs_write net a fetched fh offset data s =
     (case fetched of
        Err e \<Rightarrow> (s, Attempted (Err e))
      | Panic \<Rightarrow> (s, Attempted Panic)
      | Ok None \<Rightarrow> (s, NotAttempted)
      | Ok (Some layout) \<Rightarrow>
        case find_covering_segment layout offset of
          None \<Rightarrow> (s, NotAttempted)
        | Some seg \<Rightarrow>
          case seg_content seg of
            Opaque _ \<Rightarrow> (s, NotAttempted)
          | FilesLayout device_id stripe_unit is_dense commit_thru_mds first_stripe_index pattern_offset fh_list \<Rightarrow>
            if stripe_unit = 0 \<or> offset < pattern_offset then (s, NotAttempted)
            else case pn_fetch net device_id (lo_generation layout) (ps_manager s) of
              (m1, Err e) \<Rightarrow> (s\<lparr>ps_manager := m1\<rparr>, Attempted (Err e))
            | (m1, Panic) \<Rightarrow> (s\<lparr>ps_manager := m1\<rparr>, Attempted Panic)
            | (m1, Ok None) \<Rightarrow> (s\<lparr>ps_manager := m1\<rparr>, NotAttempted)
            | (m1, Ok (Some device)) \<Rightarrow>
              case file_layout_stripe_count device (length fh_list) is_dense first_stripe_index of
                None \<Rightarrow> (s\<lparr>ps_manager := m1\<rparr>, NotAttempted)
              | Some stripe_count \<Rightarrow>
                case device_degenerate (pn_server_addr net) device m1 of
                  (m2, True) \<Rightarrow> (s\<lparr>ps_manager := m2\<rparr>, NotAttempted)
                | (m2, False) \<Rightarrow>
                  if device_ds_unreachable (pn_server_addr net) m2 device then (s\<lparr>ps_manager := m2\<rparr>, NotAttempted)
                  else let covered = covered_data seg offset data
                       in case plan_ds_writes device is_dense fh_list fh offset covered
                                 (split_into_stripes offset (word_of_nat (length covered)) stripe_unit is_dense
                                    first_stripe_index stripe_count pattern_offset) of
                            Ok writes \<Rightarrow> send_planned net a layout commit_thru_mds fh offset writes (s\<lparr>ps_manager := m2\<rparr>)
                          | Err _ \<Rightarrow> (s\<lparr>ps_manager := m2\<rparr>, NotAttempted)
                          | Panic \<Rightarrow> (s\<lparr>ps_manager := m2\<rparr>, Attempted Panic))"

subsection \<open>A refused stripe was not written\<close>

lemma write_ack_not_rejected: "write_ack remaining d = Err e \<Longrightarrow> \<not> rejected_before_write e"
  by (auto simp: write_ack_def rbind_def need_def rreturn_def rfail_def get_u32_def get_bytes_def and_then_eq_Err
      split: if_splits prod.splits)

lemma rejected_simps [simp]:
  "\<not> rejected_before_write (write_verifier_changed protocol)"
  "0 < confirmed \<Longrightarrow> \<not> rejected_before_write (ds_error_after_progress e confirmed protocol)"
  "ds_error_after_progress e 0 protocol = e"
  by (simp_all add: write_verifier_changed_def ds_error_after_progress_def uncertain_pnfs_write_def)

lemma write_committed_not_rejected: "write_committed_try_from level = Err e \<Longrightarrow> \<not> rejected_before_write e"
  by (auto simp: write_committed_try_from_def split: if_splits)

lemma write_ds_loop_rejected:
  assumes "write_ds_loop protocol net write calls d level v = (calls', Err e)" and "rejected_before_write e"
    and "length (pw_data write) < 2 ^ 32" and "d \<le> length (pw_data write)"
  shows "d = 0 \<and> calls' = Suc calls \<and> after_putfh (net calls (pw_ds_offset write) (pw_data write)) = Err e"
  using assms
proof (induction protocol net "write" calls d level v rule: write_ds_loop.induct)
  case (1 protocol net "write" calls d level v)
  let ?reply = "after_putfh (net calls (pw_ds_offset write + word_of_nat d) (drop d (pw_data write)))"
  have pos: "0 < (word_of_nat d :: u32)" if "0 < d"
    using that "1.prems"(3,4) by (simp add: word_less_nat_alt unat_of_nat_small)
  note result = "1.prems"(1) [unfolded write_ds_loop.simps [of protocol net "write" calls d level v]]
  show ?case
  proof (cases "d < length (pw_data write)")
    case False
    with result "1.prems"(2) show ?thesis by (auto simp: and_then_eq_Err dest: write_committed_not_rejected)
  next
    case less: True
    show ?thesis
    proof (cases ?reply)
      case (Ok opr)
      show ?thesis
      proof (cases "write_ack (length (pw_data write) - d) (or_data opr)")
        case ack: (Ok r)
        obtain n committed current rest where r: "r = ((n, committed, current), rest)" by (metis prod.exhaust)
        have n: "0 < n" "d + n \<le> length (pw_data write)" using write_ack_progress [OF ack [unfolded r]] less by auto
        have "\<not> (v \<noteq> None \<and> v \<noteq> Some current)" using result less Ok ack r "1.prems"(2) by (auto split: if_splits)
        with result less Ok ack r n "1.IH" [OF less Ok ack r [symmetric] refl refl] "1.prems"(2,3) show ?thesis by auto
      qed (use result less Ok "1.prems"(2) in \<open>auto dest: write_ack_not_rejected\<close>)
    next
      case (Err e')
      with result less pos "1.prems"(2) show ?thesis by (cases "d = 0") auto
    qed (use result less in simp)
  qed
qed

lemma write_ds_rounds_rejected:
  assumes "write_ds_rounds left protocol net write attempt calls = (calls', Err e)" and "rejected_before_write e"
    and "length (pw_data write) < 2 ^ 32"
  shows "attempt = 0 \<and> calls' = Suc calls \<and> after_putfh (net calls (pw_ds_offset write) (pw_data write)) = Err e"
  using assms
proof (induction left arbitrary: attempt calls)
  case (Suc left)
  obtain c r where a: "write_ds_attempt protocol net write calls = (c, r)" by fastforce
  show ?case
  proof (cases "\<exists>e'. r = Err e' \<and> attempt < 2 \<and> verifier_changed e'")
    case True
    with Suc.prems(1) a have "write_ds_rounds left protocol net write (attempt + 1) c = (calls', Err e)" by auto
    from Suc.IH [OF this Suc.prems(2,3)] show ?thesis by simp
  next
    case False
    with Suc.prems(1,2) a have "attempt = 0 \<and> r = Err e \<and> c = calls'"
      by (cases r) (auto split: if_splits)
    with a show ?thesis
      using write_ds_loop_rejected [OF _ Suc.prems(2,3)] by (auto simp: write_ds_attempt_def)
  qed
qed simp

lemma write_ds_complete_rejected:
  assumes "snd (write_ds_complete protocol net w) = Err e" and "rejected_before_write e" and "length (pw_data w) < 2 ^ 32"
  shows "write_ds_complete protocol net w = (1, Err e) \<and> after_putfh (net 0 (pw_ds_offset w) (pw_data w)) = Err e"
proof -
  obtain calls where "write_ds_complete protocol net w = (calls, Err e)" using assms(1) by (metis prod.collapse)
  with write_ds_rounds_rejected [OF this [unfolded write_ds_complete_def] assms(2,3)] show ?thesis by simp
qed

lemma settle_pnfs_write_refused:
  assumes "settle_pnfs_write protocol session_id diagnostic a layout thru fh offset completions s = (s', outcome)"
    and "outcome = RefreshRequired l \<or> outcome = Attempted (Err (ServerBusy b))"
  shows "s' = s \<and> list_all is_rejected (map wc_result completions)"
proof -
  have ok: "\<not> list_all is_ok (map wc_result completions)"
  proof
    assume "list_all is_ok (map wc_result completions)"
    then show False
      using assms unfolding settle_pnfs_write_def Let_def uncertain_pnfs_write_def
      by (simp only: if_True if_False split: if_split_asm) auto
  qed
  have "is_rejected (Err (Nfs4 NFS4ERR_STALE))" by (simp add: is_rejected_def)
  then have stale: "list_all is_rejected (map wc_result completions)" if "ds_batch_rejected_without_write completions"
    using that by (auto simp: ds_batch_rejected_without_write_def list_all_iff)
  show ?thesis
  proof (rule ccontr)
    assume wrong: "\<not> ?thesis"
    show False
    proof (cases "list_all is_rejected (map wc_result completions)")
      case True
      then show False
        using assms(1) ok wrong unfolding settle_pnfs_write_def Let_def
        by (simp only: if_True if_False simp_thms split: if_split_asm) auto
    next
      case False
      then show False
        using assms ok stale unfolding settle_pnfs_write_def Let_def uncertain_pnfs_write_def
        by (simp only: if_False simp_thms split: if_split_asm) auto
    qed
  qed
qed

text \<open>C3. A batch is given back to the metadata server, or reported as busy, only if nothing of it was
  written: either the data servers could not be reached and no WRITE was sent, or exactly one WRITE
  was sent for each stripe and the server refused it with NFS4ERR_STALE or stayed busy.  No receipt is
  retained in that case.  This covers short writes and restarts after a changed verifier.\<close>

theorem fallback_only_if_unwritten:
  assumes "list_all (\<lambda>w. length (pw_data w) < 2 ^ 32) writes"
    and "send_planned net a layout thru fh offset writes s = (s', outcome)"
    and "outcome = RefreshRequired l \<or> outcome = Attempted (Err (ServerBusy b))"
  shows "pn_preflight net writes (lo_generation layout) \<noteq> Ok () \<and> s' = s
    \<or> s' = pn_settled net s \<and> (\<forall>w \<in> set writes. \<exists>e. rejected_before_write e
         \<and> write_ds_complete (pn_protocol net) (pn_write net (pw_stripe_index w)) w = (1, Err e)
         \<and> after_putfh (pn_write net (pw_stripe_index w) 0 (pw_ds_offset w) (pw_data w)) = Err e)"
proof (cases "pn_preflight net writes (lo_generation layout) = Ok ()")
  case True
  let ?completions = "settle_ds_batch (pn_protocol net) (pn_write net) writes"
  have settled: "settle_pnfs_write (pn_protocol net) (pn_session_id net) (pn_diagnostic net ?completions) a layout thru fh offset
      ?completions (pn_settled net s) = (s', outcome)"
    using assms(2) True by (simp add: send_planned_def Let_def)
  have "s' = pn_settled net s \<and> list_all is_rejected (map wc_result ?completions)"
    using settle_pnfs_write_refused [OF settled assms(3)] .
  moreover have "\<exists>e. rejected_before_write e
      \<and> write_ds_complete (pn_protocol net) (pn_write net (pw_stripe_index w)) w = (1, Err e)
      \<and> after_putfh (pn_write net (pw_stripe_index w) 0 (pw_ds_offset w) (pw_data w)) = Err e"
    if "is_rejected (snd (write_ds_complete (pn_protocol net) (pn_write net (pw_stripe_index w)) w))"
      and "length (pw_data w) < 2 ^ 32" for w
    using that write_ds_complete_rejected unfolding is_rejected_def by (fastforce split: outcome.splits)
  ultimately show ?thesis
    using assms(1) by (auto simp: settle_ds_batch_def list_all_iff)
qed (use assms(2) in \<open>auto simp: send_planned_def split: outcome.splits\<close>)

subsection \<open>A write sends each byte to its place\<close>

definition stripe_place :: "device_info \<Rightarrow> bool \<Rightarrow> bytes list \<Rightarrow> bytes \<Rightarrow> nat \<Rightarrow> (bytes \<times> socket_addr) option" where
  "stripe_place device is_dense handles fh k =
     (case file_layout_target device (word_of_nat k) is_dense handles fh of Ok t \<Rightarrow> Some t | _ \<Rightarrow> None)"

text \<open>The bytes a planned write puts on a data server: file and server, offset, value.\<close>

definition planned_bytes :: "planned_ds_write \<Rightarrow> ((bytes \<times> socket_addr) option \<times> nat \<times> u8) list" where
  "planned_bytes w =
     map (\<lambda>i. (Some (pw_ds_fh w, pw_ds_addr w), unat (pw_ds_offset w) + i, pw_data w ! i)) [0..<length (pw_data w)]"

lemma plan_ds_write_chunk:
  assumes "file_layout_stripe_count device (length handles) dense first = Some stripes"
    and "chunk_ds_index c < stripes" and "offset \<le> chunk_file_offset c"
    and "unat (chunk_file_offset c) + unat (chunk_length c) \<le> unat offset + length data"
  shows "\<exists>w. plan_ds_write device dense handles fh offset data (i, c) = Ok w \<and> length (pw_data w) < 2 ^ 32
    \<and> planned_bytes w = map (\<lambda>(k, p, off). (stripe_place device dense handles fh k, off, data ! (p - unat offset))) (chunk_bytes c)"
proof -
  obtain ds_fh ds_addr where t: "file_layout_target device (chunk_ds_index c) dense handles fh = Ok (ds_fh, ds_addr)"
    using file_layout_target_Ok [OF assms(1,2)] by blast
  have start: "unat (chunk_file_offset c - offset) = unat (chunk_file_offset c) - unat offset"
    using assms(3) by (simp add: unat_sub_le)
  have le: "unat offset \<le> unat (chunk_file_offset c)" using assms(3) by (simp add: word_le_nat_alt)
  have len: "length (take (unat (chunk_length c)) (drop (unat (chunk_file_offset c) - unat offset) data)) = unat (chunk_length c)"
    using assms(4) le by simp
  show ?thesis
    using assms(4) le len unat_u32_less [of "chunk_length c"]
    by (auto simp: plan_ds_write_def Let_def t start planned_bytes_def chunk_bytes_def stripe_place_def)
qed

lemma data_chunks:
  assumes "file_layout_stripe_count device n dense first = Some stripes" and "2 \<le> unat su" and "pat \<le> offset"
    and "length data < 2 ^ 32" and "unat offset + length data < 2 ^ 64"
  defines "chunks \<equiv> split_into_stripes offset (word_of_nat (length data)) su dense first stripes pat"
  shows "concat (map chunk_bytes chunks)
      = target_bytes (unat su) dense (unat first) (unat stripes) (unat pat) (unat offset) (unat offset + length data)"
    and "\<And>c. c \<in> set chunks \<Longrightarrow> offset \<le> chunk_file_offset c \<and> chunk_ds_index c < stripes
      \<and> unat (chunk_file_offset c) + unat (chunk_length c) \<le> unat offset + length data"
proof -
  let ?finish = "saturating_add offset (ucast (word_of_nat (length data) :: u32))"
  note v = file_layout_stripe_count_Some [OF assms(1)]
  have chunks: "chunks = stripe_loop su dense first stripes pat ?finish offset"
    unfolding chunks_def by (rule split_into_stripes_loop [OF assms(2) v(2) assms(3)])
  have "unat (word_of_nat (length data) :: u32) = length data" using assms(4) by (intro unat_of_nat_small) simp
  then have hi: "unat ?finish = unat offset + length data"
    using assms(5) by (simp add: unat_saturating_add)
  show bytes: "concat (map chunk_bytes chunks)
      = target_bytes (unat su) dense (unat first) (unat stripes) (unat pat) (unat offset) (unat offset + length data)"
    unfolding chunks using stripe_loop_bytes [OF assms(2) v(2) assms(3)] hi by simp
  show "offset \<le> chunk_file_offset c \<and> chunk_ds_index c < stripes
      \<and> unat (chunk_file_offset c) + unat (chunk_length c) \<le> unat offset + length data" if c: "c \<in> set chunks" for c
  proof -
    have "unat (chunk_file_offset c) + (unat (chunk_length c) - 1) < unat offset + length data" if "0 < unat (chunk_length c)"
      using chunk_byte_range(1) [OF bytes _ c, of "unat (chunk_length c) - 1"] that assms(5) by simp
    then show ?thesis
      using stripe_loop_member [OF c [unfolded chunks] v(2) assms(2)] hi
      by (cases "unat (chunk_length c) = 0") (auto simp: word_less_nat_alt)
  qed
qed

text \<open>C4. The plan of a write through a valid layout never fails.  Its requests carry every byte of the
  data exactly once and in order, each to the data server, file handle and offset which the layout
  assigns to that byte of the file.\<close>

theorem write_plan_refines:
  assumes "file_layout_stripe_count device (length handles) dense first = Some stripes" and "2 \<le> unat su"
    and "pat \<le> offset" and "length data < 2 ^ 32" and "unat offset + length data < 2 ^ 64"
  shows "\<exists>writes. plan_ds_writes device dense handles fh offset data
        (split_into_stripes offset (word_of_nat (length data)) su dense first stripes pat) = Ok writes
     \<and> list_all (\<lambda>w. length (pw_data w) < 2 ^ 32) writes
     \<and> concat (map planned_bytes writes)
       = map (\<lambda>i. case byte_target (unat su) dense (unat first) (unat stripes) (unat pat) (unat offset + i) of
                 (k, off) \<Rightarrow> (stripe_place device dense handles fh k, off, data ! i)) [0..<length data]"
proof -
  let ?chunks = "split_into_stripes offset (word_of_nat (length data)) su dense first stripes pat"
  let ?place = "\<lambda>(k, p, off). (stripe_place device dense handles fh k, off, data ! (p - unat offset))"
  note chunks = data_chunks [OF assms]
  have "\<exists>w. plan_ds_write device dense handles fh offset data ic = Ok w \<and> length (pw_data w) < 2 ^ 32
      \<and> planned_bytes w = map ?place (chunk_bytes (snd ic))" if "ic \<in> set (List.enumerate 0 ?chunks)" for ic
  proof -
    have "snd ic \<in> set (map snd (List.enumerate 0 ?chunks))"
      unfolding set_map using that by (rule imageI)
    then have "snd ic \<in> set ?chunks" unfolding map_snd_enumerate .
    from chunks(2) [OF this] show ?thesis
      using plan_ds_write_chunk [OF assms(1), of "snd ic" offset data fh "fst ic"] by simp
  qed
  then obtain f where f: "\<And>ic. ic \<in> set (List.enumerate 0 ?chunks) \<Longrightarrow>
      plan_ds_write device dense handles fh offset data ic = Ok (f ic) \<and> length (pw_data (f ic)) < 2 ^ 32
      \<and> planned_bytes (f ic) = map ?place (chunk_bytes (snd ic))"
    by metis
  have "concat (map planned_bytes (map f (List.enumerate 0 ?chunks)))
      = concat (map (map ?place) (map chunk_bytes (map snd (List.enumerate 0 ?chunks))))"
    using f by (intro arg_cong [of _ _ concat]) (simp del: map_snd_enumerate cong: map_cong)
  also have "\<dots> = map ?place (concat (map chunk_bytes ?chunks))" by (simp add: map_concat)
  also have "\<dots> = map (\<lambda>i. case byte_target (unat su) dense (unat first) (unat stripes) (unat pat) (unat offset + i) of
      (k, off) \<Rightarrow> (stripe_place device dense handles fh k, off, data ! i)) [0..<length data]"
    unfolding chunks(1) target_bytes_def
    by (rule nth_equalityI) (auto split: prod.splits)
  finally show ?thesis
    using f collect_results_total [of "List.enumerate 0 ?chunks" "plan_ds_write device dense handles fh offset data" f]
    by (intro exI [of _ "map f (List.enumerate 0 ?chunks)"]) (simp add: plan_ds_writes_def list_all_iff)
qed

subsection \<open>Samples\<close>

definition sample_write :: planned_ds_write where
  "sample_write = \<lparr>pw_file_offset = 0, pw_stripe_index = 0, pw_ds_fh = [1], pw_ds_addr = SocketV4 1 2049, pw_ds_offset = 0,
     pw_data = [5, 6]\<rparr>"

definition sample_receipt :: ds_write_reply where
  "sample_receipt = \<lparr>wr_file_offset = 0, wr_written = 2, wr_committed = Unstable, wr_data = [5, 6], wr_verifier = replicate 8 1,
     wr_ds_addr = SocketV4 1 2049, wr_ds_fh = [1], wr_ds_offset = 0\<rparr>"

definition sample_pending :: pending_write where
  "sample_pending = \<lparr>pend_fh = [9], pend_offset = 0, pend_count = 2, pend_generation = 1, pend_commit_thru_mds = False,
     pend_replies = [sample_receipt], pend_done = False, pend_failed = False\<rparr>"

definition sample_state :: pnfs_state where
  "sample_state = \<lparr>ps_heap = [0 \<mapsto> sample_pending],
     ps_manager = register_write [9] 0 (fst (store_layout_at [9] 1 sample_files manager_new))\<rparr>"

definition sample_refusal :: pnfs_net where
  "sample_refusal = \<lparr>pn_protocol = NFSv4p1, pn_server_addr = SocketV4 9 2049, pn_session_id = [], pn_diagnostic = (\<lambda>_. []),
     pn_fetch = (\<lambda>_ _ m. (m, Ok (Some sample_device))), pn_preflight = (\<lambda>_ _. Ok ()),
     pn_write = (\<lambda>_ _ _ _. Err (Nfs4 70)), pn_settled = (\<lambda>s. s)\<rparr>"

lemma sample_refused: "write_ds_complete NFSv4p1 (\<lambda>_ _ _. Err (Nfs4 70)) sample_write = (1, Err (Nfs4 70))"
proof -
  have "write_ds_attempt NFSv4p1 (\<lambda>_ _ _. Err (Nfs4 70)) sample_write 0 = (1, Err (Nfs4 70))"
    unfolding write_ds_attempt_def by (subst write_ds_loop.simps) (simp add: sample_write_def after_putfh_def)
  then show ?thesis
    by (simp add: write_ds_complete_def numeral_3_eq_3 verifier_changed_def)
qed

lemma sample_refresh:
  "send_planned sample_refusal 7 sample_files False [9] 0 [sample_write] sample_state = (sample_state, RefreshRequired sample_files)"
proof -
  have "settle_ds_batch NFSv4p1 (\<lambda>_ _ _ _. Err (Nfs4 70)) [sample_write]
      = [\<lparr>wc_stripe_index = 0, wc_ds_addr = SocketV4 1 2049, wc_result = Err (Nfs4 70)\<rparr>]"
    by (simp add: settle_ds_batch_def sample_refused) (simp add: sample_write_def)
  then show ?thesis
    by (simp add: send_planned_def sample_refusal_def settle_pnfs_write_def is_ok_def ds_batch_rejected_without_write_def
        NFS4ERR_STALE_def)
qed

theorem fallback_only_if_unwritten_witness:
  "\<exists>e. rejected_before_write e \<and> write_ds_complete NFSv4p1 (\<lambda>_ _ _. Err (Nfs4 70)) sample_write = (1, Err e)"
  using fallback_only_if_unwritten [OF _ sample_refresh disjI1 [OF refl]]
  by (simp add: sample_refusal_def) (auto simp: sample_write_def)

theorem write_plan_refines_witness:
  "\<exists>writes. plan_ds_writes sample_device True [[1], [2]] [5] 63 [7, 9] (split_into_stripes 63 2 64 True 0 2 0) = Ok writes
     \<and> concat (map planned_bytes writes) = [(Some ([1], SocketV4 1 2049), 63, 7), (Some ([2], SocketV4 2 2049), 0, 9)]"
proof -
  have stripes: "file_layout_stripe_count sample_device (length [[1], [2]]) True 0 = Some 2"
    by (simp add: file_layout_stripe_count_def sample_device_def slice_get_def)
  have places: "stripe_place sample_device True [[1], [2]] [5] 0 = Some ([1], SocketV4 1 2049)"
    "stripe_place sample_device True [[1], [2]] [5] (Suc 0) = Some ([2], SocketV4 2 2049)"
    by (simp_all add: stripe_place_def sample_targets)
  show ?thesis
    using write_plan_refines [OF stripes, of 64 0 63 "[7, 9]" "[5]"] by (auto simp: places byte_target_def)
qed

end
