(* ===== verification/Pnfs_Commit.thy ===== *)
theory Pnfs_Commit
  imports Pnfs_Write "HOL-Library.List_Lexorder"
begin

text \<open>
  The commit of writes through a layout, of \<open>src/src/nfs41/pnfs_io.rs\<close>: the commit plan, its execution
  with the verifier checks, the rewriting of data a server may have lost, and LAYOUTCOMMIT and
  LAYOUTRETURN.
\<close>

subsection \<open>Order of data servers\<close>

text \<open>The derived order of \<open>SocketAddr\<close>, by which the commit plan groups its targets.\<close>

primrec socket_key :: "socket_addr \<Rightarrow> nat list" where
  "socket_key (SocketV4 ip port) = [0, unat ip, unat port]"
| "socket_key (SocketV6 ip port flow scope) = [1, unat ip, unat port, unat flow, unat scope]"

lemma socket_key_inject: "socket_key a = socket_key b \<Longrightarrow> a = b"
  by (cases a; cases b) (auto intro: word_eq_unatI)

instantiation socket_addr :: linorder
begin

definition less_eq_socket_addr :: "socket_addr \<Rightarrow> socket_addr \<Rightarrow> bool" where
  "less_eq_socket_addr a b \<longleftrightarrow> socket_key a \<le> socket_key b"

definition less_socket_addr :: "socket_addr \<Rightarrow> socket_addr \<Rightarrow> bool" where
  "less_socket_addr a b \<longleftrightarrow> socket_key a < socket_key b"

instance
proof
  show "a = b" if "a \<le> b" "b \<le> a" for a b :: socket_addr
    using that by (auto simp: less_eq_socket_addr_def intro: socket_key_inject)
qed (auto simp: less_eq_socket_addr_def less_socket_addr_def)

end

subsection \<open>The commit plan\<close>

record commit_target =
  ct_offset :: u64
  ct_count :: u32
  ct_expected :: "bytes list"

record commit_plan =
  cp_mds :: "commit_target option"
  cp_ds :: "(socket_addr \<times> bytes \<times> commit_target) list"
  cp_layout :: "(u64 \<times> u64) option"

definition wire_commit_range :: "u64 \<Rightarrow> u64 \<Rightarrow> u64 \<times> u32" where
  "wire_commit_range start finish = (if unat (finish - start) < 2 ^ 32 then (start, ucast (finish - start)) else (0, 0))"

text \<open>The \<open>BTreeMap\<close> of the plan: an association list in key order; \<open>entry(k).or_default().push(r)\<close>.\<close>

fun group_push :: "'k::linorder \<Rightarrow> 'v \<Rightarrow> ('k \<times> 'v list) list \<Rightarrow> ('k \<times> 'v list) list" where
  "group_push k r [] = [(k, [r])]"
| "group_push k r ((k', rs) # groups) =
     (if k = k' then (k', rs @ [r]) # groups
      else if k < k' then (k, [r]) # (k', rs) # groups
      else (k', rs) # group_push k r groups)"

record plan_acc =
  pa_mds_expected :: "bytes list"
  pa_mds_start :: u64
  pa_mds_end :: u64
  pa_groups :: "((socket_addr \<times> bytes) \<times> ds_write_reply list) list"
  pa_layout_needed :: bool

text \<open>\<open>write.offset + u64::from(write.count)\<close>; the sum wraps in the model.\<close>

definition pend_end :: "pending_write \<Rightarrow> u64" where
  "pend_end w = pend_offset w + ucast (pend_count w)"

definition plan_step :: "pending_write \<times> ds_write_reply list \<Rightarrow> plan_acc \<Rightarrow> plan_acc" where
  "plan_step = (\<lambda>(write, batch) acc.
     if pend_commit_thru_mds write
     then acc\<lparr>pa_mds_expected := pa_mds_expected acc @ map wr_verifier (filter (\<lambda>r. wr_committed r \<noteq> FileSync) batch),
              pa_mds_start := min (pa_mds_start acc) (pend_offset write),
              pa_mds_end := max (pa_mds_end acc) (pend_end write)\<rparr>
     else acc\<lparr>pa_layout_needed := (pa_layout_needed acc \<or> list_ex (\<lambda>r. wr_committed r \<noteq> FileSync) batch),
              pa_groups := fold (\<lambda>r. group_push (wr_ds_addr r, wr_ds_fh r) r)
                (filter (\<lambda>r. wr_committed r = Unstable) batch) (pa_groups acc)\<rparr>)"

definition ds_target :: "(socket_addr \<times> bytes) \<times> ds_write_reply list \<Rightarrow> socket_addr \<times> bytes \<times> commit_target" where
  "ds_target = (\<lambda>((addr, fh), group).
     let (offset, amount) = wire_commit_range (least (map wr_ds_offset group))
                             (greatest (map (\<lambda>r. wr_ds_offset r + ucast (wr_written r)) group))
     in (addr, fh, \<lparr>ct_offset = offset, ct_count = amount, ct_expected = map wr_verifier group\<rparr>))"

definition plan_commit_batch :: "pending_write list \<Rightarrow> ds_write_reply list list \<Rightarrow> commit_plan" where
  "plan_commit_batch pending replies =
     (let acc = fold plan_step (zip pending replies)
            \<lparr>pa_mds_expected = [], pa_mds_start = - 1, pa_mds_end = 0, pa_groups = [], pa_layout_needed = False\<rparr>
      in \<lparr>cp_mds = (if pa_mds_expected acc = [] then None
                    else let (offset, amount) = wire_commit_range (pa_mds_start acc) (pa_mds_end acc)
                         in Some \<lparr>ct_offset = offset, ct_count = amount, ct_expected = pa_mds_expected acc\<rparr>),
          cp_ds = map ds_target (pa_groups acc),
          cp_layout = (if pa_layout_needed acc
                       then Some (least (map pend_offset pending), greatest (map pend_end pending))
                       else None)\<rparr>)"

text \<open>The \<open>CommitIo\<close> trait.\<close>

record commit_io =
  io_protocol :: nfs_version
  io_mds_commit :: "bytes \<Rightarrow> u64 \<Rightarrow> u32 \<Rightarrow> bytes result"
  io_ds_commit :: "socket_addr \<Rightarrow> bytes \<Rightarrow> u64 \<Rightarrow> u64 \<Rightarrow> u32 \<Rightarrow> bytes result"
  io_layout_commit :: "bytes \<Rightarrow> u64 \<Rightarrow> u64 \<Rightarrow> u64 \<Rightarrow> unit result"

definition check_commit_verifier :: "bytes list \<Rightarrow> bytes \<Rightarrow> nfs_version \<Rightarrow> unit result" where
  "check_commit_verifier written committed protocol =
     (if list_ex (\<lambda>verifier. verifier \<noteq> committed) written then Err (write_verifier_changed protocol) else Ok ())"

fun commit_data_servers :: "commit_io \<Rightarrow> u64 \<Rightarrow> (socket_addr \<times> bytes \<times> commit_target) list \<Rightarrow> unit result" where
  "commit_data_servers io generation [] = Ok ()"
| "commit_data_servers io generation ((addr, ds_fh, target) # rest) =
     and_then (io_ds_commit io addr ds_fh generation (ct_offset target) (ct_count target)) (\<lambda>actual.
     and_then (check_commit_verifier (ct_expected target) actual (io_protocol io)) (\<lambda>_.
       commit_data_servers io generation rest))"

definition execute_commit_plan :: "commit_io \<Rightarrow> bytes \<Rightarrow> u64 \<Rightarrow> commit_plan \<Rightarrow> unit result" where
  "execute_commit_plan io fh generation plan =
     and_then (case cp_mds plan of
                 Some target \<Rightarrow>
                   and_then (io_mds_commit io fh (ct_offset target) (ct_count target)) (\<lambda>actual.
                     check_commit_verifier (ct_expected target) actual (io_protocol io))
               | None \<Rightarrow> Ok ()) (\<lambda>_.
     and_then (commit_data_servers io generation (cp_ds plan)) (\<lambda>_.
       case cp_layout plan of
         Some (start, finish) \<Rightarrow> io_layout_commit io fh generation start finish
       | None \<Rightarrow> Ok ()))"

subsection \<open>Committing retained writes\<close>

definition replan :: "ds_write_reply \<Rightarrow> planned_ds_write" where
  "replan reply =
     \<lparr>pw_file_offset = wr_file_offset reply, pw_stripe_index = 0, pw_ds_fh = wr_ds_fh reply,
      pw_ds_addr = wr_ds_addr reply, pw_ds_offset = wr_ds_offset reply, pw_data = wr_data reply\<rparr>"

definition rewrite_reply ::
  "nfs_version \<Rightarrow> (nat \<Rightarrow> u64 \<Rightarrow> bytes \<Rightarrow> compound_response result) \<Rightarrow> ds_write_reply \<Rightarrow> ds_write_reply result" where
  "rewrite_reply protocol net reply =
     (case snd (write_ds_complete protocol net (replan reply)) of
        Err e \<Rightarrow> Err (uncertain_pnfs_write
                        \<lparr>ctx_operation = ''pnfs_commit'', ctx_protocol = protocol, ctx_request_id = None\<rparr> e)
      | r \<Rightarrow> r)"

text \<open>\<open>net j i\<close> answers the rewrite of receipt \<open>i\<close> of write \<open>j\<close>.\<close>

definition rewrite_batches ::
  "nfs_version \<Rightarrow> (nat \<Rightarrow> nat \<Rightarrow> nat \<Rightarrow> u64 \<Rightarrow> bytes \<Rightarrow> compound_response result) \<Rightarrow> ds_write_reply list list
     \<Rightarrow> ds_write_reply list list result" where
  "rewrite_batches protocol net replies =
     collect_results (\<lambda>(j, batch). collect_results (\<lambda>(i, reply). rewrite_reply protocol (net j i) reply)
       (List.enumerate 0 batch)) (List.enumerate 0 replies)"

definition uncertain_after_ds_write :: "nfs_version \<Rightarrow> bytes \<Rightarrow> nfs_error \<Rightarrow> nfs_error" where
  "uncertain_after_ds_write protocol session_id source =
     uncertain_pnfs_write (aggregate_context protocol session_id) source"

text \<open>What the servers and the other tasks do during a commit: the answers to round \<open>k\<close>, the answers
  to the rewrites before the next round, and the change of the state while the requests are on the
  wire.  The answer to a COMPOUND on the metadata server may depend on the state of the mount in which it
  is sent, so on everything that was done before.\<close>

record commit_env =
  ce_protocol :: nfs_version
  ce_session_id :: bytes
  ce_io :: "nat \<Rightarrow> commit_io"
  ce_net :: "nat \<Rightarrow> nat \<Rightarrow> nat \<Rightarrow> nat \<Rightarrow> u64 \<Rightarrow> bytes \<Rightarrow> compound_response result"
  ce_during :: "pnfs_state \<Rightarrow> pnfs_state"
  ce_compound :: "pnfs_state \<Rightarrow> (builder \<Rightarrow> builder) \<Rightarrow> compound_response result"
  ce_compound_during :: "layout_manager \<Rightarrow> layout_manager"

text \<open>The \<open>for attempt in 0..3\<close> loop; the receipts are replaced by those of the rewritten data.\<close>

fun commit_rounds ::
  "nat \<Rightarrow> commit_env \<Rightarrow> u64 \<Rightarrow> bytes \<Rightarrow> pending_write list \<Rightarrow> u64 \<Rightarrow> nat \<Rightarrow> ds_write_reply list list \<Rightarrow> unit result" where
  "commit_rounds 0 env active fh pending generation attempt replies = Panic"
| "commit_rounds (Suc left) env active fh pending generation attempt replies =
     (case execute_commit_plan (ce_io env attempt) fh generation (plan_commit_batch pending replies) of
        Ok _ \<Rightarrow>
          if generation \<noteq> active
          then Err (uncertain_after_ds_write (ce_protocol env) (ce_session_id env)
                      (Rpc ''pNFS generation changed during commit''))
          else Ok ()
      | Err e \<Rightarrow>
          if attempt < 2 \<and> verifier_changed e
          then and_then (rewrite_batches (ce_protocol env) (ce_net env attempt) replies)
                 (commit_rounds left env active fh pending generation (attempt + 1))
          else Err (uncertain_after_ds_write (ce_protocol env) (ce_session_id env) e)
      | Panic \<Rightarrow> Panic)"

definition heap_done :: "(nat \<Rightarrow> pending_write option) \<Rightarrow> nat \<Rightarrow> bool" where
  "heap_done heap a = (case heap a of Some p \<Rightarrow> pend_done p | None \<Rightarrow> True)"

definition set_done :: "nat list \<Rightarrow> (nat \<Rightarrow> pending_write option) \<Rightarrow> nat \<Rightarrow> pending_write option" where
  "set_done ids heap a = (if a \<in> set ids then map_option (\<lambda>p. p\<lparr>pend_done := True\<rparr>) (heap a) else heap a)"

text \<open>\<open>PendingCommitGuard\<close>: on exit, a write of the batch that is not done has failed.\<close>

definition drop_commit_guard :: "nat list \<Rightarrow> (nat \<Rightarrow> pending_write option) \<Rightarrow> nat \<Rightarrow> pending_write option" where
  "drop_commit_guard ids heap a =
     (if a \<in> set ids
      then map_option (\<lambda>p. if pend_done p then p else p\<lparr>pend_failed := True\<rparr>) (heap a) else heap a)"

definition complete_commit :: "bytes \<Rightarrow> nat list \<Rightarrow> pnfs_state \<Rightarrow> pnfs_state" where
  "complete_commit fh ids s =
     (let heap = set_done ids (ps_heap s)
      in s\<lparr>ps_heap := heap, ps_manager := prune_completed_writes (heap_done heap) fh (ps_manager s)\<rparr>)"

definition commit_pending_writes :: "commit_env \<Rightarrow> bytes \<Rightarrow> nat list \<Rightarrow> pnfs_state \<Rightarrow> pnfs_state \<times> unit result" where
  "commit_pending_writes env fh writes s =
     (let ids = filter (\<lambda>a. \<not> heap_done (ps_heap s) a) writes;
          pending = map (\<lambda>a. the (ps_heap s a)) ids;
          fail = (\<lambda>s. s\<lparr>ps_heap := drop_commit_guard ids (ps_heap s)\<rparr>)
      in if pending = [] then (s, Ok ())
         else if list_ex (\<lambda>w. pend_fh w \<noteq> fh \<or> pend_generation w \<noteq> lm_active_generation (ps_manager s)) pending
         then (fail s, Err (uncertain_after_ds_write (ce_protocol env) (ce_session_id env)
                              (Rpc ''pNFS commit crossed layout generation'')))
         else let s' = ce_during env s
              in case commit_rounds 3 env (lm_active_generation (ps_manager s')) fh pending
                        (pend_generation (hd pending)) 0 (map pend_replies pending) of
                   Ok _ \<Rightarrow> (complete_commit fh ids s', Ok ())
                 | r \<Rightarrow> (fail s', r))"

subsection \<open>LAYOUTCOMMIT and LAYOUTRETURN\<close>

definition layoutcommit_request :: "bytes \<Rightarrow> dirty_range \<Rightarrow> layout \<Rightarrow> builder \<Rightarrow> builder" where
  "layoutcommit_request fh dirty layout b =
     b_layoutcommit (b_putfh b fh) (dty_start dirty) (dty_end dirty - dty_start dirty) False (lo_stateid layout)
       (Some (dty_end dirty - 1)) 1"

definition layoutcommit_dirty :: "commit_env \<Rightarrow> bytes \<Rightarrow> pnfs_state \<Rightarrow> pnfs_state \<times> bool result" where
  "layoutcommit_dirty env fh s =
     (case snapshot_dirty (ps_manager s) fh of
        None \<Rightarrow> (s, Ok True)
      | Some dirty \<Rightarrow>
        case get_layout (ps_manager s) fh of
          None \<Rightarrow> (s, Err (Rpc ''cannot LAYOUTCOMMIT dirty range without an active layout''))
        | Some layout \<Rightarrow>
          let s' = s\<lparr>ps_manager := ce_compound_during env (ps_manager s)\<rparr> in
          case after_putfh (ce_compound env s (layoutcommit_request fh dirty layout)) of
            Ok _ \<Rightarrow> (case acknowledge_dirty fh dirty (ps_manager s') of (m, acked) \<Rightarrow> (s'\<lparr>ps_manager := m\<rparr>, Ok acked))
          | Err e \<Rightarrow> (s', Err e)
          | Panic \<Rightarrow> (s', Panic))"

text \<open>\<open>layout_commit\<close> of the \<open>CommitIo\<close> instance.\<close>

definition mount_layout_commit ::
  "commit_env \<Rightarrow> bytes \<Rightarrow> u64 \<Rightarrow> u64 \<Rightarrow> u64 \<Rightarrow> pnfs_state \<Rightarrow> pnfs_state \<times> unit result" where
  "mount_layout_commit env fh generation start finish s =
     (case layoutcommit_dirty env fh (s\<lparr>ps_manager := fst (mark_dirty_at fh generation start finish (ps_manager s))\<rparr>) of
        (s', r) \<Rightarrow> (s', and_then r (\<lambda>_. Ok ())))"

definition flush_layoutcommit :: "commit_env \<Rightarrow> bytes \<Rightarrow> pnfs_state \<Rightarrow> pnfs_state \<times> unit result" where
  "flush_layoutcommit env fh s =
     (case commit_pending_writes env fh (pending_writes (ps_manager s) fh) s of
        (s1, Ok _) \<Rightarrow>
          (case layoutcommit_dirty env fh s1 of
             (s2, r) \<Rightarrow> (s2, and_then r (\<lambda>acked.
                if acked then Ok ()
                else Err (Rpc ''pNFS dirty range changed during LAYOUTCOMMIT; retry before CLOSE''))))
      | (s1, r) \<Rightarrow> (s1, r))"

definition layoutreturn_request :: "bytes \<Rightarrow> layout \<Rightarrow> builder \<Rightarrow> builder" where
  "layoutreturn_request fh layout b =
     b_layoutreturn (b_putfh b fh) False 1
       (case lo_segments layout of [seg] \<Rightarrow> iomode_code (seg_iomode seg) | _ \<Rightarrow> 3) 1 0 0xFFFFFFFFFFFFFFFF (lo_stateid layout)"

definition layoutreturn_file :: "commit_env \<Rightarrow> bytes \<Rightarrow> pnfs_state \<Rightarrow> pnfs_state \<times> unit result" where
  "layoutreturn_file env fh s =
     (case flush_layoutcommit env fh s of
        (s1, Ok _) \<Rightarrow>
          (case get_layout (ps_manager s1) fh of
             None \<Rightarrow> (s1, Ok ())
           | Some layout \<Rightarrow>
               let s2 = s1\<lparr>ps_manager := ce_compound_during env (ps_manager s1)\<rparr> in
               (case after_putfh (ce_compound env s1 (layoutreturn_request fh layout)) of
                  Ok _ \<Rightarrow> (s2\<lparr>ps_manager := fst (remove_layout fh (ps_manager s2))\<rparr>, Ok ())
                | Err e \<Rightarrow> (s2, Err e)
                | Panic \<Rightarrow> (s2, Panic)))
      | (s1, r) \<Rightarrow> (s1, r))"

text \<open>\<open>layoutreturn_all\<close>: every cached layout, in the order \<open>fhs\<close> of the map; the first failure is reported
  at the end.\<close>

fun layoutreturn_all :: "(bytes \<Rightarrow> commit_env) \<Rightarrow> bytes list \<Rightarrow> nfs_error option \<Rightarrow> pnfs_state \<Rightarrow> pnfs_state \<times> unit result" where
  "layoutreturn_all env [] failure s = (s, case failure of None \<Rightarrow> Ok () | Some e \<Rightarrow> Err e)"
| "layoutreturn_all env (fh # fhs) failure s =
     (case layoutreturn_file (env fh) fh s of
        (s', Ok _) \<Rightarrow> layoutreturn_all env fhs failure s'
      | (s', Err e) \<Rightarrow> layoutreturn_all env fhs (case failure of None \<Rightarrow> Some e | Some e' \<Rightarrow> Some e') s'
      | (s', Panic) \<Rightarrow> (s', Panic))"

definition refresh_rejected_layout :: "commit_env \<Rightarrow> bytes \<Rightarrow> layout \<Rightarrow> pnfs_state \<Rightarrow> pnfs_state \<times> unit result" where
  "refresh_rejected_layout env fh rejected s =
     (if lo_generation rejected \<noteq> lm_active_generation (ps_manager s)
      then (s, Err (Rpc ''pNFS layout refresh crossed a session generation''))
      else case get_layout (ps_manager s) fh of
        None \<Rightarrow> (s, Ok ())
      | Some current \<Rightarrow>
          if lo_stateid current \<noteq> lo_stateid rejected then (s, Ok ())
          else case flush_layoutcommit env fh s of
                 (s1, Ok _) \<Rightarrow>
                   (s1\<lparr>ps_manager := fold (\<lambda>seg m. case seg_content seg of
                                              FilesLayout device_id _ _ _ _ _ _ \<Rightarrow>
                                                invalidate_device device_id (lo_generation rejected) False m
                                            | Opaque _ \<Rightarrow> m)
                        (lo_segments rejected) (invalidate_layout_segments fh (ps_manager s1))\<rparr>, Ok ())
               | (s1, r) \<Rightarrow> (s1, r))"

subsection \<open>Status flags\<close>

text \<open>\<open>handle_seq_status\<close>, called with the flags of a successful SEQUENCE: the layout manager afterwards,
  whether the open state is cleared, and whether a RECLAIM_COMPLETE is sent in the background.\<close>

definition SEQ4_STATUS_STATE_REVOKED :: u32 where "SEQ4_STATUS_STATE_REVOKED = 0x08 OR 0x10 OR 0x20 OR 0x40"
definition SEQ4_STATUS_RESTART_RECLAIM_NEEDED :: u32 where "SEQ4_STATUS_RESTART_RECLAIM_NEEDED = 0x100"
definition SEQ4_STATUS_DEVID_CHANGED :: u32 where "SEQ4_STATUS_DEVID_CHANGED = 0x800"
definition SEQ4_STATUS_DEVID_DELETED :: u32 where "SEQ4_STATUS_DEVID_DELETED = 0x1000"

definition handle_seq_status :: "u32 \<Rightarrow> layout_manager \<Rightarrow> layout_manager \<times> bool \<times> bool" where
  "handle_seq_status flags m =
     (if flags = 0 then (m, False, False)
      else let revoked = (flags AND SEQ4_STATUS_STATE_REVOKED \<noteq> 0);
               m = (if flags AND (SEQ4_STATUS_DEVID_CHANGED OR SEQ4_STATUS_DEVID_DELETED) \<noteq> 0 then clear m else m);
               restarted = (flags AND SEQ4_STATUS_RESTART_RECLAIM_NEEDED \<noteq> 0)
           in (if restarted then clear m else m, revoked \<or> restarted, restarted))"

subsection \<open>A committed write is durable\<close>

























lemma collect_results_Err: "collect_results f xs = Err e \<Longrightarrow> \<exists>x \<in> set xs. f x = Err e"
  by (induction xs) (auto simp: and_then_eq_Err)








lemma commit_pending_writes_Ok:
  assumes "commit_pending_writes env fh writes s = (s', Ok ())"
  defines "ids \<equiv> filter (\<lambda>a. \<not> heap_done (ps_heap s) a) writes"
  shows "ids = [] \<and> s' = s
    \<or> s' = complete_commit fh ids (ce_during env s)
      \<and> (\<forall>a \<in> set ids. pend_generation (the (ps_heap s a)) = lm_active_generation (ps_manager s))
      \<and> commit_rounds 3 env (lm_active_generation (ps_manager (ce_during env s))) fh (map (\<lambda>a. the (ps_heap s a)) ids)
          (lm_active_generation (ps_manager s)) 0 (map pend_replies (map (\<lambda>a. the (ps_heap s a)) ids)) = Ok ()"
proof (cases "ids = []")
  case True
  with assms(1) show ?thesis by (simp add: commit_pending_writes_def ids_def)
next
  case False
  let ?pending = "map (\<lambda>a. the (ps_heap s a)) ids"
  have own: "\<not> list_ex (\<lambda>w. pend_fh w \<noteq> fh \<or> pend_generation w \<noteq> lm_active_generation (ps_manager s)) ?pending"
    using assms(1) False unfolding commit_pending_writes_def Let_def ids_def by (auto split: if_splits)
  then have generation: "\<forall>a \<in> set ids. pend_generation (the (ps_heap s a)) = lm_active_generation (ps_manager s)"
    by (auto simp: list_ex_iff)
  with False have "pend_generation (hd ?pending) = lm_active_generation (ps_manager s)" by (cases ids) auto
  with assms(1) False own generation show ?thesis
    unfolding commit_pending_writes_def Let_def ids_def [symmetric] by (auto split: outcome.splits)
qed


lemma pending_after_commit:
  "a \<in> set (pending_writes (ps_manager (complete_commit fh ids s)) fh) \<Longrightarrow> a \<notin> set ids \<and> \<not> heap_done (ps_heap s) a"
  by (auto simp: complete_commit_def Let_def pending_writes_def prune_completed_writes_def heap_done_def set_done_def
      split: option.splits if_splits)


lemma execute_rounds_uncertain:
  "commit_rounds left env active fh pending generation attempt replies = Err e \<Longrightarrow> contains_uncertain_outcome e"
proof (induction left arbitrary: attempt replies)
  case (Suc left)
  have rewrite: "contains_uncertain_outcome e'" if "rewrite_reply protocol net r = Err e'" for protocol net r e'
    using that by (auto simp: rewrite_reply_def uncertain_pnfs_write_def new_operation_outcome_def split: outcome.splits)
  have batches: "contains_uncertain_outcome e'" if "rewrite_batches protocol net rs = Err e'" for protocol net rs e'
    using that rewrite unfolding rewrite_batches_def
    by (auto dest!: collect_results_Err simp: case_prod_beta')
  show ?case
    using Suc.prems Suc.IH batches
    by (auto simp: uncertain_after_ds_write_def uncertain_pnfs_write_def new_operation_outcome_def and_then_eq_Err
        split: outcome.splits if_splits)
qed simp

text \<open>C7. When committing fails, the error says that the outcome is uncertain, and every write of the
  batch that was not done is recorded as failed and stays retained for a later commit.\<close>

theorem failed_commit_recorded:
  assumes "commit_pending_writes env fh writes s = (s', Err e)"
    and "a \<in> set writes" and "ps_heap s a = Some p" and "\<not> pend_done p"
    and "ps_heap (ce_during env s) a = Some p"
  shows "contains_uncertain_outcome e \<and> ps_heap s' a = Some (p\<lparr>pend_failed := True\<rparr>)
    \<and> ps_manager s' \<in> {ps_manager s, ps_manager (ce_during env s)}"
proof -
  define ids where "ids = filter (\<lambda>a. \<not> heap_done (ps_heap s) a) writes"
  have a: "a \<in> set ids" using assms(2-4) by (simp add: ids_def heap_done_def)
  then have "ids \<noteq> []" by auto
  then obtain t where "s' = t\<lparr>ps_heap := drop_commit_guard ids (ps_heap t)\<rparr>" "t \<in> {s, ce_during env s}"
    and "contains_uncertain_outcome e"
    using assms(1) execute_rounds_uncertain unfolding commit_pending_writes_def Let_def ids_def [symmetric]
    by (auto simp: uncertain_after_ds_write_def uncertain_pnfs_write_def new_operation_outcome_def
        split: if_splits outcome.splits)
  then show ?thesis using assms(3-5) a by (auto simp: drop_commit_guard_def)
qed

lemma layoutcommit_dirty_True:
  assumes "layoutcommit_dirty env fh s = (s', Ok True)"
  shows "snapshot_dirty (ps_manager s') fh = None" and "ps_heap s' = ps_heap s"
    and "s' = s \<or> lm_pending_writes (ps_manager s') = lm_pending_writes (ce_compound_during env (ps_manager s))"
  using assms by (auto simp: layoutcommit_dirty_def acknowledge_dirty_def snapshot_dirty_def Let_def
      split: option.splits outcome.splits if_splits)

lemma flushed_pending_done:
  assumes "commit_pending_writes env fh (pending_writes (ps_manager s) fh) s = (s', Ok ())"
    and "pending_writes (ps_manager (ce_during env s)) fh = pending_writes (ps_manager s) fh"
    and "\<And>b. heap_done (ps_heap s) b \<Longrightarrow> heap_done (ps_heap (ce_during env s)) b"
    and "b \<in> set (pending_writes (ps_manager s') fh)"
  shows "heap_done (ps_heap s') b"
proof -
  define ids where "ids = filter (\<lambda>a. \<not> heap_done (ps_heap s) a) (pending_writes (ps_manager s) fh)"
  consider "ids = [] \<and> s' = s" | "s' = complete_commit fh ids (ce_during env s)"
    using commit_pending_writes_Ok [OF assms(1)] unfolding ids_def by blast
  then show ?thesis
  proof cases
    case 1
    with assms(4) show ?thesis by (simp add: ids_def filter_empty_conv)
  next
    case 2
    with assms(4) have "b \<notin> set ids" "\<not> heap_done (ps_heap (ce_during env s)) b"
      using pending_after_commit by blast+
    moreover have "b \<in> set (pending_writes (ps_manager (ce_during env s)) fh)"
      using assms(4) 2 by (simp add: complete_commit_def Let_def pending_writes_def prune_completed_writes_def)
    ultimately show ?thesis using assms(2,3) by (auto simp: ids_def)
  qed
qed

text \<open>Everything that was written to the file is committed, and no range waits for LAYOUTCOMMIT.\<close>

definition flushed :: "bytes \<Rightarrow> pnfs_state \<Rightarrow> bool" where
  "flushed fh s \<longleftrightarrow> list_all (heap_done (ps_heap s)) (pending_writes (ps_manager s) fh)
     \<and> snapshot_dirty (ps_manager s) fh = None"

lemma flush_layoutcommit_flushed:
  assumes "flush_layoutcommit env fh s = (s', Ok ())"
    and "pending_writes (ps_manager (ce_during env s)) fh = pending_writes (ps_manager s) fh"
    and "\<And>m. pending_writes (ce_compound_during env m) fh = pending_writes m fh"
    and "\<And>b. heap_done (ps_heap s) b \<Longrightarrow> heap_done (ps_heap (ce_during env s)) b"
  shows "flushed fh s'"
proof -
  obtain s1 where c: "commit_pending_writes env fh (pending_writes (ps_manager s) fh) s = (s1, Ok ())"
    and l: "layoutcommit_dirty env fh s1 = (s', Ok True)"
    using assms(1) unfolding flush_layoutcommit_def
    by (auto split: prod.splits outcome.splits if_splits)
  have "pending_writes (ps_manager s') fh = pending_writes (ps_manager s1) fh"
    using layoutcommit_dirty_True(3) [OF l] assms(3) by (auto simp: pending_writes_def)
  with flushed_pending_done [OF c assms(2,4)] layoutcommit_dirty_True(1,2) [OF l]
  show ?thesis by (simp add: flushed_def list_all_iff)
qed

text \<open>The other server: it answers a LAYOUTRETURN as it likes.\<close>

lemma layout_requests_differ: "layoutcommit_request fh dirty layout \<noteq> layoutreturn_request fh layout'"
proof
  assume "layoutcommit_request fh dirty layout = layoutreturn_request fh layout'"
  then have "map eo_opcode (b_ops (layoutcommit_request fh dirty layout (builder_new [])))
      = map eo_opcode (b_ops (layoutreturn_request fh layout' (builder_new [])))" by simp
  then show False
    by (simp add: layoutcommit_request_def layoutreturn_request_def b_layoutcommit_def b_layoutreturn_def push_op_def)
qed

lemma commit_rounds_compound:
  "commit_rounds n (env\<lparr>ce_compound := compound\<rparr>) active fh pending generation attempt
   = commit_rounds n env active fh pending generation attempt"
proof (induction n arbitrary: attempt generation)
  case (Suc n)
  show ?case by (rule ext) (simp add: Suc.IH split: outcome.split)
qed (simp add: fun_eq_iff)

lemma flush_layoutcommit_compound:
  assumes "\<And>t dirty layout. compound t (layoutcommit_request fh dirty layout)
      = ce_compound env t (layoutcommit_request fh dirty layout)"
  shows "flush_layoutcommit (env\<lparr>ce_compound := compound\<rparr>) fh s = flush_layoutcommit env fh s"
proof -
  have commit: "commit_pending_writes (env\<lparr>ce_compound := compound\<rparr>) = commit_pending_writes env"
    by (simp add: fun_eq_iff commit_pending_writes_def commit_rounds_compound Let_def)
  have "layoutcommit_dirty (env\<lparr>ce_compound := compound\<rparr>) fh t = layoutcommit_dirty env fh t" for t
    by (simp add: layoutcommit_dirty_def assms split: option.split)
  then have dirty: "layoutcommit_dirty (env\<lparr>ce_compound := compound\<rparr>) fh = layoutcommit_dirty env fh" by (rule ext)
  show ?thesis unfolding flush_layoutcommit_def commit dirty ..
qed

lemma removed_layout:
  "snapshot_dirty (fst (remove_layout fh m)) fh = snapshot_dirty m fh"
  "pending_writes (fst (remove_layout fh m)) fh = pending_writes m fh" "get_layout (fst (remove_layout fh m)) fh = None"
  by (simp_all add: remove_layout_def pending_writes_def snapshot_dirty_def get_layout_def split: option.split)

text \<open>C6. LAYOUTRETURN comes after the flush.  While the file is held exclusively, so that no other task adds
  writes to it or settles them, a LAYOUTRETURN is sent only in a state in which every retained write of the
  file is committed and no range waits for LAYOUTCOMMIT: what the server would answer to a LAYOUTRETURN sent
  in any other state makes no difference to the call.  When the call succeeds, the file is in such a state and
  its layout is no longer cached; when it fails, the call itself has not touched the cached layout after the
  flush, so a failed LAYOUTRETURN can be repeated.\<close>

theorem layout_returned_only_clean:
  assumes "pending_writes (ps_manager (ce_during env s)) fh = pending_writes (ps_manager s) fh"
    and "\<And>m. pending_writes (ce_compound_during env m) fh = pending_writes m fh"
    and "\<And>m. snapshot_dirty m fh = None \<Longrightarrow> snapshot_dirty (ce_compound_during env m) fh = None"
    and "\<And>b. heap_done (ps_heap s) b \<Longrightarrow> heap_done (ps_heap (ce_during env s)) b"
    and "\<And>t request. flushed fh t \<or> (\<forall>layout. request \<noteq> layoutreturn_request fh layout)
           \<Longrightarrow> compound t request = ce_compound env t request"
  shows "layoutreturn_file (env\<lparr>ce_compound := compound\<rparr>) fh s = layoutreturn_file env fh s
    \<and> (case layoutreturn_file env fh s of
         (s', Ok _) \<Rightarrow> flushed fh s' \<and> get_layout (ps_manager s') fh = None
       | (s', _) \<Rightarrow> \<exists>s1. fst (flush_layoutcommit env fh s) = s1
                     \<and> (s' = s1 \<or> s' = s1\<lparr>ps_manager := ce_compound_during env (ps_manager s1)\<rparr>))"
proof -
  obtain s1 r where f: "flush_layoutcommit env fh s = (s1, r)" by fastforce
  have f': "flush_layoutcommit (env\<lparr>ce_compound := compound\<rparr>) fh s = (s1, r)"
    using flush_layoutcommit_compound [of compound fh env s] assms(5) layout_requests_differ f by simp
  have clean: "flushed fh s1" if "r = Ok ()"
    using flush_layoutcommit_flushed [OF f [unfolded that] assms(1,2,4)] .
  let ?m = "ce_compound_during env (ps_manager s1)"
  have returned: "flushed fh (s1\<lparr>ps_manager := fst (remove_layout fh ?m)\<rparr>)
      \<and> get_layout (fst (remove_layout fh ?m)) fh = None" if "r = Ok ()"
    using clean [OF that] assms(2,3) [of "ps_manager s1"] by (simp add: flushed_def removed_layout)
  show ?thesis
  proof (cases r)
    case (Ok u)
    with clean returned assms(5) show ?thesis
      by (auto simp: layoutreturn_file_def f f' Let_def split: option.splits outcome.splits)
  qed (simp_all add: layoutreturn_file_def f f')
qed

text \<open>A changed device id makes the client forget its uncommitted writes.  The status flag evicts the layout
  cache, but \<open>clear\<close> also empties the retained writes and the pending ranges, in the same generation; the flush
  before a CLOSE then has nothing to do and succeeds without sending a COMMIT or a LAYOUTCOMMIT.\<close>

lemma device_change_forgets_writes:
  fixes s :: pnfs_state
  assumes "flags AND (SEQ4_STATUS_DEVID_CHANGED OR SEQ4_STATUS_DEVID_DELETED) \<noteq> 0"
  defines "t \<equiv> s\<lparr>ps_manager := fst (handle_seq_status flags (ps_manager s))\<rparr>"
  shows "flush_layoutcommit env fh t = (t, Ok ()) \<and> ps_heap t = ps_heap s"
proof -
  have "flags \<noteq> 0" using assms(1) by auto
  then have "pending_writes (ps_manager t) fh = []" "snapshot_dirty (ps_manager t) fh = None"
    using assms(1) by (simp_all add: t_def handle_seq_status_def Let_def clear_def clear_devices_def pending_writes_def
        snapshot_dirty_def)
  moreover have "ps_heap t = ps_heap s" by (simp add: t_def)
  ultimately show ?thesis
    by (simp add: flush_layoutcommit_def commit_pending_writes_def layoutcommit_dirty_def)
qed

subsection \<open>Samples of a commit\<close>

definition sample_env :: "bytes result \<Rightarrow> commit_env" where
  "sample_env verifier = \<lparr>ce_protocol = NFSv4p1, ce_session_id = [],
     ce_io = (\<lambda>_. \<lparr>io_protocol = NFSv4p1, io_mds_commit = (\<lambda>_ _ _. verifier), io_ds_commit = (\<lambda>_ _ _ _ _. verifier),
                 io_layout_commit = (\<lambda>_ _ _ _. Ok ())\<rparr>),
     ce_net = (\<lambda>_ _ _ _ _ _. Err (Rpc [])), ce_during = (\<lambda>s. s), ce_compound = (\<lambda>_ _. Ok (op_reply [])),
     ce_compound_during = (\<lambda>m. m)\<rparr>"


lemma sample_plan:
  "plan_commit_batch [sample_pending] [[sample_receipt]] =
     \<lparr>cp_mds = None, cp_ds = [(SocketV4 1 2049, [1], \<lparr>ct_offset = 0, ct_count = 2, ct_expected = [replicate 8 1]\<rparr>)],
      cp_layout = Some (0, 2)\<rparr>"
  by (simp add: plan_commit_batch_def plan_step_def ds_target_def wire_commit_range_def sample_pending_def sample_receipt_def
      pend_end_def)

lemma sample_executed:
  "execute_commit_plan (ce_io (sample_env (Ok (replicate 8 1))) k) [9] 1 (plan_commit_batch [sample_pending] [[sample_receipt]]) = Ok ()"
  "execute_commit_plan (ce_io (sample_env (Err (Rpc []))) k) [9] 1 (plan_commit_batch [sample_pending] [[sample_receipt]]) = Err (Rpc [])"
  unfolding sample_plan by (simp_all add: execute_commit_plan_def sample_env_def check_commit_verifier_def)

lemma sample_state_fields:
  "ps_heap sample_state 0 = Some sample_pending" "lm_active_generation (ps_manager sample_state) = 1"
  "pend_done sample_pending = False" "pend_fh sample_pending = [9]" "pend_generation sample_pending = 1"
  "pend_replies sample_pending = [sample_receipt]" "ce_during (sample_env v) = (\<lambda>s. s)"
  "pending_writes (ps_manager sample_state) [9] = [0]"
  by (simp_all add: sample_state_def sample_pending_def sample_env_def register_write_def store_layout_at_def manager_new_def
      pending_writes_def)

lemma sample_committed:
  "commit_pending_writes (sample_env (Ok (replicate 8 1))) [9] [0] sample_state = (complete_commit [9] [0] sample_state, Ok ())"
  by (simp add: commit_pending_writes_def sample_state_fields heap_done_def numeral_3_eq_3 sample_executed)

lemma sample_commit_failed:
  "\<exists>s' e. commit_pending_writes (sample_env (Err (Rpc []))) [9] [0] sample_state = (s', Err e)"
  by (simp add: commit_pending_writes_def sample_state_fields heap_done_def numeral_3_eq_3 sample_executed verifier_changed_def)


theorem failed_commit_recorded_witness:
  "\<exists>s' e. commit_pending_writes (sample_env (Err (Rpc []))) [9] [0] sample_state = (s', Err e)
     \<and> contains_uncertain_outcome e \<and> ps_heap s' 0 = Some (sample_pending\<lparr>pend_failed := True\<rparr>)"
proof -
  obtain s' e where f: "commit_pending_writes (sample_env (Err (Rpc []))) [9] [0] sample_state = (s', Err e)"
    using sample_commit_failed by blast
  show ?thesis
    using failed_commit_recorded [OF f _ sample_state_fields(1)] f by (simp add: sample_state_fields)
qed

lemma sample_returned:
  "snd (layoutreturn_file (sample_env (Ok (replicate 8 1))) [9] sample_state) = Ok ()"
proof -
  have "layoutcommit_dirty (sample_env (Ok (replicate 8 1))) [9] (complete_commit [9] [0] sample_state)
      = (complete_commit [9] [0] sample_state, Ok True)"
    by (simp add: layoutcommit_dirty_def complete_commit_def Let_def sample_state_def snapshot_dirty_def prune_completed_writes_def
        register_write_def store_layout_at_def manager_new_def)
  then have "flush_layoutcommit (sample_env (Ok (replicate 8 1))) [9] sample_state = (complete_commit [9] [0] sample_state, Ok ())"
    by (simp add: flush_layoutcommit_def sample_state_fields sample_committed)
  then show ?thesis
    by (simp add: layoutreturn_file_def sample_env_def Let_def split: option.split)
qed

text \<open>A server that refuses every LAYOUTRETURN that is sent too early.\<close>

definition early_refused :: "pnfs_state \<Rightarrow> (builder \<Rightarrow> builder) \<Rightarrow> compound_response result" where
  "early_refused t request =
     (if \<not> flushed [9] t \<and> (\<exists>layout. request = layoutreturn_request [9] layout) then Err (Rpc []) else Ok (op_reply []))"

theorem layout_returned_only_clean_witness:
  "\<not> flushed [9] sample_state
   \<and> (\<exists>s'. layoutreturn_file ((sample_env (Ok (replicate 8 1)))\<lparr>ce_compound := early_refused\<rparr>) [9] sample_state = (s', Ok ())
        \<and> flushed [9] s' \<and> get_layout (ps_manager s') [9] = None)"
proof -
  let ?env = "sample_env (Ok (replicate 8 1))"
  obtain s' where r: "layoutreturn_file ?env [9] sample_state = (s', Ok ())"
    using sample_returned by (cases "layoutreturn_file ?env [9] sample_state") auto
  have "early_refused t request = ce_compound ?env t request"
    if "flushed [9] t \<or> (\<forall>layout. request \<noteq> layoutreturn_request [9] layout)" for t request
    using that by (auto simp: early_refused_def sample_env_def)
  then have "layoutreturn_file (?env\<lparr>ce_compound := early_refused\<rparr>) [9] sample_state = layoutreturn_file ?env [9] sample_state
    \<and> (case layoutreturn_file ?env [9] sample_state of
         (s', Ok _) \<Rightarrow> flushed [9] s' \<and> get_layout (ps_manager s') [9] = None
       | (s', _) \<Rightarrow> \<exists>s1. fst (flush_layoutcommit ?env [9] sample_state) = s1
                     \<and> (s' = s1 \<or> s' = s1\<lparr>ps_manager := ce_compound_during ?env (ps_manager s1)\<rparr>))"
    by (intro layout_returned_only_clean) (simp_all add: sample_env_def)
  then have "layoutreturn_file (?env\<lparr>ce_compound := early_refused\<rparr>) [9] sample_state = (s', Ok ())
      \<and> flushed [9] s' \<and> get_layout (ps_manager s') [9] = None" unfolding r by simp
  moreover have "\<not> flushed [9] sample_state" by (simp add: flushed_def sample_state_fields heap_done_def)
  ultimately show ?thesis by blast
qed

end
