(* ===== verification/Data_Server.thy ===== *)
theory Data_Server
  imports Pnfs_Commit
begin

text \<open>
  The requests to one data server of \<open>src/src/nfs41/pnfs_io.rs\<close>, with the payload limits of
  \<open>src/src/nfs41/mount.rs\<close>, and the outer loop of a pNFS read, which refreshes a rejected layout once.

  A request goes to the session of the metadata server when the data server is that server, otherwise
  to the data server's own session, which is rebuilt once when the server has forgotten it.
\<close>

subsection \<open>Payload limits\<close>

definition NFS41_WRITE_REQUEST_HEADROOM :: u32 where "NFS41_WRITE_REQUEST_HEADROOM = 4 * 1024"
definition NFS41_READ_RESPONSE_HEADROOM :: u32 where "NFS41_READ_RESPONSE_HEADROOM = 4 * 1024"

definition payload_limit :: "u32 \<Rightarrow> u32 \<Rightarrow> u32 option" where
  "payload_limit session_max headroom =
     (case checked_sub session_max headroom of
        Some limit \<Rightarrow> if 0 < limit then Some limit else None
      | None \<Rightarrow> None)"

definition effective_rsize :: "u64 \<Rightarrow> u32 \<Rightarrow> u32 result" where
  "effective_rsize server_maxread session_max_response_size =
     (case payload_limit session_max_response_size NFS41_READ_RESPONSE_HEADROOM of
        None \<Rightarrow> Err (Rpc (''NFSv4.1 session max response size '' @ show_nat (unat session_max_response_size)
                          @ '' is too small for READ overhead''))
      | Some limit \<Rightarrow> and_then (negotiated_io_size server_maxread) (\<lambda>size. Ok (min size limit)))"

definition effective_wsize :: "u64 \<Rightarrow> u32 \<Rightarrow> u32 result" where
  "effective_wsize server_maxwrite session_max_request_size =
     (case payload_limit session_max_request_size NFS41_WRITE_REQUEST_HEADROOM of
        None \<Rightarrow> Err (Rpc (''NFSv4.1 session max request size '' @ show_nat (unat session_max_request_size)
                          @ '' is too small for WRITE overhead''))
      | Some limit \<Rightarrow> and_then (negotiated_io_size server_maxwrite) (\<lambda>size. Ok (min size limit)))"

subsection \<open>Requests\<close>

definition lost_session :: "'a result \<Rightarrow> bool" where
  "lost_session r = (case r of Err (Nfs4 status) \<Rightarrow> status = 10052 \<or> status = 10078 | _ \<Rightarrow> False)"

text \<open>The servers, for the duration of one call: \<open>dn_connect k\<close> is the \<open>k\<close>-th \<open>get_data_server\<close>,
  \<open>dn_ds k\<close> the exchange on the connection it returned, \<open>dn_mds\<close> the exchange on the main session.
  Requests that carry data keep it apart from the encoded operations.\<close>

record ds_net =
  dn_server_addr :: socket_addr
  dn_connect :: "nat \<Rightarrow> layout_manager \<Rightarrow> layout_manager \<times> ds_connection result"
  dn_ds :: "nat \<Rightarrow> ds_connection \<Rightarrow> (builder \<Rightarrow> builder) \<Rightarrow> bytes \<Rightarrow> compound_response result"
  dn_mds :: "(builder \<Rightarrow> builder) \<Rightarrow> bytes \<Rightarrow> compound_response result"

definition read_request :: "bytes \<Rightarrow> bytes \<Rightarrow> u64 \<Rightarrow> u32 \<Rightarrow> builder \<Rightarrow> builder" where
  "read_request fh stateid offset amount b = b_read (b_putfh b fh) stateid offset amount"

definition write_request :: "bytes \<Rightarrow> bytes \<Rightarrow> u64 \<Rightarrow> u32 \<Rightarrow> builder \<Rightarrow> builder" where
  "write_request fh stateid offset len b = b_write_header (b_putfh b fh) stateid offset 0 len"

text \<open>The \<open>k\<close>-th attempt on the data server itself; also what remains to ask for.\<close>

definition ds_read_once ::
  "ds_net \<Rightarrow> u32 \<Rightarrow> bytes \<Rightarrow> bytes \<Rightarrow> u64 \<Rightarrow> nat \<Rightarrow> u32 \<Rightarrow> layout_manager \<Rightarrow> layout_manager \<times> (u32 \<times> compound_response result) result" where
  "ds_read_once net rsize ds_fh stateid offset k amount m =
     (case dn_connect net k m of
        (m', r) \<Rightarrow> (m', and_then r (\<lambda>ds.
          and_then (effective_rsize (ucast rsize) (ss_max_response_size (dc_session ds))) (\<lambda>limit.
            let amount = min amount limit
            in Ok (amount, dn_ds net k ds (read_request ds_fh stateid offset amount) [])))))"

definition ds_read_chunk ::
  "ds_net \<Rightarrow> u32 \<Rightarrow> socket_addr \<Rightarrow> bytes \<Rightarrow> bytes \<Rightarrow> u64 \<Rightarrow> u64 \<Rightarrow> u32 \<Rightarrow> layout_manager \<Rightarrow> layout_manager \<times> compound_response result" where
  "ds_read_chunk net rsize ds_addr ds_fh stateid generation offset amount m =
     (if ds_addr = dn_server_addr net
      then (m, dn_mds net (\<lambda>b. read_request ds_fh stateid offset amount (require_generation b generation)) [])
      else case ds_read_once net rsize ds_fh stateid offset 0 amount m of
        (m1, Ok (amount1, r)) \<Rightarrow>
          if lost_session r
          then (case ds_read_once net rsize ds_fh stateid offset 1 amount1 (remove_data_server ds_addr m1) of
                  (m2, r2) \<Rightarrow> (m2, and_then r2 snd))
          else (m1, r)
      | (m1, Err e) \<Rightarrow> (m1, Err e)
      | (m1, Panic) \<Rightarrow> (m1, Panic))"

definition ds_write_once ::
  "ds_net \<Rightarrow> u32 \<Rightarrow> bytes \<Rightarrow> bytes \<Rightarrow> u64 \<Rightarrow> nat \<Rightarrow> bytes \<Rightarrow> layout_manager \<Rightarrow> layout_manager \<times> (bytes \<times> compound_response result) result" where
  "ds_write_once net wsize ds_fh stateid ds_off k data m =
     (case dn_connect net k m of
        (m', r) \<Rightarrow> (m', and_then r (\<lambda>ds.
          and_then (effective_wsize (ucast wsize) (ss_max_request_size (dc_session ds))) (\<lambda>limit.
            let len = min (length data) (unat limit); data = take len data
            in Ok (data, dn_ds net k ds (write_request ds_fh stateid ds_off (word_of_nat len)) data)))))"

definition ds_write_chunk ::
  "ds_net \<Rightarrow> u32 \<Rightarrow> socket_addr \<Rightarrow> bytes \<Rightarrow> bytes \<Rightarrow> u64 \<Rightarrow> u64 \<Rightarrow> bytes \<Rightarrow> layout_manager \<Rightarrow> layout_manager \<times> compound_response result" where
  "ds_write_chunk net wsize ds_addr ds_fh stateid generation ds_off data m =
     (if ds_addr = dn_server_addr net
      then (m, dn_mds net (\<lambda>b. write_request ds_fh stateid ds_off (word_of_nat (length data)) (require_generation b generation)) data)
      else case ds_write_once net wsize ds_fh stateid ds_off 0 data m of
        (m1, Ok (data1, r)) \<Rightarrow>
          if lost_session r
          then (case ds_write_once net wsize ds_fh stateid ds_off 1 data1 (remove_data_server ds_addr m1) of
                  (m2, r2) \<Rightarrow> (m2, and_then r2 snd))
          else (m1, r)
      | (m1, Err e) \<Rightarrow> (m1, Err e)
      | (m1, Panic) \<Rightarrow> (m1, Panic))"

definition commit_verifier :: "(bytes, nfs_error) reader" where
  "commit_verifier = rbind (need 8 (Xdr ''DS COMMIT result too short'')) (\<lambda>_. get_bytes 8)"

definition ds_commit_chunk ::
  "ds_net \<Rightarrow> socket_addr \<Rightarrow> bytes \<Rightarrow> u64 \<Rightarrow> u64 \<Rightarrow> u32 \<Rightarrow> layout_manager \<Rightarrow> layout_manager \<times> bytes result" where
  "ds_commit_chunk net ds_addr ds_fh generation ds_off amount m =
     (let verifier = (\<lambda>reply. and_then (after_putfh reply) (\<lambda>opr. run commit_verifier (or_data opr)))
      in if ds_addr = dn_server_addr net
         then (m, verifier (dn_mds net (\<lambda>b. b_commit (b_putfh (require_generation b generation) ds_fh) ds_off amount) []))
         else case dn_connect net 0 m of
                (m1, r) \<Rightarrow> (m1, and_then r (\<lambda>ds. verifier (dn_ds net 0 ds (\<lambda>b. b_commit (b_putfh b ds_fh) ds_off amount) []))))"

text \<open>\<open>preflight_write_data_servers\<close> connects to every data server of a plan but the metadata server;
  \<open>connect\<close> is \<open>get_data_server\<close>.\<close>

fun connect_all ::
  "(socket_addr \<Rightarrow> layout_manager \<Rightarrow> layout_manager \<times> ds_connection result) \<Rightarrow> socket_addr list \<Rightarrow> layout_manager
     \<Rightarrow> layout_manager \<times> unit result" where
  "connect_all connect [] m = (m, Ok ())"
| "connect_all connect (addr # addrs) m =
     (case connect addr m of
        (m', Ok _) \<Rightarrow> connect_all connect addrs m'
      | (m', Err e) \<Rightarrow> (m', Err e)
      | (m', Panic) \<Rightarrow> (m', Panic))"

definition preflight_write_data_servers ::
  "(socket_addr \<Rightarrow> layout_manager \<Rightarrow> layout_manager \<times> ds_connection result) \<Rightarrow> socket_addr \<Rightarrow> planned_ds_write list
     \<Rightarrow> layout_manager \<Rightarrow> layout_manager \<times> unit result" where
  "preflight_write_data_servers connect server_addr writes m =
     connect_all connect (remdups (filter (\<lambda>a. a \<noteq> server_addr) (map pw_ds_addr writes))) m"

subsection \<open>The read loop\<close>

text \<open>\<open>pnfs_read\<close>: per attempt, \<open>re_fetch\<close> is \<open>get_or_fetch_layout\<close>, \<open>re_read\<close> is
  \<open>pnfs_read_layout\<close> and \<open>re_refresh\<close> is \<open>refresh_rejected_layout\<close>, all on the shared state.\<close>

record read_env =
  re_fetch :: "nat \<Rightarrow> pnfs_state \<Rightarrow> pnfs_state \<times> layout option result"
  re_read :: "nat \<Rightarrow> layout \<Rightarrow> pnfs_state \<Rightarrow> pnfs_state \<times> bytes result option"
  re_refresh :: "nat \<Rightarrow> layout \<Rightarrow> pnfs_state \<Rightarrow> pnfs_state \<times> unit result"

fun pnfs_read_from :: "nat \<Rightarrow> read_env \<Rightarrow> nat \<Rightarrow> pnfs_state \<Rightarrow> pnfs_state \<times> bytes result option" where
  "pnfs_read_from 0 env attempt s = (s, None)"
| "pnfs_read_from (Suc left) env attempt s =
     (case re_fetch env attempt s of
        (s1, Err e) \<Rightarrow> (s1, Some (Err e))
      | (s1, Panic) \<Rightarrow> (s1, Some Panic)
      | (s1, Ok None) \<Rightarrow> (s1, None)
      | (s1, Ok (Some layout)) \<Rightarrow>
          (case re_read env attempt layout s1 of
             (s2, Some (Err e)) \<Rightarrow>
               if stop_pnfs_fallback e \<or> lo_generation layout \<noteq> lm_active_generation (ps_manager s2) then (s2, Some (Err e))
               else (case re_refresh env attempt layout s2 of
                       (s3, Ok _) \<Rightarrow> if attempt = 1 then (s3, None) else pnfs_read_from left env (attempt + 1) s3
                     | (s3, Err e') \<Rightarrow> (s3, Some (Err e'))
                     | (s3, Panic) \<Rightarrow> (s3, Some Panic))
           | (s2, r) \<Rightarrow> (s2, r)))"

definition pnfs_read :: "read_env \<Rightarrow> pnfs_state \<Rightarrow> pnfs_state \<times> bytes result option" where
  "pnfs_read env s = pnfs_read_from 2 env 0 s"

subsection \<open>Requests stay within the session\<close>

lemma payload_limit_Some: "payload_limit session_max headroom = Some limit \<Longrightarrow> 0 < limit \<and> unat limit + unat headroom = unat session_max"
  by (auto simp: payload_limit_def checked_sub_def unat_sub_le word_le_nat_alt not_less split: if_splits option.splits)

lemma effective_wsize_Ok:
  assumes "effective_wsize n session_max = Ok limit"
  shows "unat limit + 4096 \<le> unat session_max" and "0 < limit"
proof -
  obtain l size where l: "payload_limit session_max NFS41_WRITE_REQUEST_HEADROOM = Some l"
    and size: "negotiated_io_size n = Ok size" "limit = min size l"
    using assms by (auto simp: effective_wsize_def split: option.splits)
  have "0 < size" using size(1) by (auto simp: negotiated_io_size_def Let_def word_gt_0 split: if_splits)
  then show "unat limit + 4096 \<le> unat session_max" "0 < limit"
    using payload_limit_Some [OF l] size(2)
    by (auto simp: NFS41_WRITE_REQUEST_HEADROOM_def min_def word_le_nat_alt)
qed

text \<open>No WRITE to a data server carries more data than its session's request limit less the 4096
  bytes kept for the header: what the servers would do with a larger request does not influence the
  result of \<open>ds_write_chunk\<close>.\<close>

theorem ds_write_within_session:
  assumes "\<And>k ds req data. length data + 4096 \<le> unat (ss_max_request_size (dc_session ds)) \<Longrightarrow> f k ds req data = dn_ds net k ds req data"
  shows "ds_write_chunk (net\<lparr>dn_ds := f\<rparr>) wsize ds_addr ds_fh stateid generation ds_off data m
    = ds_write_chunk net wsize ds_addr ds_fh stateid generation ds_off data m"
proof -
  have "ds_write_once (net\<lparr>dn_ds := f\<rparr>) wsize ds_fh stateid ds_off k data m
      = ds_write_once net wsize ds_fh stateid ds_off k data m" for k data m
    unfolding ds_write_once_def
    by (auto intro!: and_then_cong assms simp: Let_def dest!: effective_wsize_Ok(1) split: prod.splits)
  then have same: "ds_write_once (net\<lparr>dn_ds := f\<rparr>) wsize ds_fh stateid ds_off = ds_write_once net wsize ds_fh stateid ds_off"
    by (intro ext)
  show ?thesis unfolding ds_write_chunk_def same by simp
qed

subsection \<open>Acknowledgements beyond the request\<close>

definition sample_connection :: "u32 \<Rightarrow> ds_connection" where
  "sample_connection max_request = \<lparr>dc_session = \<lparr>ss_minor_version = V1, ss_generation = 1, ss_session_id = [], ss_client_id = 0,
     ss_slot_table = slot_table_new 1, ss_max_request_size = max_request, ss_max_response_size = 0,
     ss_max_cached_response_size = 0, ss_max_operations = 0, ss_backchannel_max_requests = 0,
     ss_backchannel_max_request_size = 0, ss_backchannel_max_operations = 0, ss_pnfs_mds = False\<rparr>, dc_owner_generation = 1\<rparr>"

text \<open>A data server that acknowledges eight bytes for a request of four.\<close>

definition sample_overack :: ds_net where
  "sample_overack = \<lparr>dn_server_addr = SocketV4 9 2049, dn_connect = (\<lambda>_ m. (m, Ok (sample_connection 4100))),
     dn_ds = (\<lambda>_ _ _ data. if data = [1, 2, 3, 4] then Ok (op_reply (u32_to_be 8 @ u32_to_be 2 @ replicate 8 0)) else Err (Rpc [])),
     dn_mds = (\<lambda>_ _. Err (Rpc []))\<rparr>"

lemma sample_limit: "effective_wsize 1048576 4100 = Ok 4"
  by (simp add: effective_wsize_def payload_limit_def checked_sub_def NFS41_WRITE_REQUEST_HEADROOM_def negotiated_io_size_def
      MAX_IO_SIZE_def)

lemma sample_overack_chunk:
  "ds_write_chunk sample_overack 1048576 (SocketV4 1 2049) [1] [] 1 off [1, 2, 3, 4, 5, 6, 7, 8] m
     = (m, Ok (op_reply (u32_to_be 8 @ u32_to_be 2 @ replicate 8 0)))"
  by (simp add: ds_write_chunk_def ds_write_once_def Let_def sample_overack_def sample_connection_def sample_limit lost_session_def)

lemma write_ack_enc:
  assumes "n \<noteq> 0" "unat n \<le> remaining" "committed \<le> 2" "length verifier = 8"
  shows "write_ack remaining (u32_to_be n @ u32_to_be committed @ verifier @ rest) = Ok ((unat n, committed, verifier), rest)"
  using assms leD [OF assms(3)] by (simp add: write_ack_def rbind_def need_def get_u32_append get_bytes_def rreturn_def)

text \<open>C8. An acknowledgement is compared with the data that remain and not with the data that were sent.
  When a stripe is longer than the request limit of the data server's session, only its first \<open>limit\<close> bytes are
  sent; a data server that acknowledges more of them than that, up to the whole stripe, is believed:
  the next request starts behind the acknowledged bytes, so those in between are never sent, and when the
  whole stripe is acknowledged it is reported as written, at the stability the server claims, after
  that one request.\<close>

theorem unsent_bytes_acknowledged:
  fixes w :: planned_ds_write and cnt committed limit :: u32 and generation :: u64
  assumes "pw_ds_addr w \<noteq> dn_server_addr (net 0)" and "dn_connect (net 0) 0 (m 0) = (m', Ok ds)"
    and "effective_wsize (ucast wsize) (ss_max_request_size (dc_session ds)) = Ok limit"
    and "limit < cnt" "unat cnt \<le> length (pw_data w)"
    and "dn_ds (net 0) 0 ds (write_request (pw_ds_fh w) stateid (pw_ds_offset w) limit) (take (unat limit) (pw_data w)) = Ok resp"
    and "after_putfh (Ok resp) = Ok opr"
    and "or_data opr = u32_to_be cnt @ u32_to_be committed @ verifier @ rest"
    and "committed \<le> 2" "length verifier = 8"
  defines "write \<equiv> (\<lambda>k off data.
      snd (ds_write_chunk (net k) wsize (pw_ds_addr w) (pw_ds_fh w) stateid generation off data (m k)))"
  shows "write_ds_attempt protocol write w 0 = write_ds_loop protocol write w 1 (unat cnt) committed (Some verifier)
    \<and> (unat cnt = length (pw_data w) \<longrightarrow>
         write_ds_attempt protocol write w 0 = (1, and_then (write_committed_try_from committed) (\<lambda>level.
           Ok \<lparr>wr_file_offset = pw_file_offset w, wr_written = cnt, wr_committed = level, wr_data = pw_data w,
               wr_verifier = verifier, wr_ds_addr = pw_ds_addr w, wr_ds_fh = pw_ds_fh w, wr_ds_offset = pw_ds_offset w\<rparr>)))"
proof -
  have "min (length (pw_data w)) (unat limit) = unat limit"
    using assms(4,5) by (simp add: word_less_nat_alt)
  then have "write 0 (pw_ds_offset w) (pw_data w) = Ok resp"
    using assms(1-3,6) by (simp add: write_def ds_write_chunk_def ds_write_once_def Let_def lost_session_def)
  moreover have ack: "write_ack (length (pw_data w)) (or_data opr) = Ok ((unat cnt, committed, verifier), rest)"
    unfolding assms(8) using assms(4,5,9,10) by (intro write_ack_enc) auto
  moreover have "0 < length (pw_data w)" using assms(4,5) by (auto simp: word_less_nat_alt)
  moreover have "min 2 committed = committed" using assms(9) by (rule min_absorb2)
  ultimately have loop: "write_ds_attempt protocol write w 0 = write_ds_loop protocol write w 1 (unat cnt) committed (Some verifier)"
    unfolding write_ds_attempt_def using assms(7) by (subst write_ds_loop.simps) simp
  moreover have "write_ds_loop protocol write w 1 (unat cnt) committed (Some verifier)
      = (1, and_then (write_committed_try_from committed) (\<lambda>level.
           Ok \<lparr>wr_file_offset = pw_file_offset w, wr_written = cnt, wr_committed = level, wr_data = pw_data w,
               wr_verifier = verifier, wr_ds_addr = pw_ds_addr w, wr_ds_fh = pw_ds_fh w, wr_ds_offset = pw_ds_offset w\<rparr>))"
    if "unat cnt = length (pw_data w)"
    using that [symmetric] by (subst write_ds_loop.simps) simp
  ultimately show ?thesis by simp
qed

theorem unsent_bytes_acknowledged_witness:
  "write_ds_attempt NFSv4p1
     (\<lambda>_ off data. snd (ds_write_chunk sample_overack 1048576 (SocketV4 1 2049) [1] [] 1 off data manager_new))
     (sample_write\<lparr>pw_data := [1, 2, 3, 4, 5, 6, 7, 8]\<rparr>) 0
   = (1, Ok \<lparr>wr_file_offset = 0, wr_written = 8, wr_committed = FileSync, wr_data = [1, 2, 3, 4, 5, 6, 7, 8],
            wr_verifier = replicate 8 0, wr_ds_addr = SocketV4 1 2049, wr_ds_fh = [1], wr_ds_offset = 0\<rparr>)"
proof -
  let ?w = "sample_write\<lparr>pw_data := [1, 2, 3, 4, 5, 6, 7, 8]\<rparr>"
  let ?reply = "op_reply (u32_to_be 8 @ u32_to_be 2 @ replicate 8 0)"
  have "write_ds_attempt NFSv4p1
      (\<lambda>_ off data. snd (ds_write_chunk sample_overack 1048576 (pw_ds_addr ?w) (pw_ds_fh ?w) [] 1 off data manager_new)) ?w 0
    = (1, and_then (write_committed_try_from 2) (\<lambda>level.
        Ok \<lparr>wr_file_offset = pw_file_offset ?w, wr_written = 8, wr_committed = level, wr_data = pw_data ?w,
            wr_verifier = replicate 8 0, wr_ds_addr = pw_ds_addr ?w, wr_ds_fh = pw_ds_fh ?w, wr_ds_offset = pw_ds_offset ?w\<rparr>))"
    by (rule unsent_bytes_acknowledged [where net = "\<lambda>_. sample_overack" and m = "\<lambda>_. manager_new" and m' = manager_new
          and ds = "sample_connection 4100" and limit = 4 and resp = ?reply and rest = "[]"
          and opr = "\<lparr>or_opcode = 0, or_status = 0, or_data = u32_to_be 8 @ u32_to_be 2 @ replicate 8 0\<rparr>",
          THEN conjunct2, THEN mp])
      (simp_all add: sample_write_def sample_overack_def sample_connection_def sample_limit)
  then show ?thesis by (simp add: sample_write_def write_committed_try_from_def)
qed

theorem ds_write_within_session_witness:
  "snd (ds_write_chunk (sample_overack\<lparr>dn_ds := (\<lambda>k ds req data.
       if length data + 4096 \<le> unat (ss_max_request_size (dc_session ds)) then dn_ds sample_overack k ds req data else Panic)\<rparr>)
     1048576 (SocketV4 1 2049) [1] [] 1 0 [1, 2, 3, 4, 5, 6, 7, 8] manager_new)
   = Ok (op_reply (u32_to_be 8 @ u32_to_be 2 @ replicate 8 0))"
  by (subst ds_write_within_session) (simp_all add: sample_overack_chunk)

end
