(* ===== verification/Compound40.thy ===== *)
theory Compound40
  imports Compound41 Rpc_Wire Mount_Common Attrs
begin

text \<open>
  COMPOUND requests and replies of NFSv4.0 (\<open>src/src/nfs40/compound.rs\<close>): the request builder, the
  decoders of the replies it expects, and \<open>retryable_busy_response\<close>, which decides from a reply and
  the request it answers whether the request may be sent again.

  The generated decoder of a status word is the parameter \<open>stat_error\<close> (see \<open>Xdr\<close>).  Stateids,
  verifiers and owners are byte strings; a fixed-size array of the source is a list whose length the
  reader fixes.
\<close>

subsection \<open>Arguments\<close>

definition OP_ACCESS :: u32 where "OP_ACCESS = 3"
definition OP_CLOSE :: u32 where "OP_CLOSE = 4"
definition OP_COMMIT :: u32 where "OP_COMMIT = 5"
definition OP_CREATE :: u32 where "OP_CREATE = 6"
definition OP_DELEGRETURN :: u32 where "OP_DELEGRETURN = 8"
definition OP_GETATTR :: u32 where "OP_GETATTR = 9"
definition OP_LINK :: u32 where "OP_LINK = 11"
definition OP_LOCK :: u32 where "OP_LOCK = 12"
definition OP_LOCKT :: u32 where "OP_LOCKT = 13"
definition OP_LOCKU :: u32 where "OP_LOCKU = 14"
definition OP_OPEN :: u32 where "OP_OPEN = 18"
definition OP_OPEN_CONFIRM :: u32 where "OP_OPEN_CONFIRM = 20"
definition OP_READ :: u32 where "OP_READ = 25"
definition OP_READDIR :: u32 where "OP_READDIR = 26"
definition OP_READLINK :: u32 where "OP_READLINK = 27"
definition OP_REMOVE :: u32 where "OP_REMOVE = 28"
definition OP_RENAME :: u32 where "OP_RENAME = 29"
definition OP_RENEW :: u32 where "OP_RENEW = 30"
definition OP_SAVEFH :: u32 where "OP_SAVEFH = 32"
definition OP_SETATTR :: u32 where "OP_SETATTR = 34"
definition OP_SETCLIENTID :: u32 where "OP_SETCLIENTID = 35"
definition OP_SETCLIENTID_CONFIRM :: u32 where "OP_SETCLIENTID_CONFIRM = 36"
definition OP_WRITE :: u32 where "OP_WRITE = 38"
definition OP_RELEASE_LOCKOWNER :: u32 where "OP_RELEASE_LOCKOWNER = 39"
definition NFS4ERR_DENIED :: u32 where "NFS4ERR_DENIED = 10010"
definition MAX_LOCK_OWNER_LEN :: nat where "MAX_LOCK_OWNER_LEN = 1024"
definition OPEN4_RESULT_CONFIRM :: u32 where "OPEN4_RESULT_CONFIRM = 2"

lemmas opcode_defs = OP_ACCESS_def OP_CLOSE_def OP_COMMIT_def OP_CREATE_def OP_DELEGRETURN_def
  OP_GETATTR_def OP_LINK_def OP_LOCK_def OP_LOCKT_def OP_LOCKU_def OP_OPEN_def OP_OPEN_CONFIRM_def
  OP_READ_def OP_READDIR_def OP_READLINK_def OP_REMOVE_def OP_RENAME_def OP_RENEW_def OP_SAVEFH_def
  OP_SETATTR_def OP_SETCLIENTID_def OP_SETCLIENTID_CONFIRM_def OP_WRITE_def OP_RELEASE_LOCKOWNER_def
  OP_GETFH_def OP_LOOKUP_def OP_PUTFH_def OP_PUTROOTFH_def

datatype delegation_kind = Deleg_Read | Deleg_Write

record delegation_grant =
  dg_kind :: delegation_kind
  dg_stateid :: bytes
  dg_recall :: bool

record open_result =
  or_stateid :: bytes
  or_confirm_required :: bool
  or_delegation :: "delegation_grant option"

record open40_args =
  o4_seqid :: u32
  o4_share_access :: u32
  o4_client_id :: u64
  o4_owner :: bytes
  o4_filename :: bytes
  o4_create :: bool

record new_lock_args =
  nl_lock_type :: u32
  nl_reclaim :: bool
  nl_offset :: u64
  nl_length :: u64
  nl_open_seqid :: u32
  nl_open_stateid :: bytes
  nl_lock_seqid :: u32
  nl_client_id :: u64
  nl_owner :: bytes

record open_reclaim_args =
  ra_seqid :: u32
  ra_share_access :: u32
  ra_client_id :: u64
  ra_owner :: bytes

record callback_address =
  cba_program :: u32
  cba_netid :: bytes
  cba_addr :: bytes
  cba_ident :: u32

record setclientid_args =
  sc_verifier :: bytes
  sc_owner :: bytes
  sc_callback :: callback_address

definition callback_disabled :: callback_address where
  "callback_disabled = \<lparr>cba_program = 0, cba_netid = [], cba_addr = [], cba_ident = 0\<rparr>"

definition CB_PROGRAM40 :: u32 where "CB_PROGRAM40 = 0x40000000"

definition callback_tcp :: "bytes \<Rightarrow> u32 \<Rightarrow> callback_address" where
  "callback_tcp addr ident =
     \<lparr>cba_program = CB_PROGRAM40, cba_netid = str_bytes ''tcp'', cba_addr = addr, cba_ident = ident\<rparr>"

subsection \<open>The builder\<close>

definition v0_new :: "bytes \<Rightarrow> compound_builder" where
  "v0_new tag = compound_new tag 0"

definition v0_setclientid :: "compound_builder \<Rightarrow> setclientid_args \<Rightarrow> compound_builder" where
  "v0_setclientid b identity =
     (let args = sc_verifier identity;
          args = xdr_opaque args (sc_owner identity);
          args = xdr_u32 args (cba_program (sc_callback identity));
          args = xdr_opaque args (cba_netid (sc_callback identity));
          args = xdr_opaque args (cba_addr (sc_callback identity));
          args = xdr_u32 args (cba_ident (sc_callback identity))
      in cb_operation b OP_SETCLIENTID args)"

definition v0_setclientid_confirm :: "compound_builder \<Rightarrow> u64 \<Rightarrow> bytes \<Rightarrow> compound_builder" where
  "v0_setclientid_confirm b client_id verifier =
     cb_operation b OP_SETCLIENTID_CONFIRM (u64_to_be client_id @ verifier)"

definition v0_delegreturn :: "compound_builder \<Rightarrow> bytes \<Rightarrow> compound_builder" where
  "v0_delegreturn b stateid = cb_operation b OP_DELEGRETURN stateid"

definition v0_putrootfh :: "compound_builder \<Rightarrow> compound_builder" where
  "v0_putrootfh b = cb_putrootfh b"

definition v0_putfh :: "compound_builder \<Rightarrow> bytes \<Rightarrow> compound_builder" where
  "v0_putfh b fh = cb_putfh b fh"

text \<open>The bitmap loops: a word count, then the words.\<close>

definition xdr_bitmap :: "bytes \<Rightarrow> u32 list \<Rightarrow> bytes" where
  "xdr_bitmap buf words = foldl xdr_u32 (xdr_u32 buf (word_of_nat (length words))) words"

definition open_with_create_attributes ::
  "compound_builder \<Rightarrow> open40_args \<Rightarrow> bool \<Rightarrow> u32 option \<Rightarrow> compound_builder" where
  "open_with_create_attributes b op guarded mode =
     (let args = xdr_u32 [] (o4_seqid op);
          args = xdr_u32 args (o4_share_access op);
          args = xdr_u32 args 0;
          args = args @ u64_to_be (o4_client_id op);
          args = xdr_opaque args (o4_owner op);
          args = (if o4_create op
                  then let args = xdr_u32 args 1;
                           args = xdr_u32 args (if guarded then 1 else 0);
                           (bitmap, values) = encode_setattr mode None None None None None;
                           args = xdr_bitmap args bitmap
                       in xdr_opaque args values
                  else xdr_u32 args 0);
          args = xdr_u32 args 0;
          args = xdr_opaque args (o4_filename op)
      in cb_operation b OP_OPEN args)"

definition v0_open :: "compound_builder \<Rightarrow> open40_args \<Rightarrow> compound_builder" where
  "v0_open b op = open_with_create_attributes b op False None"

definition v0_open_guarded :: "compound_builder \<Rightarrow> open40_args \<Rightarrow> u32 option \<Rightarrow> compound_builder" where
  "v0_open_guarded b op mode = open_with_create_attributes b op True mode"

definition v0_open_reclaim :: "compound_builder \<Rightarrow> open_reclaim_args \<Rightarrow> compound_builder" where
  "v0_open_reclaim b op =
     (let args = xdr_u32 [] (ra_seqid op);
          args = xdr_u32 args (ra_share_access op);
          args = xdr_u32 args 0;
          args = args @ u64_to_be (ra_client_id op);
          args = xdr_opaque args (ra_owner op);
          args = xdr_u32 args 0;
          args = xdr_u32 args 1;
          args = xdr_u32 args 0
      in cb_operation b OP_OPEN args)"

definition v0_open_confirm :: "compound_builder \<Rightarrow> bytes \<Rightarrow> u32 \<Rightarrow> compound_builder" where
  "v0_open_confirm b stateid seqid = cb_operation b OP_OPEN_CONFIRM (xdr_u32 stateid seqid)"

definition v0_read :: "compound_builder \<Rightarrow> bytes \<Rightarrow> u64 \<Rightarrow> u32 \<Rightarrow> compound_builder" where
  "v0_read b stateid offset cnt =
     cb_operation b OP_READ (xdr_u32 (stateid @ u64_to_be offset) cnt)"

definition v0_lock_new :: "compound_builder \<Rightarrow> new_lock_args \<Rightarrow> compound_builder" where
  "v0_lock_new b lock =
     (let args = xdr_u32 [] (nl_lock_type lock);
          args = xdr_u32 args (if nl_reclaim lock then 1 else 0);
          args = args @ u64_to_be (nl_offset lock);
          args = args @ u64_to_be (nl_length lock);
          args = xdr_u32 args 1;
          args = xdr_u32 args (nl_open_seqid lock);
          args = args @ nl_open_stateid lock;
          args = xdr_u32 args (nl_lock_seqid lock);
          args = args @ u64_to_be (nl_client_id lock);
          args = xdr_opaque args (nl_owner lock)
      in cb_operation b OP_LOCK args)"

definition v0_lockt ::
  "compound_builder \<Rightarrow> u32 \<Rightarrow> u64 \<Rightarrow> u64 \<Rightarrow> u64 \<Rightarrow> bytes \<Rightarrow> compound_builder" where
  "v0_lockt b lock_type offset len client_id owner =
     cb_operation b OP_LOCKT
       (xdr_opaque (xdr_u32 [] lock_type @ u64_to_be offset @ u64_to_be len @ u64_to_be client_id) owner)"

definition v0_locku ::
  "compound_builder \<Rightarrow> u32 \<Rightarrow> u32 \<Rightarrow> bytes \<Rightarrow> u64 \<Rightarrow> u64 \<Rightarrow> compound_builder" where
  "v0_locku b lock_type seqid stateid offset len =
     cb_operation b OP_LOCKU
       (xdr_u32 (xdr_u32 [] lock_type) seqid @ stateid @ u64_to_be offset @ u64_to_be len)"

definition v0_release_lockowner :: "compound_builder \<Rightarrow> u64 \<Rightarrow> bytes \<Rightarrow> compound_builder" where
  "v0_release_lockowner b client_id owner =
     cb_operation b OP_RELEASE_LOCKOWNER (xdr_opaque (u64_to_be client_id) owner)"

definition v0_renew :: "compound_builder \<Rightarrow> u64 \<Rightarrow> compound_builder" where
  "v0_renew b client_id = cb_operation b OP_RENEW (u64_to_be client_id)"

definition v0_write_header :: "compound_builder \<Rightarrow> bytes \<Rightarrow> u64 \<Rightarrow> u32 \<Rightarrow> u32 \<Rightarrow> compound_builder" where
  "v0_write_header b stateid offset stable_how data_len =
     cb_operation b OP_WRITE (xdr_u32 (xdr_u32 (stateid @ u64_to_be offset) stable_how) data_len)"

definition v0_commit :: "compound_builder \<Rightarrow> u64 \<Rightarrow> u32 \<Rightarrow> compound_builder" where
  "v0_commit b offset cnt = cb_operation b OP_COMMIT (xdr_u32 (u64_to_be offset) cnt)"

definition v0_close :: "compound_builder \<Rightarrow> u32 \<Rightarrow> bytes \<Rightarrow> compound_builder" where
  "v0_close b seqid stateid = cb_operation b OP_CLOSE (xdr_u32 [] seqid @ stateid)"

definition v0_lookup :: "compound_builder \<Rightarrow> bytes \<Rightarrow> compound_builder" where
  "v0_lookup b name = cb_lookup b name"

definition v0_getfh :: "compound_builder \<Rightarrow> compound_builder" where
  "v0_getfh b = cb_getfh b"

definition v0_getattr :: "compound_builder \<Rightarrow> u32 list \<Rightarrow> compound_builder" where
  "v0_getattr b bitmap = cb_operation b OP_GETATTR (xdr_bitmap [] bitmap)"

definition v0_access :: "compound_builder \<Rightarrow> u32 \<Rightarrow> compound_builder" where
  "v0_access b requested = cb_operation b OP_ACCESS (xdr_u32 [] requested)"

definition v0_setattr :: "compound_builder \<Rightarrow> bytes \<Rightarrow> u32 list \<Rightarrow> bytes \<Rightarrow> compound_builder" where
  "v0_setattr b stateid bitmap values =
     cb_operation b OP_SETATTR (xdr_opaque (xdr_bitmap stateid bitmap) values)"

definition v0_create_directory :: "compound_builder \<Rightarrow> bytes \<Rightarrow> compound_builder" where
  "v0_create_directory b name =
     cb_operation b OP_CREATE (xdr_opaque (xdr_u32 (xdr_opaque (xdr_u32 [] 2) name) 0) [])"

definition v0_create_symlink :: "compound_builder \<Rightarrow> bytes \<Rightarrow> bytes \<Rightarrow> compound_builder" where
  "v0_create_symlink b name target =
     cb_operation b OP_CREATE
       (xdr_opaque (xdr_u32 (xdr_opaque (xdr_opaque (xdr_u32 [] 5) target) name) 0) [])"

definition v0_savefh :: "compound_builder \<Rightarrow> compound_builder" where
  "v0_savefh b = cb_operation b OP_SAVEFH []"

definition v0_rename :: "compound_builder \<Rightarrow> bytes \<Rightarrow> bytes \<Rightarrow> compound_builder" where
  "v0_rename b old_name new_name = cb_operation b OP_RENAME (xdr_opaque (xdr_opaque [] old_name) new_name)"

definition v0_link :: "compound_builder \<Rightarrow> bytes \<Rightarrow> compound_builder" where
  "v0_link b name = cb_operation b OP_LINK (xdr_opaque [] name)"

definition v0_readlink :: "compound_builder \<Rightarrow> compound_builder" where
  "v0_readlink b = cb_operation b OP_READLINK []"

definition v0_readdir ::
  "compound_builder \<Rightarrow> u64 \<Rightarrow> bytes \<Rightarrow> u32 \<Rightarrow> u32 \<Rightarrow> u32 list \<Rightarrow> compound_builder" where
  "v0_readdir b cookie verifier dircount maxcount bitmap =
     cb_operation b OP_READDIR
       (xdr_bitmap (xdr_u32 (xdr_u32 (u64_to_be cookie @ verifier) dircount) maxcount) bitmap)"

definition v0_remove :: "compound_builder \<Rightarrow> bytes \<Rightarrow> compound_builder" where
  "v0_remove b name = cb_operation b OP_REMOVE (xdr_opaque [] name)"

definition v0_encode_with_header :: "compound_builder \<Rightarrow> auth \<Rightarrow> bytes" where
  "v0_encode_with_header b auth = header_encode (rpc_header 100003 4 1 auth) @ encode_body b"

subsection \<open>Replies\<close>

definition expect_op :: "(u32 \<Rightarrow> string option) \<Rightarrow> u32 \<Rightarrow> string \<Rightarrow> (unit, nfs_error) reader" where
  "expect_op stat_error expected name =
     rbind (take_u32 (name @ '' opcode'')) (\<lambda>actual.
       if actual \<noteq> expected
       then rfail (Xdr (name @ '' opcode '' @ show_nat (unat actual) @ '' does not match ''
              @ show_nat (unat expected)))
       else rbind (take_u32 (name @ '' status'')) (\<lambda>status. lift (check_status stat_error status)))"

text \<open>The opening of most decoders: a successful COMPOUND with the expected number of results.\<close>

definition expect_count ::
  "(u32 \<Rightarrow> string option) \<Rightarrow> string \<Rightarrow> u32 \<Rightarrow> ('a, nfs_error) reader \<Rightarrow> ('a, nfs_error) reader" where
  "expect_count stat_error name expected rest =
     rbind (response_ops stat_error) (\<lambda>cnt.
       if cnt \<noteq> expected
       then rfail (Xdr (name @ '' response has '' @ show_nat (unat cnt) @ '' operations, expected ''
              @ show_nat (unat expected)))
       else rest)"

primrec expect_ops ::
  "(u32 \<Rightarrow> string option) \<Rightarrow> (u32 \<times> string) list \<Rightarrow> ('a, nfs_error) reader \<Rightarrow> ('a, nfs_error) reader" where
  "expect_ops stat_error [] rest = rest"
| "expect_ops stat_error (op # ops) rest =
     rbind (expect_op stat_error (fst op) (snd op)) (\<lambda>_. expect_ops stat_error ops rest)"

definition decode_setclientid_response ::
  "(u32 \<Rightarrow> string option) \<Rightarrow> (u64 \<times> bytes, nfs_error) reader" where
  "decode_setclientid_response stat_error =
     rbind (response_ops stat_error) (\<lambda>cnt.
       if cnt \<noteq> 1 then rfail (Xdr ''SETCLIENTID response operation mismatch'')
       else rbind (take_u32 ''SETCLIENTID opcode'') (\<lambda>opcode.
         if opcode \<noteq> OP_SETCLIENTID then rfail (Xdr ''SETCLIENTID response operation mismatch'')
         else rbind (take_u32 ''SETCLIENTID status'') (\<lambda>status.
           rbind (lift (check_status stat_error status)) (\<lambda>_.
           rbind (need 16 (Xdr ''SETCLIENTID result truncated'')) (\<lambda>_.
           rbind get_u64 (\<lambda>client_id.
           rbind (get_bytes 8) (\<lambda>verifier. rreturn (client_id, verifier))))))))"

definition decode_confirm_response :: "(u32 \<Rightarrow> string option) \<Rightarrow> (unit, nfs_error) reader" where
  "decode_confirm_response stat_error =
     rbind (response_ops stat_error) (\<lambda>cnt.
       if cnt \<noteq> 1 then rfail (Xdr ''SETCLIENTID_CONFIRM response operation mismatch'')
       else rbind (take_u32 ''SETCLIENTID_CONFIRM opcode'') (\<lambda>opcode.
         if opcode \<noteq> OP_SETCLIENTID_CONFIRM
         then rfail (Xdr ''SETCLIENTID_CONFIRM response operation mismatch'')
         else rbind (take_u32 ''SETCLIENTID_CONFIRM status'') (\<lambda>status.
           lift (check_status stat_error status))))"

definition decode_delegreturn_response :: "(u32 \<Rightarrow> string option) \<Rightarrow> (unit, nfs_error) reader" where
  "decode_delegreturn_response stat_error =
     expect_count stat_error ''DELEGRETURN'' 2
       (expect_ops stat_error [(OP_PUTFH, ''PUTFH'')]
         (expect_op stat_error OP_DELEGRETURN ''DELEGRETURN''))"

definition take_stateid :: "string \<Rightarrow> (bytes, nfs_error) reader" where
  "take_stateid what =
     rbind (need 16 (Xdr (what @ '' stateid truncated''))) (\<lambda>_. get_bytes 16)"

text \<open>\<open>checked_mul(4)\<close> on a \<open>u32\<close> word count never overflows the 64-bit \<open>usize\<close>.\<close>

definition skip_bitmap40 :: "string \<Rightarrow> (unit, nfs_error) reader" where
  "skip_bitmap40 what =
     rbind (take_u32 (what @ '' bitmap length'')) (\<lambda>words.
     rbind (need (unat words * 4) (Xdr (what @ '' bitmap truncated''))) (\<lambda>_.
     advance (unat words * 4)))"

definition skip_ace40 :: "(unit, nfs_error) reader" where
  "skip_ace40 =
     rbind (take_u32 ''ACE type'') (\<lambda>_.
     rbind (take_u32 ''ACE flags'') (\<lambda>_.
     rbind (take_u32 ''ACE mask'') (\<lambda>_.
     rbind (take_opaque ''ACE who'') (\<lambda>_. rreturn ()))))"

definition skip_limit40 :: "(unit, nfs_error) reader" where
  "skip_limit40 =
     rbind (take_u32 ''space limit'') (\<lambda>limit.
       if limit = 1 then rbind (need 8 (Xdr ''delegation size truncated'')) (\<lambda>_. advance 8)
       else if limit = 2 then rbind (need 16 (Xdr ''delegation blocks truncated'')) (\<lambda>_. advance 16)
       else rfail (Xdr (''invalid delegation space limit '' @ show_nat (unat limit))))"

definition decode_delegation :: "(delegation_grant option, nfs_error) reader" where
  "decode_delegation =
     rbind (take_u32 ''delegation type'') (\<lambda>kind.
       if kind = 0 then rreturn None
       else if kind = 1 then
         rbind (take_stateid ''read delegation'') (\<lambda>stateid.
         rbind (take_u32 ''recall'') (\<lambda>recall.
         rbind skip_ace40 (\<lambda>_.
         rreturn (Some \<lparr>dg_kind = Deleg_Read, dg_stateid = stateid, dg_recall = recall \<noteq> 0\<rparr>))))
       else if kind = 2 then
         rbind (take_stateid ''write delegation'') (\<lambda>stateid.
         rbind (take_u32 ''recall'') (\<lambda>recall.
         rbind skip_limit40 (\<lambda>_.
         rbind skip_ace40 (\<lambda>_.
         rreturn (Some \<lparr>dg_kind = Deleg_Write, dg_stateid = stateid, dg_recall = recall \<noteq> 0\<rparr>)))))
       else rfail (Xdr (''unsupported delegation type '' @ show_nat (unat kind))))"

definition decode_open_response ::
  "(u32 \<Rightarrow> string option) \<Rightarrow> (open_result \<times> bytes, nfs_error) reader" where
  "decode_open_response stat_error =
     expect_count stat_error ''OPEN'' 3
       (expect_ops stat_error [(OP_PUTFH, ''PUTFH''), (OP_OPEN, ''OPEN'')]
         (rbind (take_stateid ''OPEN'') (\<lambda>stateid.
          rbind (need 20 (Xdr ''OPEN change_info truncated'')) (\<lambda>_.
          rbind (advance 20) (\<lambda>_.
          rbind (take_u32 ''OPEN result flags'') (\<lambda>flags.
          rbind (skip_bitmap40 ''OPEN attrset'') (\<lambda>_.
          rbind decode_delegation (\<lambda>delegation.
          rbind (expect_op stat_error OP_GETFH ''GETFH'') (\<lambda>_.
          rbind (take_opaque ''GETFH filehandle'') (\<lambda>fh.
          rreturn (\<lparr>or_stateid = stateid,
                    or_confirm_required = flags AND OPEN4_RESULT_CONFIRM \<noteq> 0,
                    or_delegation = delegation\<rparr>, fh)))))))))))"

subsection \<open>Partial success\<close>

text \<open>\<open>take_u32(..).ok() == Some(word)\<close>, for one word after the other.\<close>

fun next_words :: "u32 list \<Rightarrow> bytes \<Rightarrow> bool" where
  "next_words [] d = True"
| "next_words (w # ws) d =
     (case take_u32 '''' d of Ok (x, d') \<Rightarrow> x = w \<and> next_words ws d' | _ \<Rightarrow> False)"

definition succeeded_before_failure :: "u32 \<Rightarrow> bytes \<Rightarrow> bool" where
  "succeeded_before_failure opcode buf =
     (case take_u32 ''COMPOUND status'' buf of
        Ok (overall, buf) \<Rightarrow>
          if overall = 0 then False
          else (case take_opaque ''COMPOUND tag'' buf of
                  Ok (_, buf) \<Rightarrow>
                    (case take_u32 ''COMPOUND result count'' buf of
                       Ok (cnt, buf) \<Rightarrow> cnt \<ge> 2 \<and> next_words [OP_PUTFH, 0, opcode, 0] buf
                     | _ \<Rightarrow> False)
                | _ \<Rightarrow> False)
      | _ \<Rightarrow> False)"

definition open_succeeded_before_compound_failure :: "bytes \<Rightarrow> bool" where
  "open_succeeded_before_compound_failure buf = succeeded_before_failure OP_OPEN buf"

definition create_succeeded_before_compound_failure :: "bytes \<Rightarrow> bool" where
  "create_succeeded_before_compound_failure buf = succeeded_before_failure OP_CREATE buf"

subsection \<open>Attributes and names\<close>

text \<open>The reply minus the bytes the decoder consumed, which it returns.\<close>

definition rest_of_reply :: "(bytes, nfs_error) reader" where
  "rest_of_reply d = Ok (d, d)"

definition decode_getattr_compound :: "(u32 \<Rightarrow> string option) \<Rightarrow> (bytes, nfs_error) reader" where
  "decode_getattr_compound stat_error =
     expect_count stat_error ''GETATTR'' 2
       (expect_ops stat_error [(OP_PUTFH, ''PUTFH''), (OP_GETATTR, ''GETATTR'')] rest_of_reply)"

definition decode_access_response :: "(u32 \<Rightarrow> string option) \<Rightarrow> (u32 \<times> u32, nfs_error) reader" where
  "decode_access_response stat_error =
     expect_count stat_error ''ACCESS'' 2
       (expect_ops stat_error [(OP_PUTFH, ''PUTFH''), (OP_ACCESS, ''ACCESS'')]
         (rbind (take_u32 ''ACCESS supported'') (\<lambda>supported.
          rbind (take_u32 ''ACCESS granted'') (\<lambda>access.
            if access AND NOT supported \<noteq> 0
            then rfail (Xdr ''ACCESS granted bits exceed supported bits'')
            else rreturn (supported, access)))))"

primrec check_attrsset :: "u32 list \<Rightarrow> nat \<Rightarrow> nat \<Rightarrow> (unit, nfs_error) reader" where
  "check_attrsset requested index 0 = rreturn ()"
| "check_attrsset requested index (Suc n) =
     rbind (take_u32 ''SETATTR attrsset word'') (\<lambda>set_word.
       if set_word AND NOT (case slice_get requested index of Some w \<Rightarrow> w | None \<Rightarrow> 0) \<noteq> 0
       then rfail (Xdr ''SETATTR response reports an unrequested attribute'')
       else check_attrsset requested (Suc index) n)"

definition decode_setattr_response ::
  "(u32 \<Rightarrow> string option) \<Rightarrow> u32 list \<Rightarrow> (unit, nfs_error) reader" where
  "decode_setattr_response stat_error requested =
     expect_count stat_error ''SETATTR'' 2
       (expect_ops stat_error [(OP_PUTFH, ''PUTFH''), (OP_SETATTR, ''SETATTR'')]
         (rbind (take_u32 ''SETATTR attrsset length'') (\<lambda>words.
          check_attrsset requested 0 (unat words))))"

definition decode_lookup_getattr_response ::
  "(u32 \<Rightarrow> string option) \<Rightarrow> (bytes \<times> bytes, nfs_error) reader" where
  "decode_lookup_getattr_response stat_error =
     expect_count stat_error ''LOOKUP'' 4
       (expect_ops stat_error [(OP_PUTFH, ''PUTFH''), (OP_LOOKUP, ''LOOKUP''), (OP_GETFH, ''GETFH'')]
         (rbind (take_opaque ''GETFH filehandle'') (\<lambda>fh.
          rbind (expect_op stat_error OP_GETATTR ''GETATTR'') (\<lambda>_.
          rbind rest_of_reply (\<lambda>ops. rreturn (fh, ops))))))"

definition decode_create_response ::
  "(u32 \<Rightarrow> string option) \<Rightarrow> (bytes \<times> bytes, nfs_error) reader" where
  "decode_create_response stat_error =
     expect_count stat_error ''CREATE'' 4
       (expect_ops stat_error [(OP_PUTFH, ''PUTFH''), (OP_CREATE, ''CREATE'')]
         (rbind (need 20 (Xdr ''CREATE change_info truncated'')) (\<lambda>_.
          rbind (advance 20) (\<lambda>_.
          rbind (skip_bitmap40 ''CREATE attrset'') (\<lambda>_.
          rbind (expect_op stat_error OP_GETFH ''GETFH'') (\<lambda>_.
          rbind (take_opaque ''GETFH filehandle'') (\<lambda>fh.
          rbind (expect_op stat_error OP_GETATTR ''GETATTR'') (\<lambda>_.
          rbind rest_of_reply (\<lambda>ops. rreturn (fh, ops))))))))))"

definition decode_remove_response :: "(u32 \<Rightarrow> string option) \<Rightarrow> (unit, nfs_error) reader" where
  "decode_remove_response stat_error =
     expect_count stat_error ''REMOVE'' 2
       (expect_ops stat_error [(OP_PUTFH, ''PUTFH''), (OP_REMOVE, ''REMOVE'')]
         (need 20 (Xdr ''REMOVE change_info truncated'')))"

definition decode_readlink_response :: "(u32 \<Rightarrow> string option) \<Rightarrow> (bytes, nfs_error) reader" where
  "decode_readlink_response stat_error =
     expect_count stat_error ''READLINK'' 2
       (expect_ops stat_error [(OP_PUTFH, ''PUTFH''), (OP_READLINK, ''READLINK'')]
         (rbind (take_opaque ''READLINK target'') (\<lambda>link.
            lift (case from_utf8 link of
                    Ok s \<Rightarrow> Ok s
                  | Err e \<Rightarrow> Err (Xdr (''READLINK target is not UTF-8: '' @ e))
                  | Panic \<Rightarrow> Panic))))"

definition decode_readdir_response :: "(u32 \<Rightarrow> string option) \<Rightarrow> (bytes, nfs_error) reader" where
  "decode_readdir_response stat_error =
     expect_count stat_error ''READDIR'' 2
       (expect_ops stat_error [(OP_PUTFH, ''PUTFH''), (OP_READDIR, ''READDIR'')] rest_of_reply)"

definition decode_rename_response :: "(u32 \<Rightarrow> string option) \<Rightarrow> (unit, nfs_error) reader" where
  "decode_rename_response stat_error =
     expect_count stat_error ''RENAME'' 4
       (expect_ops stat_error [(OP_PUTFH, ''PUTFH''), (OP_SAVEFH, ''SAVEFH''), (OP_PUTFH, ''PUTFH''),
           (OP_RENAME, ''RENAME'')]
         (need 40 (Xdr ''RENAME change_info truncated'')))"

definition decode_link_response :: "(u32 \<Rightarrow> string option) \<Rightarrow> (unit, nfs_error) reader" where
  "decode_link_response stat_error =
     expect_count stat_error ''LINK'' 4
       (expect_ops stat_error [(OP_PUTFH, ''PUTFH''), (OP_SAVEFH, ''SAVEFH''), (OP_PUTFH, ''PUTFH''),
           (OP_LINK, ''LINK'')]
         (need 20 (Xdr ''LINK change_info truncated'')))"

subsection \<open>Locks, stateids and data\<close>

definition decode_lock_denied_result ::
  "(u32 \<Rightarrow> string option) \<Rightarrow> u32 \<Rightarrow> string \<Rightarrow> (unit, nfs_error) reader" where
  "decode_lock_denied_result stat_error opcode name =
     rbind (take_u32 ''COMPOUND status'') (\<lambda>overall.
       if overall \<noteq> NFS4ERR_DENIED then rreturn ()
       else
         rbind (take_opaque ''COMPOUND tag'') (\<lambda>_.
         rbind (take_u32 ''COMPOUND result count'') (\<lambda>cnt.
         if cnt \<noteq> 2
         then rfail (Xdr (name @ '' denied response has '' @ show_nat (unat cnt) @ '' operations, expected 2''))
         else
           rbind (expect_op stat_error OP_PUTFH ''PUTFH'') (\<lambda>_.
           rbind (take_u32 (name @ '' opcode'')) (\<lambda>actual.
           if actual \<noteq> opcode
           then rfail (Xdr (''expected '' @ name @ '' opcode '' @ show_nat (unat opcode) @ '', got ''
                  @ show_nat (unat actual)))
           else
             rbind (take_u32 (name @ '' status'')) (\<lambda>status.
             if status \<noteq> NFS4ERR_DENIED
             then rfail (Xdr (name @ '' status '' @ show_nat (unat status)
                    @ '' does not match denied COMPOUND status''))
             else
               rbind (need 28 (Xdr (name @ '' denied range truncated''))) (\<lambda>_.
               rbind get_u64 (\<lambda>offset.
               rbind get_u64 (\<lambda>len.
               rbind get_u32 (\<lambda>lock_type.
               rbind (advance 8) (\<lambda>_.
               rbind (take_opaque (name @ '' denied owner'')) (\<lambda>owner.
               if length owner > MAX_LOCK_OWNER_LEN
               then rfail (Xdr (name @ '' denied owner exceeds '' @ show_nat MAX_LOCK_OWNER_LEN @ '' bytes''))
               else rfail (LockDenied lock_type offset len owner)))))))))))))"

definition decode_stateid_response ::
  "(u32 \<Rightarrow> string option) \<Rightarrow> u32 \<Rightarrow> string \<Rightarrow> (bytes, nfs_error) reader" where
  "decode_stateid_response stat_error opcode name =
     expect_count stat_error name 2
       (expect_ops stat_error [(OP_PUTFH, ''PUTFH''), (opcode, name)] (take_stateid name))"

text \<open>The first decoder runs on a clone of the buffer.\<close>

definition decode_lock_response ::
  "(u32 \<Rightarrow> string option) \<Rightarrow> u32 \<Rightarrow> string \<Rightarrow> (bytes, nfs_error) reader" where
  "decode_lock_response stat_error opcode name buf =
     and_then (decode_lock_denied_result stat_error opcode name buf) (\<lambda>_.
     decode_stateid_response stat_error opcode name buf)"

definition decode_lockt_response :: "(u32 \<Rightarrow> string option) \<Rightarrow> (unit, nfs_error) reader" where
  "decode_lockt_response stat_error buf =
     and_then (decode_lock_denied_result stat_error OP_LOCKT ''LOCKT'' buf) (\<lambda>_.
     expect_count stat_error ''LOCKT'' 2
       (expect_ops stat_error [(OP_PUTFH, ''PUTFH'')] (expect_op stat_error OP_LOCKT ''LOCKT'')) buf)"

definition decode_release_lockowner_response ::
  "(u32 \<Rightarrow> string option) \<Rightarrow> (unit, nfs_error) reader" where
  "decode_release_lockowner_response stat_error =
     expect_count stat_error ''RELEASE_LOCKOWNER'' 1
       (expect_op stat_error OP_RELEASE_LOCKOWNER ''RELEASE_LOCKOWNER'')"

definition decode_renew_response :: "(u32 \<Rightarrow> string option) \<Rightarrow> (unit, nfs_error) reader" where
  "decode_renew_response stat_error =
     expect_count stat_error ''RENEW'' 1 (expect_op stat_error OP_RENEW ''RENEW'')"

definition decode_read_response :: "(u32 \<Rightarrow> string option) \<Rightarrow> (bytes, nfs_error) reader" where
  "decode_read_response stat_error =
     expect_count stat_error ''READ'' 2
       (expect_ops stat_error [(OP_PUTFH, ''PUTFH''), (OP_READ, ''READ'')]
         (rbind (take_u32 ''READ eof'') (\<lambda>eof.
          rbind (take_opaque ''READ data'') (\<lambda>data. lift (read_reply data (eof \<noteq> 0))))))"

definition decode_write_response ::
  "(u32 \<Rightarrow> string option) \<Rightarrow> (u32 \<times> u32 \<times> bytes, nfs_error) reader" where
  "decode_write_response stat_error =
     expect_count stat_error ''WRITE'' 2
       (expect_ops stat_error [(OP_PUTFH, ''PUTFH''), (OP_WRITE, ''WRITE'')]
         (rbind (take_u32 ''WRITE count'') (\<lambda>cnt.
          rbind (take_u32 ''WRITE committed'') (\<lambda>committed.
            if committed > 2
            then rfail (Xdr (''WRITE committed value '' @ show_nat (unat committed)
                   @ '' is outside stable_how4''))
            else rbind (need 8 (Xdr ''WRITE verifier truncated'')) (\<lambda>_.
                 rbind (get_bytes 8) (\<lambda>verifier. rreturn (cnt, committed, verifier)))))))"

definition decode_commit_response :: "(u32 \<Rightarrow> string option) \<Rightarrow> (bytes, nfs_error) reader" where
  "decode_commit_response stat_error =
     expect_count stat_error ''COMMIT'' 2
       (expect_ops stat_error [(OP_PUTFH, ''PUTFH''), (OP_COMMIT, ''COMMIT'')]
         (rbind (need 8 (Xdr ''COMMIT verifier truncated'')) (\<lambda>_. get_bytes 8)))"

subsection \<open>Replies that ask for a retry\<close>

text \<open>The opcodes of \<open>retryable_busy_response\<close>: operations that change nothing, and operations that
  carry the sequence number of an open or lock owner.\<close>

definition read_only_op :: "u32 \<Rightarrow> bool" where
  "read_only_op opcode \<longleftrightarrow> opcode \<in> {3, 9, 10, 15, 16, 22, 23, 24, 31, 32}"

definition owner_seqid_op :: "u32 \<Rightarrow> bool" where
  "owner_seqid_op opcode \<longleftrightarrow> opcode \<in> {4, 12, 14, 18, 20}"

definition skip_words :: "string \<Rightarrow> string \<Rightarrow> (unit, nfs_error) reader" where
  "skip_words what error =
     rbind (take_u32 what) (\<lambda>words d.
       if unat words > length d div 4 then Err (Xdr error) else advance (unat words * 4) d)"

text \<open>The arguments of an operation of the request that succeeded; \<open>None\<close> when the operation may have
  changed something.\<close>

definition skip_request :: "u32 \<Rightarrow> (unit option, nfs_error) reader" where
  "skip_request opcode =
     (if opcode \<in> {15, 22} then rbind (take_opaque ''request argument'') (\<lambda>_. rreturn (Some ()))
      else if opcode = 3 then rbind (take_u32 ''requested access'') (\<lambda>_. rreturn (Some ()))
      else if opcode = 9
      then rbind (skip_words ''request bitmap'' ''truncated request bitmap'') (\<lambda>_. rreturn (Some ()))
      else if opcode \<in> {10, 16, 23, 24, 31, 32} then rreturn (Some ())
      else rreturn None)"

definition skip_reply :: "u32 \<Rightarrow> (unit, nfs_error) reader" where
  "skip_reply opcode d =
     (if opcode \<in> {15, 16, 22, 23, 24, 31, 32} then Ok ((), d)
      else if opcode = 10 then rbind (take_opaque ''GETFH'') (\<lambda>_. rreturn ()) d
      else if opcode = 9
      then rbind (skip_words ''bitmap'' ''truncated attribute bitmap'') (\<lambda>_.
           rbind (take_opaque ''attributes'') (\<lambda>_. rreturn ())) d
      else if opcode = 3 \<and> length d \<ge> 8 then advance 8 d
      else Err (Xdr ''truncated busy COMPOUND prefix''))"

text \<open>\<open>check_status(status).err()\<close>.\<close>

definition status_err :: "(u32 \<Rightarrow> string option) \<Rightarrow> u32 \<Rightarrow> nfs_error option" where
  "status_err stat_error status = (case check_status stat_error status of Err e \<Rightarrow> Some e | _ \<Rightarrow> None)"

text \<open>The loop over the results, with the number of results still to come.\<close>

primrec busy_results ::
  "(u32 \<Rightarrow> string option) \<Rightarrow> u32 \<Rightarrow> nat \<Rightarrow> bytes \<Rightarrow> bytes \<Rightarrow> nfs_error option result" where
  "busy_results stat_error overall 0 buf sent = Err (Xdr ''busy COMPOUND has no failed operation'')"
| "busy_results stat_error overall (Suc left) buf sent =
     and_then (take_u32 ''opcode'' buf) (\<lambda>(opcode, buf).
     and_then (take_u32 ''op status'' buf) (\<lambda>(status, buf).
     and_then (take_u32 ''request opcode'' sent) (\<lambda>(requested, sent).
       if requested \<noteq> opcode then Err (Xdr ''busy COMPOUND response opcode differs from request'')
       else if status \<noteq> 0 then
         if left \<noteq> 0 \<or> status \<noteq> overall \<or> buf \<noteq> []
         then Err (Xdr ''malformed busy COMPOUND result'')
         else if owner_seqid_op opcode then Ok None
         else Ok (status_err stat_error status)
       else
         and_then (skip_request opcode sent) (\<lambda>(harmless, sent).
           case harmless of
             None \<Rightarrow> Ok None
           | Some _ \<Rightarrow>
               and_then (skip_reply opcode buf) (\<lambda>(_, buf).
               busy_results stat_error overall left buf sent)))))"

definition skip_auth :: "(unit, nfs_error) reader" where
  "skip_auth =
     rbind (take_u32 ''auth flavor'') (\<lambda>_. rbind (take_opaque ''auth body'') (\<lambda>_. rreturn ()))"

text \<open>Credential, verifier, tag, minor version and operation count of the request.\<close>

definition request_prologue :: "(u32 \<times> u32, nfs_error) reader" where
  "request_prologue =
     rbind skip_auth (\<lambda>_.
     rbind skip_auth (\<lambda>_.
     rbind (take_opaque ''request tag'') (\<lambda>_.
     rbind (take_u32 ''minor version'') (\<lambda>minor.
     rbind (take_u32 ''request count'') (\<lambda>requested_count.
     rreturn (minor, requested_count))))))"

definition retryable_busy_response ::
  "(u32 \<Rightarrow> string option) \<Rightarrow> bytes \<Rightarrow> bytes \<Rightarrow> nfs_error option result" where
  "retryable_busy_response stat_error buf request =
     and_then (take_u32 ''status'' buf) (\<lambda>(overall, buf).
       if overall \<noteq> 10008 \<and> overall \<noteq> 10013 then Ok None
       else
         and_then (take_opaque ''tag'' buf) (\<lambda>(_, buf).
         and_then (take_u32 ''count'' buf) (\<lambda>(cnt, buf).
         if length request < 16 then Err (Xdr ''missing RPC header'')
         else
           and_then (request_prologue (drop 16 request)) (\<lambda>((minor, requested_count), sent).
             if minor \<noteq> 0 \<or> cnt = 0 \<or> cnt > 128 \<or> cnt > requested_count
             then Err (Xdr ''invalid busy COMPOUND operation count or minor version'')
             else busy_results stat_error overall (unat cnt) buf sent))))"

subsection \<open>Panic freedom\<close>

lemma expect_op_safe [simp]: "safe_with n (expect_op stat_error expected name)"
  unfolding expect_op_def by (rule safe_any) (rule reader_safe | rule safe_rbind | simp)+

lemma response_ops_safe [simp]: "safe_with n (response_ops stat_error)"
  unfolding response_ops_def by (rule safe_any) (rule reader_safe | rule safe_rbind | simp)+

lemma expect_count_safe [reader_safe]:
  "safe_with 0 rest \<Longrightarrow> safe_with n (expect_count stat_error name expected rest)"
  unfolding expect_count_def by (rule safe_any) (rule reader_safe | rule safe_rbind | simp)+

lemma expect_ops_safe [reader_safe]: "safe_with 0 rest \<Longrightarrow> safe_with n (expect_ops stat_error ops rest)"
proof -
  assume rest: "safe_with 0 rest"
  have "safe_with 0 (expect_ops stat_error ops rest)"
    using rest by (induction ops) (auto intro: safe_rbind)
  then show ?thesis by (rule safe_any)
qed

lemma take_stateid_safe [simp]: "safe_with n (take_stateid what)"
  unfolding take_stateid_def by (rule safe_any) (rule reader_safe | simp)+

lemma skip_bitmap40_safe [simp]: "safe_with n (skip_bitmap40 what)"
  unfolding skip_bitmap40_def by (rule safe_any) (rule reader_safe | rule safe_rbind | simp)+

lemma skip_ace40_safe [simp]: "safe_with n skip_ace40"
  unfolding skip_ace40_def by (rule safe_any) (rule reader_safe | rule safe_rbind | simp)+

lemma skip_limit40_safe [simp]: "safe_with n skip_limit40"
  unfolding skip_limit40_def by (rule safe_any) (rule reader_safe | rule safe_rbind | simp)+

lemma decode_delegation_safe [simp]: "safe_with n decode_delegation"
  unfolding decode_delegation_def by (rule safe_any) (rule reader_safe | rule safe_rbind | simp)+

lemma rest_of_reply_safe [simp]: "safe_with n rest_of_reply"
  by (simp add: safe_with_def rest_of_reply_def)

lemma check_attrsset_safe [simp]: "safe_with k (check_attrsset requested index n)"
proof -
  have "safe_with 0 (check_attrsset requested index n)"
    by (induction n arbitrary: index) (simp_all, (rule reader_safe | rule safe_rbind | simp)+)
  then show ?thesis by (rule safe_any)
qed

lemma skip_words_safe [simp]: "safe_with n (skip_words what error)"
  unfolding skip_words_def
  by (rule safe_any, rule safe_rbind, rule take_u32_safe)
    (auto simp: safe_with_def advance_def less_eq_div_iff_mult_less_eq)

lemma skip_request_safe [simp]: "safe_with n (skip_request opcode)"
  unfolding skip_request_def by (rule safe_any) (rule reader_safe | rule safe_rbind | simp)+

lemma skip_reply_not_Panic [simp]: "skip_reply opcode d \<noteq> Panic"
proof -
  have "safe_with 0 (rbind (take_opaque ''GETFH'') (\<lambda>_. rreturn ()))"
    "safe_with 0 (rbind (skip_words ''bitmap'' ''truncated attribute bitmap'') (\<lambda>_.
       rbind (take_opaque ''attributes'') (\<lambda>_. rreturn ())))"
    by (rule reader_safe | rule safe_rbind | simp)+
  then show ?thesis by (simp add: skip_reply_def safe_with_def advance_def)
qed

lemma take_not_Panic [simp]: "take_u32 what d \<noteq> Panic" "take_opaque what d \<noteq> Panic"
  "skip_request opcode d \<noteq> Panic"
  by (rule safe_withD, simp)+

lemma busy_results_not_Panic: "busy_results stat_error overall n buf sent \<noteq> Panic"
  by (induction n arbitrary: buf sent) (auto simp: and_then_eq_Panic split: option.splits)

lemma request_prologue_not_Panic: "request_prologue d \<noteq> Panic"
proof -
  have "safe_with 0 request_prologue"
    unfolding request_prologue_def skip_auth_def by (rule reader_safe | rule safe_rbind | simp)+
  then show ?thesis by (rule safe_withD)
qed

lemma retryable_busy_response_not_Panic: "retryable_busy_response stat_error buf request \<noteq> Panic"
  by (auto simp: retryable_busy_response_def and_then_eq_Panic request_prologue_not_Panic
      busy_results_not_Panic)

lemma decode_lock_denied_safe [simp]: "safe_with n (decode_lock_denied_result stat_error opcode name)"
  unfolding decode_lock_denied_result_def
  by (rule safe_any) (rule reader_safe | rule safe_rbind | simp)+

lemma decode_stateid_response_safe [simp]: "safe_with n (decode_stateid_response stat_error opcode name)"
  unfolding decode_stateid_response_def by (rule reader_safe | simp)+

lemma decode_lock_response_safe [simp]: "safe_with n (decode_lock_response stat_error opcode name)"
  by (auto simp: safe_with_def [of n] decode_lock_response_def and_then_eq_Panic
      dest: safe_withD [OF decode_lock_denied_safe, THEN notE] safe_withD [OF decode_stateid_response_safe, THEN notE])

lemma decode_lockt_response_safe [simp]: "safe_with n (decode_lockt_response stat_error)"
proof -
  have "safe_with 0 (expect_count stat_error ''LOCKT'' 2
      (expect_ops stat_error [(OP_PUTFH, ''PUTFH'')] (expect_op stat_error OP_LOCKT ''LOCKT'')))"
    by (rule reader_safe | simp)+
  then show ?thesis
    by (auto simp: safe_with_def [of n] decode_lockt_response_def and_then_eq_Panic
        dest: safe_withD [OF decode_lock_denied_safe, THEN notE] safe_withD [THEN notE])
qed

lemma read_reply_not_Panic [simp]: "read_reply data eof \<noteq> Panic"
  by (simp add: read_reply_def)

lemma decoders40_safe:
  "safe_with n (decode_setclientid_response stat_error)"
  "safe_with n (decode_confirm_response stat_error)"
  "safe_with n (decode_delegreturn_response stat_error)"
  "safe_with n (decode_open_response stat_error)"
  "safe_with n (decode_getattr_compound stat_error)"
  "safe_with n (decode_access_response stat_error)"
  "safe_with n (decode_setattr_response stat_error requested)"
  "safe_with n (decode_lookup_getattr_response stat_error)"
  "safe_with n (decode_create_response stat_error)"
  "safe_with n (decode_remove_response stat_error)"
  "safe_with n (decode_readdir_response stat_error)"
  "safe_with n (decode_rename_response stat_error)"
  "safe_with n (decode_link_response stat_error)"
  "safe_with n (decode_release_lockowner_response stat_error)"
  "safe_with n (decode_renew_response stat_error)"
  "safe_with n (decode_read_response stat_error)"
  "safe_with n (decode_write_response stat_error)"
  "safe_with n (decode_commit_response stat_error)"
  unfolding decode_setclientid_response_def decode_confirm_response_def decode_delegreturn_response_def
    decode_open_response_def decode_getattr_compound_def decode_access_response_def
    decode_setattr_response_def decode_lookup_getattr_response_def decode_create_response_def
    decode_remove_response_def decode_readdir_response_def decode_rename_response_def
    decode_link_response_def decode_release_lockowner_response_def decode_renew_response_def
    decode_read_response_def decode_write_response_def decode_commit_response_def
  by (rule safe_any, (rule reader_safe | rule safe_rbind | simp)+)+

lemma decode_readlink_response_safe: "safe_with n (decode_readlink_response stat_error)"
proof -
  have "(case from_utf8 link of Ok s \<Rightarrow> Ok s
      | Err e \<Rightarrow> Err (Xdr (''READLINK target is not UTF-8: '' @ e)) | Panic \<Rightarrow> Panic) \<noteq> Panic" for link
    by (cases "from_utf8 link") auto
  then show ?thesis
    unfolding decode_readlink_response_def
    by (intro expect_count_safe expect_ops_safe safe_rbind safe_lift take_opaque_safe)
qed

subsection \<open>When a busy request is sent again\<close>

text \<open>The arguments the builder gives to the operations that change nothing.\<close>

definition args_ok :: "u32 \<times> bytes \<Rightarrow> bool" where
  "args_ok op \<longleftrightarrow>
     (if fst op \<in> {15, 22} then \<exists>v. length v < 2 ^ 32 \<and> snd op = opaque_enc v
      else if fst op = 3 then length (snd op) = 4
      else if fst op = 9 then \<exists>ws. length ws < 2 ^ 32 \<and> snd op = bitmap_enc ws
      else read_only_op (fst op) \<longrightarrow> snd op = [])"

lemma foldl_xdr_u32: "foldl xdr_u32 buf ws = buf @ concat (map u32_to_be ws)"
  by (induction ws arbitrary: buf) (simp_all add: xdr_u32_def)

lemma xdr_bitmap_eq: "xdr_bitmap buf ws = buf @ bitmap_enc ws"
  by (simp add: xdr_bitmap_def foldl_xdr_u32 xdr_u32_def bitmap_enc_def)

declare length_concat_u32 [simp]

lemma take_u32_split: "take_u32 what d = Ok (w, d') \<longleftrightarrow> d = u32_to_be w @ d'"
  by (auto simp: take_u32_def rbind_eq_Ok need_def get_u32_split)

lemma u32_to_be_not_Nil [simp]: "u32_to_be w \<noteq> []" "[] \<noteq> u32_to_be w"
  using length_u32_to_be [of w] by (auto simp del: length_u32_to_be)

lemma u32_to_be_inject [simp]: "u32_to_be v = u32_to_be w \<longleftrightarrow> v = w"
  using u32_from_to_be [of v] u32_from_to_be [of w] by metis

lemma op_enc_pair: "op_enc (opcode, args) = u32_to_be opcode @ args"
  by (simp add: op_enc_def)

lemma take_u32_short: "length d < 4 \<Longrightarrow> take_u32 what d = Err (Xdr (what @ '' truncated''))"
  by (simp add: take_u32_def rbind_need_short)

lemma skip_words_enc: "length ws < 2 ^ 32 \<Longrightarrow> skip_words what error (bitmap_enc ws @ d) = Ok ((), d)"
  by (simp add: skip_words_def bitmap_enc_def advance_def unat_of_nat_small)

lemma skip_request_enc:
  assumes "args_ok (opcode, args)" "read_only_op opcode"
  shows "skip_request opcode (args @ d) = Ok (Some (), d)"
proof -
  have four: "take_u32 what (args @ d) = Ok (u32_from_be args, d)" if "length args = 4" for what
    using that by (simp add: take_u32_split u32_to_from_be)
  show ?thesis
    using assms
    by (auto simp: args_ok_def skip_request_def read_only_op_def rbind_def [of "take_u32 _"] four
        rbind_def [of "skip_words _ _"] skip_words_enc rreturn_def split: if_splits)
qed

lemma skip_request_None:
  "\<not> read_only_op opcode \<Longrightarrow> skip_request opcode d = Ok (None, d)"
  by (simp add: read_only_op_def skip_request_def rreturn_def)

lemma busy_results_sound:
  assumes "list_all args_ok ops"
    and "busy_results stat_error overall n buf (concat (map op_enc ops)) = Ok (Some e)"
  shows "\<exists>k < length ops. n = Suc k \<and> (\<forall>i < k. read_only_op (fst (ops ! i)))
           \<and> \<not> owner_seqid_op (fst (ops ! k)) \<and> status_err stat_error overall = Some e"
  using assms
proof (induction n arbitrary: buf ops)
  case (Suc left)
  show ?case
  proof (cases ops)
    case Nil
    with Suc.prems(2) show ?thesis by (auto simp: take_u32_split)
  next
    case (Cons op rest)
    obtain opcode args where op: "op = (opcode, args)" by (cases op)
    let ?sent = "args @ concat (map op_enc rest)"
    from Suc.prems(2) obtain status buf1 where
      step: "(if status \<noteq> 0 then
          if left \<noteq> 0 \<or> status \<noteq> overall \<or> buf1 \<noteq> [] then Err (Xdr ''malformed busy COMPOUND result'')
          else if owner_seqid_op opcode then Ok None else Ok (status_err stat_error status)
        else and_then (skip_request opcode ?sent) (\<lambda>(harmless, sent).
           case harmless of None \<Rightarrow> Ok None | Some _ \<Rightarrow>
             and_then (skip_reply opcode buf1) (\<lambda>(_, buf).
             busy_results stat_error overall left buf sent))) = Ok (Some e)"
      by (auto simp: Cons op op_enc_pair take_u32_split if_Err_eq_Ok(1) simp del: u32_to_be_not_Nil)
    show ?thesis
    proof (cases "status = 0")
      case False
      with step show ?thesis by (auto simp: Cons op split: if_split_asm)
    next
      case True
      have ok: "args_ok (opcode, args)" "list_all args_ok rest" using Suc.prems(1) by (simp_all add: Cons op)
      have read: "read_only_op opcode"
        using step True by (cases "read_only_op opcode") (auto simp: skip_request_None)
      with step True ok obtain buf2 where
        "busy_results stat_error overall left buf2 (concat (map op_enc rest)) = Ok (Some e)"
        by (auto simp: skip_request_enc)
      from Suc.IH [OF ok(2) this] obtain k where "k < length rest" "left = Suc k"
        "\<forall>i < k. read_only_op (fst (rest ! i))" "\<not> owner_seqid_op (fst (rest ! k))"
        "status_err stat_error overall = Some e" by blast
      with read show ?thesis
        by (intro exI [of _ "Suc k"]) (auto simp: Cons op nth_Cons split: nat.splits)
    qed
  qed
qed simp

lemma skip_auth_enc: "length (au_body a) < 2 ^ 32 \<Longrightarrow> skip_auth (auth_encode a @ d) = Ok ((), d)"
  using take_opaque_enc [of "au_body a" "''auth body''" d]
  by (simp add: skip_auth_def auth_encode_def rbind_def [of "take_opaque _"] opaque_enc_def
      pad_len_def rreturn_def)

lemma request_prologue_enc:
  assumes "length (au_body auth) < 2 ^ 32" "length (cb_tag b) < 2 ^ 32"
  shows "request_prologue (drop 16 (v0_encode_with_header b auth))
         = Ok ((cb_minor_version b, word_of_nat (length (cb_ops b))), concat (map op_enc (cb_ops b)))"
proof -
  have "drop 16 (v0_encode_with_header b auth)
      = auth_encode auth @ auth_encode auth_new_null @ encode_body b"
    by (simp add: v0_encode_with_header_def header_encode_def rpc_header_def)
  moreover have "length (au_body auth_new_null) < 2 ^ 32" by (simp add: auth_new_null_def)
  ultimately show ?thesis
    using assms
    by (simp add: request_prologue_def rbind_def [of skip_auth] skip_auth_enc encode_body_eq rreturn_def)
qed

lemma length_header: "16 \<le> length (v0_encode_with_header b auth)"
  by (simp add: v0_encode_with_header_def header_encode_def)

text \<open>The three words and the tag in front of the results.\<close>

definition reply_head :: "(u32 \<times> u32, nfs_error) reader" where
  "reply_head =
     rbind (take_u32 ''status'') (\<lambda>status.
     rbind (take_opaque ''tag'') (\<lambda>_.
     rbind (take_u32 ''count'') (\<lambda>cnt. rreturn (status, cnt))))"

text \<open>C33. A request is sent again only when nothing in it can have taken effect: when
  \<open>retryable_busy_response\<close> answers with an error to retry on, the reply stops at an operation \<open>k\<close> of
  the request with DELAY or GRACE, every operation before \<open>k\<close> only reads or moves the current file
  handle, and operation \<open>k\<close> carries no owner sequence number.\<close>

theorem busy_retry_unexecuted:
  assumes "retryable_busy_response stat_error reply (v0_encode_with_header b auth) = Ok (Some e)"
    and "list_all args_ok (cb_ops b)" "length (au_body auth) < 2 ^ 32" "length (cb_tag b) < 2 ^ 32"
  shows "\<exists>k status rest. k < length (cb_ops b)
           \<and> reply_head reply = Ok ((status, word_of_nat (Suc k)), rest) \<and> status \<in> {10008, 10013}
           \<and> (\<forall>i < k. read_only_op (fst (cb_ops b ! i))) \<and> \<not> owner_seqid_op (fst (cb_ops b ! k))
           \<and> status_err stat_error status = Some e"
proof -
  from assms(1) obtain status tag cnt buf1 buf2 buf3 where
    head: "take_u32 ''status'' reply = Ok (status, buf1)" "take_opaque ''tag'' buf1 = Ok (tag, buf2)"
      "take_u32 ''count'' buf2 = Ok (cnt, buf3)" and busy: "status = 10008 \<or> status = 10013"
    and results: "busy_results stat_error status (unat cnt) buf3 (concat (map op_enc (cb_ops b)))
      = Ok (Some e)"
    unfolding retryable_busy_response_def
    by (auto simp: request_prologue_enc [OF assms(3,4)] not_less length_header if_Err_eq_Ok(1)
        split: if_split_asm)
  from busy_results_sound [OF assms(2) results] obtain k where k: "k < length (cb_ops b)"
    "unat cnt = Suc k" "\<forall>i < k. read_only_op (fst (cb_ops b ! i))"
    "\<not> owner_seqid_op (fst (cb_ops b ! k))" "status_err stat_error status = Some e" by blast
  have "cnt = word_of_nat (Suc k)" using k(2) [symmetric] by simp
  with head busy k show ?thesis
    by (intro exI [of _ k] exI [of _ status] exI [of _ buf3])
      (auto simp: reply_head_def rbind_def rreturn_def)
qed

text \<open>The results of operations that succeeded, and the reply of a server that is busy at the
  operation after them.\<close>

definition result_ok :: "u32 \<times> bytes \<Rightarrow> bool" where
  "result_ok r \<longleftrightarrow>
     (if fst r = 10 then \<exists>v. length v < 2 ^ 32 \<and> snd r = opaque_enc v
      else if fst r = 3 then length (snd r) = 8
      else if fst r = 9
      then \<exists>ws v. length ws < 2 ^ 32 \<and> length v < 2 ^ 32 \<and> snd r = bitmap_enc ws @ opaque_enc v
      else snd r = [])"

definition result_enc :: "u32 \<times> bytes \<Rightarrow> bytes" where
  "result_enc r = u32_to_be (fst r) @ u32_to_be 0 @ snd r"

definition busy_reply40 :: "u32 \<Rightarrow> bytes \<Rightarrow> (u32 \<times> bytes) list \<Rightarrow> u32 \<Rightarrow> bytes" where
  "busy_reply40 status tag results opcode =
     u32_to_be status @ opaque_enc tag @ u32_to_be (word_of_nat (Suc (length results)))
     @ concat (map result_enc results) @ u32_to_be opcode @ u32_to_be status"

lemma skip_reply_enc:
  "result_ok (opcode, res) \<Longrightarrow> read_only_op opcode \<Longrightarrow> skip_reply opcode (res @ d) = Ok ((), d)"
  by (auto simp: result_ok_def skip_reply_def read_only_op_def advance_def rreturn_def
      rbind_def [of "skip_words _ _"] skip_words_enc split: if_splits)

lemma busy_results_complete:
  assumes "list_all args_ok done_ops" "list_all result_ok results" "map fst results = map fst done_ops"
    and "list_all (\<lambda>op. read_only_op (fst op)) done_ops" "status \<noteq> 0" "\<not> owner_seqid_op opcode"
  shows "busy_results stat_error status (Suc (length results))
      (concat (map result_enc results) @ u32_to_be opcode @ u32_to_be status)
      (concat (map op_enc done_ops) @ u32_to_be opcode @ d) = Ok (status_err stat_error status)"
  using assms
proof (induction results arbitrary: done_ops)
  case Nil
  then show ?case
    using take_u32_enc [of _ status "[]"] by (simp add: take_u32_enc)
next
  case (Cons r results)
  then obtain op ops where ops: "done_ops = op # ops" "fst r = fst op" "map fst results = map fst ops"
    by (cases done_ops) auto
  obtain code args res where "op = (code, args)" "r = (code, res)" using ops(2) by (cases op, cases r) auto
  with Cons ops show ?case
    by (simp add: op_enc_pair result_enc_def take_u32_enc skip_request_enc skip_reply_enc)
qed

text \<open>A busy reply to a request whose earlier operations only read is recognised: the request is
  retried on the status the server gave.\<close>

theorem busy_reply_retried:
  assumes "cb_ops b = done_ops @ (opcode, args) # rest" "cb_minor_version b = 0"
    and "list_all args_ok done_ops" "list_all (\<lambda>op. read_only_op (fst op)) done_ops"
    and "list_all result_ok results" "map fst results = map fst done_ops" "\<not> owner_seqid_op opcode"
    and "status \<in> {10008, 10013}" "stat_error status = None"
    and "length (cb_ops b) < 2 ^ 32" "length done_ops < 128"
    and "length (au_body auth) < 2 ^ 32" "length (cb_tag b) < 2 ^ 32" "length tag < 2 ^ 32"
  shows "retryable_busy_response stat_error (busy_reply40 status tag results opcode)
           (v0_encode_with_header b auth) = Ok (Some (Nfs4 status))"
proof -
  have len: "length results = length done_ops" using arg_cong [OF assms(6), of length] by simp
  define cnt :: u32 where "cnt = word_of_nat (Suc (length results))"
  have cnt: "unat cnt = Suc (length results)"
    unfolding cnt_def using assms(11) len by (intro unat_of_nat_small) simp
  have total: "unat (word_of_nat (length (cb_ops b)) :: u32) = length (cb_ops b)"
    using assms(10) by (intro unat_of_nat_small) simp
  have guard: "cnt \<noteq> 0" "\<not> cnt > 128" "\<not> cnt > word_of_nat (length (cb_ops b))"
    using cnt total assms(1,11) len by (auto simp: word_less_nat_alt)
  have results: "busy_results stat_error status (unat cnt)
      (concat (map result_enc results) @ u32_to_be opcode @ u32_to_be status)
      (concat (map op_enc (cb_ops b))) = Ok (Some (Nfs4 status))"
    using busy_results_complete [OF assms(3,5,6,4) _ assms(7), of status stat_error
        "args @ concat (map op_enc rest)"] assms(1,8,9) cnt
    by (auto simp: op_enc_pair status_err_def check_status_def simp del: busy_results.simps)
  show ?thesis
    using assms(2,8) guard results
    unfolding retryable_busy_response_def busy_reply40_def cnt_def [symmetric]
    by (auto simp: take_u32_enc take_opaque_enc [OF assms(14)] not_less [of _ 16] length_header
        request_prologue_enc [OF assms(12,13)])
qed

text \<open>What the builder produces satisfies \<open>args_ok\<close>.\<close>

lemma cb_operation_ops [simp]: "cb_ops (cb_operation b opcode args) = cb_ops b @ [(opcode, args)]"
  "cb_tag (cb_operation b opcode args) = cb_tag b"
  "cb_minor_version (cb_operation b opcode args) = cb_minor_version b"
  by (simp_all add: cb_operation_def)

lemma v0_new_ops [simp]: "cb_ops (v0_new tag) = []" "cb_tag (v0_new tag) = tag"
  "cb_minor_version (v0_new tag) = 0"
  by (simp_all add: v0_new_def compound_new_def)

lemma v0_read_only_args_ok:
  "length fh < 2 ^ 32 \<Longrightarrow> cb_ops (v0_putfh b fh) = cb_ops b @ [(22, opaque_enc fh)] \<and> args_ok (22, opaque_enc fh)"
  "length name < 2 ^ 32 \<Longrightarrow> cb_ops (v0_lookup b name) = cb_ops b @ [(15, opaque_enc name)] \<and> args_ok (15, opaque_enc name)"
  "length ws < 2 ^ 32 \<Longrightarrow> cb_ops (v0_getattr b ws) = cb_ops b @ [(9, bitmap_enc ws)] \<and> args_ok (9, bitmap_enc ws)"
  "cb_ops (v0_access b w) = cb_ops b @ [(3, u32_to_be w)] \<and> args_ok (3, u32_to_be w)"
  "cb_ops (v0_putrootfh b) = cb_ops b @ [(24, [])] \<and> args_ok (24, [])"
  "cb_ops (v0_getfh b) = cb_ops b @ [(10, [])] \<and> args_ok (10, [])"
  "cb_ops (v0_savefh b) = cb_ops b @ [(32, [])] \<and> args_ok (32, [])"
  by (auto simp: v0_putfh_def cb_putfh_def v0_lookup_def cb_lookup_def v0_getattr_def v0_access_def
      v0_putrootfh_def cb_putrootfh_def v0_getfh_def cb_getfh_def v0_savefh_def args_ok_def xdr_opaque_eq
      xdr_bitmap_eq xdr_u32_eq opcode_defs)

lemma other_args_ok: "\<not> read_only_op opcode \<Longrightarrow> args_ok (opcode, args)"
  by (auto simp: args_ok_def read_only_op_def)

definition sample_setattr :: compound_builder where
  "sample_setattr = v0_setattr (v0_putfh (v0_new []) [7]) (replicate 16 0) [] []"

lemma sample_setattr_ops:
  "cb_ops sample_setattr = [(22, opaque_enc [7])] @ [(34, replicate 16 0 @ bitmap_enc [] @ opaque_enc [])]"
  "cb_tag sample_setattr = []" "cb_minor_version sample_setattr = 0"
  by (simp_all add: sample_setattr_def v0_setattr_def v0_putfh_def cb_putfh_def xdr_opaque_eq
      xdr_bitmap_eq opcode_defs)

lemma sample_setattr_args: "list_all args_ok (cb_ops sample_setattr)"
  using v0_read_only_args_ok(1) [of "[7]"] other_args_ok [of 34]
  by (simp add: sample_setattr_ops read_only_op_def)

theorem busy_retry_unexecuted_witness:
  "\<exists>k status rest. k < length (cb_ops sample_setattr)
     \<and> reply_head (busy_reply40 10008 [] [(22, [])] 34) = Ok ((status, word_of_nat (Suc k)), rest)
     \<and> status \<in> {10008, 10013}
     \<and> (\<forall>i < k. read_only_op (fst (cb_ops sample_setattr ! i)))
     \<and> \<not> owner_seqid_op (fst (cb_ops sample_setattr ! k))
     \<and> status_err (\<lambda>_. None) status = Some (Nfs4 10008)"
proof (rule busy_retry_unexecuted [where auth = auth_new_null])
  show "retryable_busy_response (\<lambda>_. None) (busy_reply40 10008 [] [(22, [])] 34)
      (v0_encode_with_header sample_setattr auth_new_null) = Ok (Some (Nfs4 10008))"
    using sample_setattr_args
    by (intro busy_reply_retried [of _ "[(22, opaque_enc [7])]"])
      (simp_all add: sample_setattr_ops read_only_op_def owner_seqid_op_def result_ok_def auth_new_null_def)
qed (simp_all add: sample_setattr_args sample_setattr_ops(2) auth_new_null_def)

subsection \<open>What a decoder accepts\<close>

text \<open>The successful reply: status, tag, number of results, then the results.\<close>

definition ok_reply :: "bytes \<Rightarrow> u32 \<Rightarrow> bytes \<Rightarrow> bytes" where
  "ok_reply tag cnt results = u32_to_be 0 @ opaque_enc tag @ u32_to_be cnt @ results"

definition op_ok40 :: "u32 \<Rightarrow> bytes" where
  "op_ok40 opcode = u32_to_be opcode @ u32_to_be 0"

lemma response_ops_enc [simp]:
  "length tag < 2 ^ 32 \<Longrightarrow> response_ops stat_error (ok_reply tag cnt d) = Ok (cnt, d)"
  by (simp add: response_ops_def ok_reply_def take_u32_enc)

lemma expect_op_enc [simp]: "expect_op stat_error opcode name (op_ok40 opcode @ d) = Ok ((), d)"
  by (simp add: expect_op_def op_ok40_def lift_def)

lemma expect_count_enc [simp]:
  "length tag < 2 ^ 32 \<Longrightarrow> expect_count stat_error name cnt rest (ok_reply tag cnt d) = rest d"
  by (simp add: expect_count_def rbind_def)

lemma rbind_expect_op_enc [simp]:
  "rbind (expect_op stat_error opcode name) f (op_ok40 opcode @ d) = f () d"
  by (simp add: rbind_def)

lemma take_stateid_enc: "length s = 16 \<Longrightarrow> take_stateid what (s @ d) = Ok (s, d)"
  by (simp add: take_stateid_def get_bytes_def)

lemma rbind_take_stateid_enc [simp]: "length s = 16 \<Longrightarrow> rbind (take_stateid what) f (s @ d) = f s d"
  by (simp add: rbind_def take_stateid_enc)

lemma rbind_skip_bitmap40_enc [simp]:
  "length ws < 2 ^ 32 \<Longrightarrow> rbind (skip_bitmap40 what) f (bitmap_enc ws @ d) = f () d"
  by (simp add: skip_bitmap40_def bitmap_enc_def rbind_def [of "skip_bitmap40 what"] rbind_assoc
      unat_of_nat_small rbind_def [of "advance _"] advance_def)

definition ace_enc40 :: "u32 \<Rightarrow> u32 \<Rightarrow> u32 \<Rightarrow> bytes \<Rightarrow> bytes" where
  "ace_enc40 typ flags access who = u32_to_be typ @ u32_to_be flags @ u32_to_be access @ opaque_enc who"

lemma rbind_skip_ace40_enc [simp]:
  "length who < 2 ^ 32 \<Longrightarrow> rbind skip_ace40 f (ace_enc40 typ flags access who @ d) = f () d"
  by (simp add: skip_ace40_def ace_enc40_def rbind_assoc)

definition limit_enc :: "u64 + u32 \<times> u32 \<Rightarrow> bytes" where
  "limit_enc l = (case l of Inl filesize \<Rightarrow> u32_to_be 1 @ u64_to_be filesize
                         | Inr (blocks, bytes_per) \<Rightarrow> u32_to_be 2 @ u32_to_be blocks @ u32_to_be bytes_per)"

text \<open>A delegation as the server sends it: its kind, its stateid, the recall flag, for a write delegation
  the space limit, and the access control entry.\<close>

definition delegation_enc ::
  "delegation_grant option \<Rightarrow> u64 + u32 \<times> u32 \<Rightarrow> u32 \<Rightarrow> u32 \<Rightarrow> u32 \<Rightarrow> bytes \<Rightarrow> bytes" where
  "delegation_enc delegation limit typ flags access who =
     (case delegation of
        None \<Rightarrow> u32_to_be 0
      | Some g \<Rightarrow>
          (case dg_kind g of
             Deleg_Read \<Rightarrow> u32_to_be 1 @ dg_stateid g @ bool_enc (dg_recall g)
           | Deleg_Write \<Rightarrow> u32_to_be 2 @ dg_stateid g @ bool_enc (dg_recall g) @ limit_enc limit)
          @ ace_enc40 typ flags access who)"

definition block_limited :: "open_result \<Rightarrow> u64 + u32 \<times> u32 \<Rightarrow> bool" where
  "block_limited opened limit \<longleftrightarrow>
     (case or_delegation opened of Some g \<Rightarrow> dg_kind g = Deleg_Write \<and> \<not> isl limit | None \<Rightarrow> False)"

lemma rbind_take_bool_enc [simp]: "rbind (take_u32 what) f (bool_enc v @ d) = f (if v then 1 else 0) d"
  by (simp add: bool_enc_def)

lemma rbind_skip_limit40_size [simp]:
  "rbind skip_limit40 f (limit_enc (Inl filesize) @ d) = f () d"
  by (simp add: skip_limit40_def limit_enc_def rbind_def [of skip_limit40] rbind_assoc advance_def)

lemma decode_delegation_enc:
  assumes "length who < 2 ^ 32" "\<forall>g. delegation = Some g \<longrightarrow> length (dg_stateid g) = 16"
    and "\<And>g. delegation = Some g \<Longrightarrow> dg_kind g = Deleg_Write \<Longrightarrow> isl limit"
  shows "decode_delegation (delegation_enc delegation limit typ flags access who @ d) = Ok (delegation, d)"
proof (cases delegation)
  case (Some g)
  show ?thesis
  proof (cases "dg_kind g")
    case Deleg_Write
    then obtain filesize where "limit = Inl filesize" using assms(3) [OF Some] by (cases limit) auto
    with Some Deleg_Write assms(1,2) show ?thesis
      by (simp add: decode_delegation_def delegation_enc_def rreturn_def)
  qed (use Some assms(1,2) in \<open>simp add: decode_delegation_def delegation_enc_def rreturn_def\<close>)
qed (simp add: decode_delegation_def delegation_enc_def rreturn_def)

definition open_reply40 ::
  "bytes \<Rightarrow> open_result \<Rightarrow> bytes \<Rightarrow> u32 \<Rightarrow> u32 list \<Rightarrow> bytes \<Rightarrow> bytes \<Rightarrow> bytes" where
  "open_reply40 tag opened change_info flags attrset delegation fh =
     ok_reply tag 3
       (op_ok40 OP_PUTFH @ op_ok40 OP_OPEN @ or_stateid opened @ change_info @ u32_to_be flags
        @ bitmap_enc attrset @ delegation @ op_ok40 OP_GETFH @ opaque_enc fh)"

text \<open>C34. Decoding an OPEN reply gives back the stateid, whether a confirmation is required, the
  delegation and the file handle that the server sent, for every reply without a delegation, with a read
  delegation, or with a write delegation that is limited by a file size.  The remaining replies, with a
  write delegation limited by blocks, are the subject of the next property.\<close>

theorem open_reply_roundtrip:
  assumes "length tag < 2 ^ 32" "length (or_stateid opened) = 16" "length change_info = 20"
    and "length attrset < 2 ^ 32" "length who < 2 ^ 32" "length fh < 2 ^ 32"
    and "\<forall>g. or_delegation opened = Some g \<longrightarrow> length (dg_stateid g) = 16"
    and "or_confirm_required opened \<longleftrightarrow> flags AND OPEN4_RESULT_CONFIRM \<noteq> 0"
    and "\<not> block_limited opened limit"
  shows "decode_open_response stat_error
           (open_reply40 tag opened change_info flags attrset
              (delegation_enc (or_delegation opened) limit typ aceflags access who) fh)
         = Ok ((opened, fh), [])"
proof -
  have grant: "rbind decode_delegation f
      (delegation_enc (or_delegation opened) limit typ aceflags access who @ d)
      = f (or_delegation opened) d" for f :: "_ \<Rightarrow> ('a, nfs_error) reader" and d
    using decode_delegation_enc [OF assms(5,7), of limit "typ" aceflags access d] assms(9)
    by (simp add: rbind_def block_limited_def split: option.splits)
  have fh: "rbind (take_opaque what) f (opaque_enc fh) = f fh []"
    for what and f :: "_ \<Rightarrow> ('a, nfs_error) reader"
    using rbind_take_opaque_enc [OF assms(6), of what f "[]"] by simp
  show ?thesis
    using assms(1-4,8)
    by (simp add: decode_open_response_def open_reply40_def grant fh rreturn_def)
qed

definition sample_opened :: open_result where
  "sample_opened = \<lparr>or_stateid = replicate 16 1, or_confirm_required = True,
     or_delegation = Some \<lparr>dg_kind = Deleg_Write, dg_stateid = replicate 16 2, dg_recall = False\<rparr>\<rparr>"

theorem open_reply_roundtrip_witness:
  "decode_open_response (\<lambda>_. None)
     (open_reply40 [] sample_opened (replicate 20 0) 2 []
        (delegation_enc (or_delegation sample_opened) (Inl 4096) 0 0 1 []) [5]) = Ok ((sample_opened, [5]), [])"
  by (rule open_reply_roundtrip) (simp_all add: sample_opened_def OPEN4_RESULT_CONFIRM_def block_limited_def)







end
