(* ===== verification/State40.thy ===== *)
theory State40
  imports NFS_Prelude "HOL-Library.AList"
begin

text \<open>
  The open files and byte-range locks an NFSv4.0 mount holds (\<open>src/src/nfs40/state.rs\<close>).

  A lane is shared: \<open>Arc<Mutex<OwnerLane>>\<close> and \<open>Arc<Mutex<LockLane>>\<close> are indices into the list of the
  lanes allocated so far, and \<open>Arc::ptr_eq\<close> compares indices.  A \<open>HashMap\<close> is an association list, whose
  order stands for the unspecified iteration order.  The \<open>io_fence\<close> of a lane orders I/O against CLOSE and
  holds no data.
\<close>

record owner_lane =
  ol_owner :: u64
  ol_next_seqid :: u32
  ol_stateid :: bytes
  ol_fh :: bytes
  ol_access :: u32
  ol_write_verifier :: "bytes option"
  ol_closing :: bool

record lock_lane =
  ll_owner :: u64
  ll_open_owner :: u64
  ll_owner_wire :: bytes
  ll_next_seqid :: u32
  ll_stateid :: bytes
  ll_fh :: bytes
  ll_lock_type :: u32
  ll_offset :: u64
  ll_length :: u64

subsection \<open>Locks\<close>

record lock_state =
  ls_heap :: "lock_lane list"
  ls_lanes :: "(bytes \<times> nat) list"
  ls_aliases :: "(bytes \<times> nat) list"

definition lock_state_default :: lock_state where
  "lock_state_default = \<lparr>ls_heap = [], ls_lanes = [], ls_aliases = []\<rparr>"

definition lock_register :: "lock_lane \<Rightarrow> lock_state \<Rightarrow> nat \<times> lock_state" where
  "lock_register lane s =
     (let stateid = ll_stateid lane; a = length (ls_heap s) in
      (a, s\<lparr>ls_heap := ls_heap s @ [lane], ls_lanes := AList.update stateid a (ls_lanes s)\<rparr>))"

definition by_stateid :: "lock_state \<Rightarrow> bytes \<Rightarrow> nat option" where
  "by_stateid s stateid =
     (case map_of (ls_lanes s) stateid of
        Some lane \<Rightarrow> Some lane
      | None \<Rightarrow> map_of (ls_aliases s) stateid)"

definition retain_others :: "nat \<Rightarrow> (bytes \<times> nat) list \<Rightarrow> (bytes \<times> nat) list" where
  "retain_others lane xs = filter (\<lambda>(_, candidate). candidate \<noteq> lane) xs"

definition lock_remove :: "bytes \<Rightarrow> lock_state \<Rightarrow> lock_state" where
  "lock_remove stateid s =
     (case (case map_of (ls_lanes s) stateid of
              Some lane \<Rightarrow> Some (lane, s\<lparr>ls_lanes := AList.delete stateid (ls_lanes s)\<rparr>)
            | None \<Rightarrow>
                (case map_of (ls_aliases s) stateid of
                   Some lane \<Rightarrow> Some (lane, s\<lparr>ls_aliases := AList.delete stateid (ls_aliases s)\<rparr>)
                 | None \<Rightarrow> None)) of
        None \<Rightarrow> s
      | Some (lane, s) \<Rightarrow>
          s\<lparr>ls_lanes := retain_others lane (ls_lanes s), ls_aliases := retain_others lane (ls_aliases s)\<rparr>)"

definition has_fh :: "lock_state \<Rightarrow> bytes \<Rightarrow> bool" where
  "has_fh s fh = list_ex (\<lambda>(_, lane). ll_fh (ls_heap s ! lane) = fh) (ls_lanes s)"

definition lock_snapshot :: "lock_state \<Rightarrow> nat list" where
  "lock_snapshot s = sort_key (\<lambda>lane. ll_owner (ls_heap s ! lane)) (map snd (ls_lanes s))"

definition rekey :: "bytes \<Rightarrow> bytes \<Rightarrow> nat \<Rightarrow> lock_state \<Rightarrow> lock_state" where
  "rekey old_stateid new_stateid lane s =
     s\<lparr>ls_lanes := AList.update new_stateid lane (AList.delete old_stateid (ls_lanes s)),
       ls_aliases := AList.update old_stateid lane (ls_aliases s)\<rparr>"

definition lock_clear :: "lock_state \<Rightarrow> lock_state" where
  "lock_clear s = s\<lparr>ls_lanes := [], ls_aliases := []\<rparr>"

subsection \<open>Open files\<close>

record open_state =
  os_heap :: "owner_lane list"
  os_lanes :: "(u64 \<times> nat) list"
  os_by_fh :: "(bytes \<times> u64 list) list"

definition open_state_default :: open_state where
  "open_state_default = \<lparr>os_heap = [], os_lanes = [], os_by_fh = []\<rparr>"

definition fh_owners :: "open_state \<Rightarrow> bytes \<Rightarrow> u64 list" where
  "fh_owners s fh = (case map_of (os_by_fh s) fh of Some owners \<Rightarrow> owners | None \<Rightarrow> [])"

definition open_register :: "owner_lane \<Rightarrow> open_state \<Rightarrow> nat \<times> open_state" where
  "open_register lane s =
     (let owner = ol_owner lane; fh = ol_fh lane; a = length (os_heap s) in
      (a, s\<lparr>os_heap := os_heap s @ [lane], os_lanes := AList.update owner a (os_lanes s),
            os_by_fh := AList.update fh (fh_owners s fh @ [owner]) (os_by_fh s)\<rparr>))"

definition by_owner :: "open_state \<Rightarrow> u64 \<Rightarrow> nat option" where
  "by_owner s owner = map_of (os_lanes s) owner"

text \<open>The owners of the file handle are read once; each lane is then looked up in the table as it is
  at that moment, \<open>seen\<close> one entry per iteration.  An owner without a lane ends the search.\<close>

fun for_fh_loop :: "(nat \<Rightarrow> open_state) \<Rightarrow> u32 \<Rightarrow> nat \<Rightarrow> u64 list \<Rightarrow> nat option" where
  "for_fh_loop seen required_access i [] = None"
| "for_fh_loop seen required_access i (owner # owners) =
     (case by_owner (seen i) owner of
        None \<Rightarrow> None
      | Some lane \<Rightarrow>
          if ol_access (os_heap (seen i) ! lane) AND required_access \<noteq> 0 then Some lane
          else for_fh_loop seen required_access (Suc i) owners)"

definition for_fh :: "(nat \<Rightarrow> open_state) \<Rightarrow> open_state \<Rightarrow> bytes \<Rightarrow> u32 \<Rightarrow> nat option" where
  "for_fh seen s fh required_access =
     (case map_of (os_by_fh s) fh of
        None \<Rightarrow> None
      | Some owners \<Rightarrow> for_fh_loop seen required_access 0 (rev owners))"

text \<open>\<open>remove\<close> at its two await points: the lane, then the index by file handle.\<close>

definition remove_lane :: "u64 \<Rightarrow> open_state \<Rightarrow> open_state" where
  "remove_lane owner s = s\<lparr>os_lanes := AList.delete owner (os_lanes s)\<rparr>"

definition remove_index :: "u64 \<Rightarrow> bytes \<Rightarrow> open_state \<Rightarrow> open_state" where
  "remove_index owner fh s =
     (case map_of (os_by_fh s) fh of
        None \<Rightarrow> s
      | Some owners \<Rightarrow>
          let owners = filter (\<lambda>candidate. candidate \<noteq> owner) owners in
          if owners = [] then s\<lparr>os_by_fh := AList.delete fh (os_by_fh s)\<rparr>
          else s\<lparr>os_by_fh := AList.update fh owners (os_by_fh s)\<rparr>)"

definition open_remove :: "u64 \<Rightarrow> bytes \<Rightarrow> open_state \<Rightarrow> open_state" where
  "open_remove owner fh s = remove_index owner fh (remove_lane owner s)"

definition open_snapshot :: "open_state \<Rightarrow> nat list" where
  "open_snapshot s = List.map_filter (\<lambda>owner. map_of (os_lanes s) owner) (sort (map fst (os_lanes s)))"

definition open_clear :: "open_state \<Rightarrow> open_state" where
  "open_clear s = s\<lparr>os_lanes := [], os_by_fh := []\<rparr>"

subsection \<open>Owner tokens\<close>

definition encode_owner :: "u64 \<Rightarrow> u64 \<Rightarrow> bytes" where
  "encode_owner issuer owner = u64_to_be issuer @ u64_to_be owner"

definition decode_owner :: "bytes \<Rightarrow> (u64 \<times> u64) option" where
  "decode_owner state =
     (if length state \<noteq> 16 then None
      else Some (u64_from_be (take 8 state), u64_from_be (drop 8 state)))"

subsection \<open>Tokens name their owner\<close>

lemma decode_owner_exact: "decode_owner state = Some (issuer, owner) \<longleftrightarrow> state = encode_owner issuer owner"
proof
  assume "decode_owner state = Some (issuer, owner)"
  then have len: "length state = 16" and "issuer = u64_from_be (take 8 state)"
    and "owner = u64_from_be (drop 8 state)"
    by (auto simp: decode_owner_def split: if_splits)
  then show "state = encode_owner issuer owner"
    by (simp add: encode_owner_def u64_to_from_be)
next
  assume "state = encode_owner issuer owner"
  then show "decode_owner state = Some (issuer, owner)" by (simp add: decode_owner_def encode_owner_def)
qed

subsection \<open>Lock stateids\<close>

text \<open>The contract of the lock table: one table from stateids to locks.  Registering a lock adds its
  stateid, reclaiming it adds the new stateid and keeps the old one, and unlocking through any of its
  stateids removes them all.\<close>

datatype lock_event =
  Ev_Register lock_lane | Ev_Rekey bytes bytes | Ev_Unlock bytes | Ev_Lost

primrec lock_step :: "lock_state \<Rightarrow> lock_event \<Rightarrow> lock_state" where
  "lock_step s (Ev_Register lane) = snd (lock_register lane s)"
| "lock_step s (Ev_Rekey old_stateid new_stateid) =
     (case by_stateid s old_stateid of
        None \<Rightarrow> s | Some lane \<Rightarrow> rekey old_stateid new_stateid lane s)"
| "lock_step s (Ev_Unlock stateid) = lock_remove stateid s"
| "lock_step s Ev_Lost = lock_clear s"

type_synonym lock_table = "nat \<times> (bytes \<Rightarrow> nat option)"

primrec table_step :: "lock_table \<Rightarrow> lock_event \<Rightarrow> lock_table" where
  "table_step t (Ev_Register lane) = (Suc (fst t), (snd t)(ll_stateid lane \<mapsto> fst t))"
| "table_step t (Ev_Rekey old_stateid new_stateid) =
     (case snd t old_stateid of
        None \<Rightarrow> t | Some lane \<Rightarrow> (fst t, (snd t)(old_stateid \<mapsto> lane, new_stateid \<mapsto> lane)))"
| "table_step t (Ev_Unlock stateid) =
     (case snd t stateid of
        None \<Rightarrow> t | Some lane \<Rightarrow> (fst t, \<lambda>k. if snd t k = Some lane then None else snd t k))"
| "table_step t Ev_Lost = (fst t, Map.empty)"

text \<open>The server gives a new lock a stateid that no lock of the client still has.\<close>

primrec issued_fresh :: "lock_table \<Rightarrow> lock_event \<Rightarrow> bool" where
  "issued_fresh t (Ev_Register lane) \<longleftrightarrow> snd t (ll_stateid lane) = None"
| "issued_fresh t (Ev_Rekey old_stateid new_stateid) \<longleftrightarrow>
     snd t new_stateid = None \<or> snd t new_stateid = snd t old_stateid"
| "issued_fresh t (Ev_Unlock stateid) \<longleftrightarrow> True"
| "issued_fresh t Ev_Lost \<longleftrightarrow> True"

fun all_fresh :: "lock_table \<Rightarrow> lock_event list \<Rightarrow> bool" where
  "all_fresh t [] = True"
| "all_fresh t (ev # evs) = (issued_fresh t ev \<and> all_fresh (table_step t ev) evs)"

definition lock_abs :: "lock_state \<Rightarrow> lock_table" where
  "lock_abs s = (length (ls_heap s), by_stateid s)"

definition lock_wf :: "lock_state \<Rightarrow> bool" where
  "lock_wf s \<longleftrightarrow> distinct (map fst (ls_lanes s)) \<and> distinct (map fst (ls_aliases s))
     \<and> (\<forall>k a b. map_of (ls_lanes s) k = Some a \<longrightarrow> map_of (ls_aliases s) k = Some b \<longrightarrow> a = b)"

declare map_of_eq_Some_iff [simp del] Some_eq_map_of_iff [simp del]

lemma map_of_retain_others:
  "distinct (map fst xs) \<Longrightarrow>
   map_of (retain_others lane xs) k = (if map_of xs k = Some lane then None else map_of xs k)"
  unfolding retain_others_def
proof (induction xs)
  case (Cons x xs)
  obtain j a where x: "x = (j, a)" by (cases x)
  have "map_of xs j = None" using Cons.prems by (auto simp: x map_of_eq_None_iff)
  with Cons show ?case by (auto simp: x)
qed simp

lemma distinct_retain_others: "distinct (map fst xs) \<Longrightarrow> distinct (map fst (retain_others lane xs))"
  unfolding retain_others_def by (simp add: distinct_map_filter)

text \<open>The entry \<open>remove\<close> took out first is one that \<open>retain\<close> drops anyway.\<close>

lemma retain_others_delete:
  assumes "distinct (map fst xs)" "map_of xs stateid = Some lane"
  shows "retain_others lane (AList.delete stateid xs) = retain_others lane xs"
proof -
  have "a = lane" if "(stateid, a) \<in> set xs" for a
    using that assms by (simp add: map_of_is_SomeI)
  then show ?thesis
    unfolding retain_others_def AList.delete_eq filter_filter by (intro filter_cong) auto
qed

lemma lock_remove_eq:
  assumes "lock_wf s" "by_stateid s stateid = Some lane"
  shows "lock_remove stateid s = s\<lparr>ls_lanes := retain_others lane (ls_lanes s),
           ls_aliases := retain_others lane (ls_aliases s)\<rparr>"
  using assms
  by (cases "map_of (ls_lanes s) stateid")
    (auto simp: lock_remove_def by_stateid_def lock_wf_def retain_others_delete)

lemma lock_remove_None: "by_stateid s stateid = None \<Longrightarrow> lock_remove stateid s = s"
  by (auto simp: lock_remove_def by_stateid_def split: option.splits)

lemma by_stateid_shadow:
  "lock_wf s \<Longrightarrow> map_of (ls_aliases s) k = Some a \<Longrightarrow> by_stateid s k = Some a"
  by (auto simp: lock_wf_def by_stateid_def split: option.splits)

lemma lock_step_wf:
  assumes "lock_wf s" "issued_fresh (lock_abs s) ev"
  shows "lock_wf (lock_step s ev)"
proof (cases ev)
  case (Ev_Register lane)
  with assms show ?thesis
    by (auto simp: lock_register_def lock_wf_def lock_abs_def by_stateid_def update_conv' distinct_update Let_def
        split: option.splits if_splits)
next
  case (Ev_Rekey old_stateid new_stateid)
  show ?thesis
  proof (cases "by_stateid s old_stateid")
    case (Some lane)
    have "a = lane" if "map_of (ls_aliases s) new_stateid = Some a" for a
      using by_stateid_shadow [OF assms(1) that] assms(2) Some by (auto simp: Ev_Rekey lock_abs_def)
    with assms(1) Some show ?thesis
      by (auto simp: Ev_Rekey rekey_def lock_wf_def update_conv' delete_conv' distinct_update
          distinct_delete split: if_splits)
  qed (simp add: Ev_Rekey assms(1))
next
  case (Ev_Unlock stateid)
  with assms(1) show ?thesis
    by (cases "by_stateid s stateid")
      (auto simp: lock_remove_None lock_remove_eq lock_wf_def map_of_retain_others
        distinct_retain_others split: if_splits)
qed (simp add: lock_clear_def lock_wf_def)

lemma by_stateid_retain:
  assumes "lock_wf s"
  shows "by_stateid (s\<lparr>ls_lanes := retain_others lane (ls_lanes s),
                        ls_aliases := retain_others lane (ls_aliases s)\<rparr>) k
         = (if by_stateid s k = Some lane then None else by_stateid s k)"
  using assms
  by (cases "map_of (ls_lanes s) k"; cases "map_of (ls_aliases s) k")
    (auto simp: by_stateid_def lock_wf_def map_of_retain_others)

lemma lock_step_abs:
  assumes "lock_wf s"
  shows "lock_abs (lock_step s ev) = table_step (lock_abs s) ev"
proof (cases ev)
  case (Ev_Register lane)
  then show ?thesis
    by (auto simp: lock_abs_def lock_register_def by_stateid_def update_conv' Let_def fun_eq_iff
        split: option.splits)
next
  case (Ev_Rekey old_stateid new_stateid)
  then show ?thesis
    by (auto simp: lock_abs_def rekey_def by_stateid_def update_conv' delete_conv' fun_eq_iff
        split: option.splits)
next
  case (Ev_Unlock stateid)
  with assms show ?thesis
    by (auto simp: lock_abs_def lock_remove_None lock_remove_eq by_stateid_retain fun_eq_iff
        split: option.splits)
qed (auto simp: lock_abs_def lock_clear_def by_stateid_def fun_eq_iff)

text \<open>C35. A lock is found under every stateid it ever had until it is released, and under none
  afterwards: over every sequence of acquisitions, reclaims, releases and losses of the lease in which
  the server issues fresh stateids, looking up a stateid in the two tables of the code agrees with
  the single table of the contract.\<close>

theorem lock_lookup_refines:
  assumes "lock_wf s" "all_fresh (lock_abs s) evs"
  shows "lock_abs (foldl lock_step s evs) = foldl table_step (lock_abs s) evs"
  using assms
proof (induction evs arbitrary: s)
  case (Cons ev evs)
  then show ?case by (simp add: lock_step_abs lock_step_wf flip: lock_step_abs)
qed simp

definition sample_lock :: "u8 \<Rightarrow> lock_lane" where
  "sample_lock b =
     \<lparr>ll_owner = 1, ll_open_owner = 1, ll_owner_wire = [], ll_next_seqid = 1, ll_stateid = replicate 16 b,
      ll_fh = [5], ll_lock_type = 1, ll_offset = 0, ll_length = 10\<rparr>"

definition sample_lock_run :: "lock_event list" where
  "sample_lock_run =
     [Ev_Register (sample_lock 1), Ev_Register (sample_lock 2), Ev_Rekey (replicate 16 1) (replicate 16 3),
      Ev_Unlock (replicate 16 1)]"

theorem lock_lookup_refines_witness:
  "lock_abs (foldl lock_step lock_state_default sample_lock_run)
     = foldl table_step (lock_abs lock_state_default) sample_lock_run
   \<and> snd (foldl table_step (lock_abs lock_state_default) (take 3 sample_lock_run)) (replicate 16 1) = Some 0
   \<and> snd (foldl table_step (lock_abs lock_state_default) sample_lock_run) (replicate 16 3) = None
   \<and> snd (foldl table_step (lock_abs lock_state_default) sample_lock_run) (replicate 16 2) = Some 1"
proof (intro conjI)
  show "lock_abs (foldl lock_step lock_state_default sample_lock_run)
     = foldl table_step (lock_abs lock_state_default) sample_lock_run"
    by (rule lock_lookup_refines)
      (simp_all add: lock_wf_def lock_state_default_def lock_abs_def by_stateid_def sample_lock_run_def
        sample_lock_def)
qed (simp_all add: lock_abs_def lock_state_default_def by_stateid_def sample_lock_run_def sample_lock_def)

subsection \<open>Finding an open file\<close>

definition open_wf :: "open_state \<Rightarrow> bool" where
  "open_wf s \<longleftrightarrow> distinct (map fst (os_lanes s)) \<and> distinct (map fst (os_by_fh s))
     \<and> (\<forall>owner a. by_owner s owner = Some a \<longrightarrow> a < length (os_heap s) \<and> ol_owner (os_heap s ! a) = owner)
     \<and> (\<forall>fh. distinct (fh_owners s fh)
          \<and> set (fh_owners s fh) = {owner. \<exists>a. by_owner s owner = Some a \<and> ol_fh (os_heap s ! a) = fh})"

lemma open_wf_default: "open_wf open_state_default"
  by (simp add: open_wf_def open_state_default_def by_owner_def fh_owners_def)

lemma fh_owners_register:
  "fh_owners (snd (open_register lane s)) fh
     = (if fh = ol_fh lane then fh_owners s fh @ [ol_owner lane] else fh_owners s fh)"
  by (simp add: open_register_def fh_owners_def update_conv' Let_def)

lemma by_owner_register:
  "by_owner (snd (open_register lane s)) owner
     = (if owner = ol_owner lane then Some (length (os_heap s)) else by_owner s owner)"
  by (simp add: open_register_def by_owner_def update_conv' Let_def)

lemma heap_register: "os_heap (snd (open_register lane s)) = os_heap s @ [lane]"
  by (simp add: open_register_def Let_def)

lemma open_register_wf:
  assumes "open_wf s" "by_owner s (ol_owner lane) = None"
  shows "open_wf (snd (open_register lane s))"
  unfolding open_wf_def
proof (intro conjI allI impI)
  let ?s = "snd (open_register lane s)"
  show "distinct (map fst (os_lanes ?s))" "distinct (map fst (os_by_fh ?s))"
    using assms(1) by (simp_all add: open_wf_def open_register_def Let_def distinct_update)
  fix owner a assume "by_owner ?s owner = Some a"
  then show "a < length (os_heap ?s)" "ol_owner (os_heap ?s ! a) = owner"
    using assms(1) by (auto simp: by_owner_register heap_register open_wf_def nth_append less_Suc_eq
        split: if_splits)
next
  fix fh
  let ?s = "snd (open_register lane s)"
  have new: "ol_owner lane \<notin> set (fh_owners s fh)" for fh
    using assms by (auto simp: open_wf_def)
  show "distinct (fh_owners ?s fh)"
    using assms(1) new by (auto simp: fh_owners_register open_wf_def)
  have small: "a < length (os_heap s)" if "by_owner s owner = Some a" for owner a
    using that assms(1) by (auto simp: open_wf_def)
  show "set (fh_owners ?s fh) = {owner. \<exists>a. by_owner ?s owner = Some a \<and> ol_fh (os_heap ?s ! a) = fh}"
    using assms small new
    by (auto simp: fh_owners_register by_owner_register heap_register nth_append open_wf_def
        split: if_splits dest: small)
qed

lemma fh_owners_remove:
  "fh_owners (open_remove owner fh s) fh'
     = (if fh' = fh then filter (\<lambda>candidate. candidate \<noteq> owner) (fh_owners s fh) else fh_owners s fh')"
  by (auto simp: open_remove_def remove_index_def remove_lane_def fh_owners_def update_conv' delete_conv'
      Let_def split: option.splits)

lemma by_owner_remove: "by_owner (open_remove owner fh s) o' = (if o' = owner then None else by_owner s o')"
  by (auto simp: open_remove_def remove_index_def remove_lane_def by_owner_def delete_conv' Let_def
      split: option.splits)

lemma heap_remove: "os_heap (open_remove owner fh s) = os_heap s"
  by (auto simp: open_remove_def remove_index_def remove_lane_def Let_def split: option.splits)

lemma open_remove_wf:
  assumes "open_wf s" "by_owner s owner = Some a" "fh = ol_fh (os_heap s ! a)"
  shows "open_wf (open_remove owner fh s)"
  unfolding open_wf_def
proof (intro conjI allI impI)
  let ?s = "open_remove owner fh s"
  show "distinct (map fst (os_lanes ?s))" "distinct (map fst (os_by_fh ?s))"
    using assms(1)
    by (auto simp: open_wf_def open_remove_def remove_index_def remove_lane_def Let_def distinct_update
        distinct_delete split: option.splits)
  fix owner' a' assume "by_owner ?s owner' = Some a'"
  then show "a' < length (os_heap ?s)" "ol_owner (os_heap ?s ! a') = owner'"
    using assms(1) by (auto simp: by_owner_remove heap_remove open_wf_def split: if_splits)
next
  fix fh'
  let ?s = "open_remove owner fh s"
  show "distinct (fh_owners ?s fh')"
    using assms(1) by (auto simp: fh_owners_remove open_wf_def)
  show "set (fh_owners ?s fh') = {owner. \<exists>a. by_owner ?s owner = Some a \<and> ol_fh (os_heap ?s ! a) = fh'}"
    using assms by (auto simp: fh_owners_remove by_owner_remove heap_remove open_wf_def split: if_splits)
qed

text \<open>Updates of a lane behind its mutex keep its owner, file handle and access.\<close>

definition touch_lane :: "nat \<Rightarrow> (owner_lane \<Rightarrow> owner_lane) \<Rightarrow> open_state \<Rightarrow> open_state" where
  "touch_lane a f s = s\<lparr>os_heap := (os_heap s)[a := f (os_heap s ! a)]\<rparr>"

lemma touch_lane_wf:
  assumes "open_wf s"
    and "\<And>l. ol_owner (f l) = ol_owner l" "\<And>l. ol_fh (f l) = ol_fh l"
  shows "open_wf (touch_lane a f s)"
proof -
  let ?t = "touch_lane a f s"
  have same: "ol_owner (os_heap ?t ! b) = ol_owner (os_heap s ! b)"
    "ol_fh (os_heap ?t ! b) = ol_fh (os_heap s ! b)" for b
    by (cases "b = a \<and> a < length (os_heap s)"; auto simp: touch_lane_def assms(2,3) nth_list_update list_update_beyond)+
  have eqs: "by_owner ?t = by_owner s" "fh_owners ?t = fh_owners s" "length (os_heap ?t) = length (os_heap s)"
    "os_lanes ?t = os_lanes s" "os_by_fh ?t = os_by_fh s"
    by (simp_all add: touch_lane_def by_owner_def fh_owners_def fun_eq_iff)
  show ?thesis using assms(1) unfolding open_wf_def same eqs .
qed

lemma for_fh_loop_find:
  assumes "list_all (\<lambda>owner. by_owner s owner \<noteq> None) owners"
  shows "for_fh_loop (\<lambda>_. s) required i owners
    = find (\<lambda>a. ol_access (os_heap s ! a) AND required \<noteq> 0) (map (\<lambda>owner. the (by_owner s owner)) owners)"
  using assms by (induction owners arbitrary: i) auto

lemma find_SomeD: "find P xs = Some x \<Longrightarrow> x \<in> set xs \<and> P x"
  by (induction xs) (auto split: if_splits)

lemma find_NoneD: "find P xs = None \<Longrightarrow> x \<in> set xs \<Longrightarrow> \<not> P x"
  by (induction xs) (auto split: if_splits)

lemma fh_owner_iff:
  "open_wf s \<Longrightarrow> owner \<in> set (fh_owners s fh) \<longleftrightarrow> (\<exists>a. by_owner s owner = Some a \<and> ol_fh (os_heap s ! a) = fh)"
  by (simp add: open_wf_def)

lemma for_fh_find:
  assumes "open_wf s"
  shows "for_fh (\<lambda>_. s) s fh required
    = find (\<lambda>a. ol_access (os_heap s ! a) AND required \<noteq> 0)
        (map (\<lambda>owner. the (by_owner s owner)) (rev (fh_owners s fh)))"
proof -
  have "list_all (\<lambda>owner. by_owner s owner \<noteq> None) (rev (fh_owners s fh))"
    using fh_owner_iff [OF assms] by (auto simp: list_all_iff)
  then show ?thesis
    by (auto simp: for_fh_def fh_owners_def for_fh_loop_find split: option.splits)
qed

lemma for_fh_compatible:
  assumes "open_wf s" "by_owner s owner = Some a" "ol_fh (os_heap s ! a) = fh"
    and "ol_access (os_heap s ! a) AND required \<noteq> 0"
  shows "for_fh (\<lambda>_. s) s fh required \<noteq> None"
proof
  assume none: "for_fh (\<lambda>_. s) s fh required = None"
  have "owner \<in> set (fh_owners s fh)" using assms(1-3) fh_owner_iff by blast
  then have "a \<in> set (map (\<lambda>owner. the (by_owner s owner)) (rev (fh_owners s fh)))"
    using assms(2) by force
  from find_NoneD [OF none [unfolded for_fh_find [OF assms(1)]] this] assms(4) show False by blast
qed

text \<open>C36. Looking up an open file is exact while the table is not changed: the lane that is returned is
  registered for the file handle with a compatible access mode, and when none is returned no
  registered lane of that file is compatible.\<close>

theorem for_fh_exact:
  assumes "open_wf s"
  shows "case for_fh (\<lambda>_. s) s fh required of
           Some a \<Rightarrow> (\<exists>owner. by_owner s owner = Some a) \<and> ol_fh (os_heap s ! a) = fh
                     \<and> ol_access (os_heap s ! a) AND required \<noteq> 0
         | None \<Rightarrow> \<forall>owner a. by_owner s owner = Some a \<and> ol_fh (os_heap s ! a) = fh
                     \<longrightarrow> ol_access (os_heap s ! a) AND required = 0"
proof (cases "for_fh (\<lambda>_. s) s fh required")
  case None
  have "ol_access (os_heap s ! a) AND required = 0"
    if "by_owner s owner = Some a" "ol_fh (os_heap s ! a) = fh" for owner a
    using for_fh_compatible [OF assms that] None by blast
  with None show ?thesis by auto
next
  case (Some a)
  from find_SomeD [OF Some [unfolded for_fh_find [OF assms]]] obtain owner where
    "owner \<in> set (fh_owners s fh)" "a = the (by_owner s owner)"
    "ol_access (os_heap s ! a) AND required \<noteq> 0" by auto
  moreover then obtain b where "by_owner s owner = Some b" "ol_fh (os_heap s ! b) = fh"
    using fh_owner_iff [OF assms] by blast
  ultimately show ?thesis using Some by auto
qed

definition sample_lane :: "u64 \<Rightarrow> u32 \<Rightarrow> owner_lane" where
  "sample_lane owner access =
     \<lparr>ol_owner = owner, ol_next_seqid = 1, ol_stateid = replicate 16 0, ol_fh = [5], ol_access = access,
      ol_write_verifier = None, ol_closing = False\<rparr>"

definition two_opens :: open_state where
  "two_opens = snd (open_register (sample_lane 12 3) (snd (open_register (sample_lane 11 3) open_state_default)))"

lemma two_opens_wf: "open_wf two_opens"
proof -
  have empty: "by_owner open_state_default owner = None" for owner
    by (simp add: by_owner_def open_state_default_def)
  show ?thesis
    unfolding two_opens_def
    by (rule open_register_wf, rule open_register_wf, rule open_wf_default)
      (simp_all add: by_owner_register empty, simp_all add: sample_lane_def)
qed

lemma two_opens_facts: "fh_owners two_opens [5] = [11] @ [12]" "by_owner two_opens 11 = Some 0"
  "os_heap two_opens = [sample_lane 11 3, sample_lane 12 3]"
  by (simp_all add: two_opens_def fh_owners_register by_owner_register heap_register sample_lane_def,
      simp_all add: open_state_default_def fh_owners_def)

theorem for_fh_exact_witness:
  "open_wf two_opens \<and>
   (case for_fh (\<lambda>_. two_opens) two_opens [5] 1 of
      Some a \<Rightarrow> (\<exists>owner. by_owner two_opens owner = Some a) \<and> ol_fh (os_heap two_opens ! a) = [5]
                \<and> ol_access (os_heap two_opens ! a) AND 1 \<noteq> 0
    | None \<Rightarrow> \<forall>owner a. by_owner two_opens owner = Some a \<and> ol_fh (os_heap two_opens ! a) = [5]
                \<longrightarrow> ol_access (os_heap two_opens ! a) AND 1 = 0)"
  using for_fh_exact [OF two_opens_wf] two_opens_wf by blast

text \<open>A search that meets an owner without a lane ends there.\<close>

lemma for_fh_loop_stops:
  assumes "list_all (\<lambda>owner. by_owner s owner \<noteq> None) newer" "by_owner s w = None"
  shows "for_fh_loop (\<lambda>_. s) required i (newer @ w # older)
    = find (\<lambda>a. ol_access (os_heap s ! a) AND required \<noteq> 0) (map (\<lambda>owner. the (by_owner s owner)) newer)"
  using assms by (induction newer arbitrary: i) auto

lemma by_owner_remove_lane: "by_owner (remove_lane w s) v = (if v = w then None else by_owner s v)"
  by (simp add: remove_lane_def by_owner_def delete_conv')

text \<open>C37. While one open of a file is being closed, the older opens of the same file are hidden.
  Between the two steps of \<open>remove\<close> the owner that is being removed is listed for the file handle but has
  no lane, and \<open>for_fh\<close>, which goes from the newest owner to the oldest, gives up there: it finds the
  newest compatible open among those made after the one that is being closed, and nothing when there
  is none, although an older compatible open is registered before, during and after the close.\<close>

theorem for_fh_misses_open_file:
  assumes "fh_owners s fh = older @ w # newer" "v \<in> set older"
    and "open_wf s" "by_owner s v = Some a" "ol_access (os_heap s ! a) AND required \<noteq> 0"
  shows "for_fh (\<lambda>_. remove_lane w s) s fh required
        = find (\<lambda>a. ol_access (os_heap s ! a) AND required \<noteq> 0) (map (\<lambda>owner. the (by_owner s owner)) (rev newer))
    \<and> by_owner (remove_lane w s) v = Some a
    \<and> for_fh (\<lambda>_. open_remove w fh s) (open_remove w fh s) fh required \<noteq> None"
proof (intro conjI)
  have distinct: "distinct (older @ w # newer)" using assms(1,3) by (simp add: open_wf_def flip: assms(1))
  then have vw: "v \<noteq> w" and newer: "w \<notin> set newer" using assms(2) by auto
  let ?m = "remove_lane w s"
  have lanes: "by_owner ?m owner = by_owner s owner \<and> by_owner s owner \<noteq> None" if "owner \<in> set newer" for owner
    using that newer fh_owner_iff [OF assms(3), of owner fh] assms(1) by (auto simp: by_owner_remove_lane)
  have "map_of (os_by_fh s) fh = Some (older @ w # newer)"
    using assms(1) by (auto simp: fh_owners_def split: option.splits)
  moreover have "for_fh_loop (\<lambda>_. ?m) required 0 (rev newer @ w # rev older)
      = find (\<lambda>a. ol_access (os_heap ?m ! a) AND required \<noteq> 0) (map (\<lambda>owner. the (by_owner ?m owner)) (rev newer))"
    using lanes by (intro for_fh_loop_stops) (auto simp: list_all_iff by_owner_remove_lane)
  moreover have "map (\<lambda>owner. the (by_owner ?m owner)) (rev newer) = map (\<lambda>owner. the (by_owner s owner)) (rev newer)"
    using lanes by simp
  moreover have "os_heap ?m = os_heap s" by (simp add: remove_lane_def)
  ultimately show "for_fh (\<lambda>_. ?m) s fh required
      = find (\<lambda>a. ol_access (os_heap s ! a) AND required \<noteq> 0) (map (\<lambda>owner. the (by_owner s owner)) (rev newer))"
    by (simp add: for_fh_def)
  show "by_owner ?m v = Some a" using vw assms(4) by (simp add: by_owner_remove_lane)
  let ?s = "open_remove w fh s"
  have fh: "ol_fh (os_heap s ! a) = fh"
    using fh_owner_iff [OF assms(3), of v fh] assms(1,2,4) by auto
  obtain b where b: "by_owner s w = Some b" "ol_fh (os_heap s ! b) = fh"
    using fh_owner_iff [OF assms(3), of w fh] assms(1) by auto
  from open_remove_wf [OF assms(3) b(1) b(2) [symmetric]] have "open_wf ?s" .
  moreover have "by_owner ?s v = Some a" "ol_fh (os_heap ?s ! a) = fh"
    using vw assms(4) fh by (simp_all add: by_owner_remove heap_remove)
  ultimately show "for_fh (\<lambda>_. ?s) ?s fh required \<noteq> None"
    using assms(5) by (intro for_fh_compatible [of _ v a]) (simp_all add: heap_remove)
qed

theorem for_fh_misses_open_file_witness:
  "for_fh (\<lambda>_. remove_lane 12 two_opens) two_opens [5] 2 = None
   \<and> by_owner (remove_lane 12 two_opens) 11 = Some 0
   \<and> for_fh (\<lambda>_. open_remove 12 [5] two_opens) (open_remove 12 [5] two_opens) [5] 2 \<noteq> None"
  using for_fh_misses_open_file [OF two_opens_facts(1) _ two_opens_wf two_opens_facts(2), where required = 2]
  by (simp add: two_opens_facts sample_lane_def)

end
