(* ===== verification/Lease40.thy ===== *)
theory Lease40
  imports Errors
begin

text \<open>
  The lease of an NFSv4.0 mount and its renewal (\<open>src/src/nfs40/lease.rs\<close>).

  Instants and durations are nanoseconds.  Every function on \<open>LeaseState\<close> reads or writes atomics; the
  model takes the state a function finds as an argument and returns the state it leaves.  The renewal
  task is the function \<open>renewal_round\<close> for one round of its loop, with what happened in that round (the
  reply to RENEW, the deadline, the outcome of recovery, the clock) as arguments.
\<close>

datatype lifecycle = Ready | Reconnecting | Suspect | Recovering | Reclaiming | LostState | Closing | Closed

primrec show_lifecycle :: "lifecycle \<Rightarrow> string" where
  "show_lifecycle Ready = ''Ready''"
| "show_lifecycle Reconnecting = ''Reconnecting''"
| "show_lifecycle Suspect = ''Suspect''"
| "show_lifecycle Recovering = ''Recovering''"
| "show_lifecycle Reclaiming = ''Reclaiming''"
| "show_lifecycle LostState = ''LostState''"
| "show_lifecycle Closing = ''Closing''"
| "show_lifecycle Closed = ''Closed''"

record lease_state =
  le_lifecycle :: lifecycle
  le_generation :: u64
  le_healthy :: bool
  le_lease_seconds :: u32
  le_renewals :: u64
  le_deadline :: nat

record mount_health =
  mh_lifecycle :: lifecycle
  mh_generation :: u64
  mh_lease_healthy :: "bool option"
  mh_lease_seconds :: "u32 option"
  mh_lease_renewals :: u64
  mh_callback_healthy :: "bool option"

definition lease_duration :: "u32 \<Rightarrow> nat" where
  "lease_duration seconds = unat seconds * 1000000000"

definition lease_ready :: "nat \<Rightarrow> u64 \<Rightarrow> u32 \<Rightarrow> lease_state" where
  "lease_ready now generation lease_seconds =
     \<lparr>le_lifecycle = Ready, le_generation = generation, le_healthy = True,
      le_lease_seconds = lease_seconds, le_renewals = 0, le_deadline = now + lease_duration lease_seconds\<rparr>"

definition lease_health :: "lease_state \<Rightarrow> mount_health" where
  "lease_health s =
     \<lparr>mh_lifecycle = le_lifecycle s, mh_generation = le_generation s, mh_lease_healthy = Some (le_healthy s),
      mh_lease_seconds = Some (le_lease_seconds s), mh_lease_renewals = le_renewals s,
      mh_callback_healthy = None\<rparr>"

definition gate_stateful :: "lease_state \<Rightarrow> string \<Rightarrow> unit result" where
  "gate_stateful s operation =
     (let health = lease_health s in
      if mh_lifecycle health = Ready then Ok ()
      else let recovery = (if mh_lifecycle health = LostState then Reopen else VerifyThenResume) in
        Err (OperationOutcome (new_operation_outcome Uncertain ReplaySensitive recovery
          \<lparr>ctx_operation = operation, ctx_protocol = NFSv4p0, ctx_request_id = None\<rparr>
          (Rpc (''NFSv4.0 state-dependent operation gated while mount is '' @ show_lifecycle (mh_lifecycle health))))))"

text \<open>\<open>begin_stateful\<close> loads the generation, the lifecycle and the generation again until both loads of
  the generation agree; \<open>seen\<close> is the state at each load.\<close>

partial_function (option) begin_stateful ::
  "(nat \<Rightarrow> lease_state) \<Rightarrow> string \<Rightarrow> nat \<Rightarrow> u64 result option" where
  "begin_stateful seen operation i =
     (let before = le_generation (seen i) in
      case gate_stateful (seen (i + 1)) operation of
        Ok _ \<Rightarrow> let after = le_generation (seen (i + 2)) in
                if before = after then Some (Ok after) else begin_stateful seen operation (i + 3)
      | Err e \<Rightarrow> Some (Err e)
      | Panic \<Rightarrow> Some Panic)"

definition validate_stateful :: "lease_state \<Rightarrow> u64 \<Rightarrow> string \<Rightarrow> unit result" where
  "validate_stateful s generation operation =
     (if le_generation s = generation \<and> mh_lifecycle (lease_health s) = Ready then Ok ()
      else gate_stateful s operation)"

definition record_activity :: "nat \<Rightarrow> lease_state \<Rightarrow> lease_state" where
  "record_activity now s = s\<lparr>le_deadline := now + lease_duration (le_lease_seconds s)\<rparr>"

definition finish_stateful :: "nat \<Rightarrow> lease_state \<Rightarrow> u64 \<Rightarrow> string \<Rightarrow> lease_state \<times> unit result" where
  "finish_stateful now s generation operation =
     (if is_Ok (validate_stateful s generation operation) then (record_activity now s, Ok ())
      else (s, gate_stateful s operation))"

definition mark_ready :: "nat \<Rightarrow> lease_state \<Rightarrow> lease_state" where
  "mark_ready now s =
     (record_activity now s)\<lparr>le_renewals := le_renewals s + 1, le_healthy := True, le_lifecycle := Ready\<rparr>"

definition mark_suspect :: "lease_state \<Rightarrow> lease_state" where
  "mark_suspect s = s\<lparr>le_healthy := False, le_lifecycle := Suspect\<rparr>"

definition mark_reconnecting :: "lease_state \<Rightarrow> lease_state" where
  "mark_reconnecting s = s\<lparr>le_healthy := False, le_lifecycle := Reconnecting\<rparr>"

definition mark_recovering :: "lease_state \<Rightarrow> lease_state" where
  "mark_recovering s = s\<lparr>le_healthy := False, le_lifecycle := Recovering\<rparr>"

definition mark_reclaiming :: "lease_state \<Rightarrow> lease_state" where
  "mark_reclaiming s = s\<lparr>le_lifecycle := Reclaiming\<rparr>"

definition mark_closing :: "lease_state \<Rightarrow> lease_state" where
  "mark_closing s = s\<lparr>le_lifecycle := Closing\<rparr>"

definition mark_closed :: "lease_state \<Rightarrow> lease_state" where
  "mark_closed s = s\<lparr>le_healthy := False, le_lifecycle := Closed\<rparr>"

definition mark_lost :: "lease_state \<Rightarrow> lease_state" where
  "mark_lost s = s\<lparr>le_healthy := False, le_lifecycle := LostState, le_generation := le_generation s + 1\<rparr>"

subsection \<open>Renewal\<close>

definition NFS4ERR_EXPIRED :: u32 where "NFS4ERR_EXPIRED = 10011"
definition NFS4ERR_STALE_CLIENTID :: u32 where "NFS4ERR_STALE_CLIENTID = 10022"

text \<open>What ends the wait for RENEW: the deadline, or the reply at some instant.\<close>

datatype renewal_wait = Deadline_Passed | Replied nat "unit result"

text \<open>A recovery handler works on the lease it finds and reports whether it succeeded.\<close>

type_synonym recovery_handler = "lease_state \<Rightarrow> lease_state \<times> unit result"

text \<open>One round; the second component says whether the task goes on.  \<open>recovered_at\<close> is the instant at
  which the recovery handler returned, \<open>stopping\<close> what the task reads at the end of the round.\<close>

definition renewal_round ::
  "recovery_handler option \<Rightarrow> renewal_wait \<Rightarrow> nat \<Rightarrow> bool \<Rightarrow> lease_state \<Rightarrow> lease_state \<times> bool" where
  "renewal_round recovery waited recovered_at stopping s =
     (case waited of
        Deadline_Passed \<Rightarrow> (mark_lost s, False)
      | Replied now r \<Rightarrow>
          (case r of
             Ok _ \<Rightarrow> (mark_ready now s, \<not> stopping)
           | Err e \<Rightarrow>
               if e = Nfs4 NFS4ERR_EXPIRED \<or> e = Nfs4 NFS4ERR_STALE_CLIENTID
               then (case recovery of
                       Some recover \<Rightarrow>
                         let (s, outcome) = recover (mark_recovering s)
                         in (if is_Ok outcome then mark_ready recovered_at s else s, \<not> stopping)
                     | None \<Rightarrow> (mark_lost s, \<not> stopping))
               else if le_deadline s \<le> now then (mark_lost s, False)
               else (mark_suspect s, \<not> stopping)
           | Panic \<Rightarrow> (s, False)))"

text \<open>\<open>900 + sample % 201\<close> thousandths of the interval; \<open>mul_f64\<close> rounds to the nearest nanosecond.\<close>

definition renewal_per_mille :: "u16 \<Rightarrow> nat" where
  "renewal_per_mille sample = 900 + unat sample mod 201"

subsection \<open>What the generation protects\<close>

lemma gate_stateful_Ok: "gate_stateful s operation = Ok () \<longleftrightarrow> le_lifecycle s = Ready"
  by (simp add: gate_stateful_def lease_health_def Let_def)

lemma gate_stateful_not_Panic: "gate_stateful s operation \<noteq> Panic"
  by (simp add: gate_stateful_def Let_def)

lemma begin_stateful_quiet:
  "begin_stateful (\<lambda>_. s) operation i = Some (case gate_stateful s operation of
     Ok _ \<Rightarrow> Ok (le_generation s) | Err e \<Rightarrow> Err e | Panic \<Rightarrow> Panic)"
  by (subst begin_stateful.simps) (simp add: Let_def split: outcome.splits)

text \<open>An operation is admitted only if the mount was ready at some moment, and with a generation the
  mount had at that moment's two neighbours.\<close>

definition admitted_at :: "(nat \<Rightarrow> lease_state) \<Rightarrow> u64 \<Rightarrow> nat \<Rightarrow> bool" where
  "admitted_at seen generation j \<longleftrightarrow> le_generation (seen j) = generation
     \<and> le_lifecycle (seen (j + 1)) = Ready \<and> le_generation (seen (j + 2)) = generation"

lemma begin_stateful_admits:
  assumes "begin_stateful seen operation i = Some (Ok generation)"
  shows "\<exists>j \<ge> i. admitted_at seen generation j"
proof -
  have "\<forall>g. r = Ok g \<longrightarrow> (\<exists>j \<ge> i. admitted_at seen g j)"
    if "begin_stateful seen operation i = Some r" for r
  proof (rule begin_stateful.raw_induct
      [where P = "\<lambda>seen operation i r. \<forall>g. r = Ok g \<longrightarrow> (\<exists>j \<ge> i. admitted_at seen g j)", OF _ that])
    fix again :: "(nat \<Rightarrow> lease_state) \<Rightarrow> string \<Rightarrow> nat \<Rightarrow> u64 result option" and seen operation i r
    assume 1: "\<And>seen operation i r. again seen operation i = Some r
        \<Longrightarrow> \<forall>g. r = Ok g \<longrightarrow> (\<exists>j \<ge> i. admitted_at seen g j)"
      and 2: "(let before = le_generation (seen i) in
          case gate_stateful (seen (i + 1)) operation of
            Ok _ \<Rightarrow> let after = le_generation (seen (i + 2)) in
                    if before = after then Some (Ok after) else again seen operation (i + 3)
          | Err e \<Rightarrow> Some (Err e)
          | Panic \<Rightarrow> Some Panic) = Some r"
    show "\<forall>g. r = Ok g \<longrightarrow> (\<exists>j \<ge> i. admitted_at seen g j)"
    proof (cases "gate_stateful (seen (i + 1)) operation")
      case (Ok u)
      then have ready: "le_lifecycle (seen (i + 1)) = Ready"
        using gate_stateful_Ok [of "seen (i + 1)" operation] by simp
      show ?thesis
      proof (cases "le_generation (seen i) = le_generation (seen (i + 2))")
        case True
        with 2 Ok have "r = Ok (le_generation (seen i))" by (simp add: Let_def)
        moreover have "admitted_at seen (le_generation (seen i)) i"
          using True ready by (simp add: admitted_at_def)
        ultimately show ?thesis by blast
      next
        case False
        with 2 Ok have "again seen operation (i + 3) = Some r" by (simp add: Let_def)
        from 1 [OF this] show ?thesis using add_leD1 by blast
      qed
    qed (use 2 in \<open>auto simp: Let_def\<close>)
  qed
  with assms show ?thesis by blast
qed

text \<open>The generation an operation started with makes no difference to its validation.\<close>

lemma validate_ignores_generation: "validate_stateful s generation operation = gate_stateful s operation"
proof (cases "le_lifecycle s = Ready")
  case True
  then have "gate_stateful s operation = Ok ()" using gate_stateful_Ok by blast
  then show ?thesis by (simp add: validate_stateful_def)
qed (simp add: validate_stateful_def lease_health_def)

lemma finish_stateful_Ok: "snd (finish_stateful now s generation operation) = Ok () \<longleftrightarrow> le_lifecycle s = Ready"
  unfolding gate_stateful_Ok [of s operation, symmetric] finish_stateful_def validate_ignores_generation
  by (cases "gate_stateful s operation") simp_all

text \<open>C38. An operation that was under way while the mount lost its state is reported as successful
  once the mount is ready again.  It starts in generation \<open>g\<close>; the server has forgotten the client and
  recovery fails, which advances the generation; the next RENEW succeeds and the mount is ready; the
  check at the end of the operation accepts generation \<open>g\<close>.\<close>

theorem stale_generation_accepted:
  assumes "le_lifecycle s = Ready"
    and "renewal_round (Some recover) (Replied t1 (Err (Nfs4 NFS4ERR_STALE_CLIENTID))) t2 False s = (s1, going1)"
    and "recover = (\<lambda>s. (mark_lost (mark_reclaiming s), Err e))"
    and "renewal_round (Some recover) (Replied t3 (Ok ())) t4 False s1 = (s2, going2)"
  shows "(begin_stateful (\<lambda>_. s) operation 0 = Some (Ok (le_generation s)))
    \<and> going1
    \<and> (le_lifecycle s1 = LostState)
    \<and> le_generation s2 \<noteq> le_generation s
    \<and> (snd (finish_stateful now s2 (le_generation s) operation) = Ok ())"
proof (intro conjI)
  show "begin_stateful (\<lambda>_. s) operation 0 = Some (Ok (le_generation s))"
    using assms(1) gate_stateful_Ok [of s operation] by (simp add: begin_stateful_quiet)
  have s1: "going1" "le_lifecycle s1 = LostState" "le_generation s1 = le_generation s + 1"
    using assms(2,3) by (auto simp: renewal_round_def mark_lost_def mark_reclaiming_def mark_recovering_def)
  have s2: "le_lifecycle s2 = Ready" "le_generation s2 = le_generation s1"
    using assms(4) by (auto simp: renewal_round_def mark_ready_def record_activity_def)
  show "going1" "le_lifecycle s1 = LostState" using s1 by simp_all
  show "le_generation s2 \<noteq> le_generation s" using s1 s2 by simp
  show "snd (finish_stateful now s2 (le_generation s) operation) = Ok ()"
    using s2(1) by (simp add: finish_stateful_Ok)
qed

theorem stale_generation_accepted_witness:
  "let s = lease_ready 0 1 90; recover = (\<lambda>s. (mark_lost (mark_reclaiming s), Err (Rpc [])));
       (s1, _) = renewal_round (Some recover) (Replied 5 (Err (Nfs4 NFS4ERR_STALE_CLIENTID))) 6 False s;
       (s2, _) = renewal_round (Some recover) (Replied 7 (Ok ())) 7 False s1
   in begin_stateful (\<lambda>_. s) ''lock'' 0 = Some (Ok 1) \<and> le_lifecycle s1 = LostState \<and> le_generation s2 \<noteq> 1
      \<and> snd (finish_stateful 8 s2 1 ''lock'') = Ok ()"
proof -
  let ?s = "lease_ready 0 1 90" and ?recover = "\<lambda>s. (mark_lost (mark_reclaiming s), Err (Rpc []))"
  obtain s1 going1 where first:
    "renewal_round (Some ?recover) (Replied 5 (Err (Nfs4 NFS4ERR_STALE_CLIENTID))) 6 False ?s = (s1, going1)"
    by fastforce
  obtain s2 going2 where second: "renewal_round (Some ?recover) (Replied 7 (Ok ())) 7 False s1 = (s2, going2)"
    by fastforce
  have ready: "le_lifecycle ?s = Ready" "le_generation ?s = 1" by (simp_all add: lease_ready_def)
  show ?thesis
    using stale_generation_accepted [OF ready(1) first refl second] unfolding ready(2)
    by (simp only: Let_def first second prod.case simp_thms)
qed

text \<open>A RENEW that is answered while the mount is closing makes it ready again.\<close>

lemma renewal_reopens_closing:
  "le_lifecycle (fst (renewal_round recovery (Replied now (Ok ())) t stopping (mark_closing s))) = Ready"
  by (simp add: renewal_round_def mark_ready_def)

lemma renewal_per_mille_window: "900 \<le> renewal_per_mille sample \<and> renewal_per_mille sample \<le> 1100"
  using mod_less_divisor [of 201 "unat sample"] by (simp add: renewal_per_mille_def)

end
