(* ===== verification/Callback40.thy ===== *)
theory Callback40
  imports Compound40 Transitions "HOL-Library.AList"
begin

text \<open>
  The callback server of NFSv4.0 (\<open>src/src/nfs40/callback.rs\<close>): the delegations a mount holds, the RPC
  calls a server makes to recall them, and the worker that returns them.

  \<open>CallbackState\<close> is a record; a \<open>HashMap\<close> is an association list.  The channel to the worker is the
  list of waiting notifications, bounded by its capacity, with a flag for a receiver that is closed.
  The gates that order I/O against a recall hold no data.  No critical section of the code can panic,
  so no lock is ever poisoned and the errors for poisoned locks are not modelled.  Connections and the
  tasks that serve them are outside: a record arrives as the bytes of the stream, and \<open>rpc.call\<close> of
  the worker is a parameter.
\<close>

definition MAX_CALLBACK_RECORD :: nat where "MAX_CALLBACK_RECORD = 64 * 1024"
definition CALLBACK_REPLAY_CACHE_SIZE :: nat where "CALLBACK_REPLAY_CACHE_SIZE = 128"
definition MAX_CALLBACK_OPERATIONS :: u32 where "MAX_CALLBACK_OPERATIONS = 64"
definition RECALL_CHANNEL :: nat where "RECALL_CHANNEL = 64"

record delegation_record =
  dr_grant :: delegation_grant
  dr_generation :: u64
  dr_attributes :: "(u64 \<times> u64) option"
  dr_recalling :: bool

record replay_entry =
  re_xid :: u32
  re_call :: bytes
  re_reply :: bytes

record recall40 =
  r4_fh :: bytes
  r4_stateid :: bytes
  r4_generation :: u64
  r4_flush :: bool

record callback_state =
  c4_delegations :: "(bytes \<times> delegation_record) list"
  c4_generation :: u64
  c4_queue :: "recall40 list"
  c4_closed :: bool
  c4_open_publications :: u64
  c4_grants_received :: u64
  c4_recalls_received :: u64
  c4_returns_completed :: u64
  c4_returns_failed :: u64
  c4_service_healthy :: bool
  c4_worker_healthy :: bool
  c4_replies :: "replay_entry list"

definition callback_state_new :: callback_state where
  "callback_state_new =
     \<lparr>c4_delegations = [], c4_generation = 0, c4_queue = [], c4_closed = False, c4_open_publications = 0,
      c4_grants_received = 0, c4_recalls_received = 0, c4_returns_completed = 0, c4_returns_failed = 0,
      c4_service_healthy = True, c4_worker_healthy = True, c4_replies = []\<rparr>"

text \<open>The universal address of the listener: the octets of the local address and of the port.\<close>

definition universal_addr :: "nat list \<Rightarrow> u16 \<Rightarrow> string" where
  "universal_addr octets port =
     show_nat (octets ! 0) @ ''.'' @ show_nat (octets ! 1) @ ''.'' @ show_nat (octets ! 2) @ ''.''
     @ show_nat (octets ! 3) @ ''.'' @ show_nat (unat (drop_bit 8 port)) @ ''.'' @ show_nat (unat (port AND 0xFF))"

subsection \<open>State\<close>

definition cached_reply :: "callback_state \<Rightarrow> u32 \<Rightarrow> bytes \<Rightarrow> bytes option" where
  "cached_reply s xid call =
     map_option re_reply (find (\<lambda>r. re_xid r = xid \<and> re_call r = call) (c4_replies s))"

definition cache_reply :: "u32 \<Rightarrow> bytes \<Rightarrow> bytes \<Rightarrow> callback_state \<Rightarrow> callback_state" where
  "cache_reply xid call reply s =
     (let replies = (if length (c4_replies s) = CALLBACK_REPLAY_CACHE_SIZE then tl (c4_replies s)
                     else c4_replies s)
      in s\<lparr>c4_replies := replies @ [\<lparr>re_xid = xid, re_call = call, re_reply = reply\<rparr>]\<rparr>)"

definition try_send_recall :: "recall40 \<Rightarrow> callback_state \<Rightarrow> callback_state option" where
  "try_send_recall n s =
     (if c4_closed s \<or> RECALL_CHANNEL \<le> length (c4_queue s) then None
      else Some (s\<lparr>c4_queue := c4_queue s @ [n]\<rparr>))"

definition healthy :: "callback_state \<Rightarrow> bool" where
  "healthy s \<longleftrightarrow> c4_service_healthy s \<and> c4_worker_healthy s"

definition set_record :: "bytes \<Rightarrow> delegation_record \<Rightarrow> callback_state \<Rightarrow> callback_state" where
  "set_record fh r s = s\<lparr>c4_delegations := AList.update fh r (c4_delegations s)\<rparr>"



text \<open>\<open>return_all_delegations\<close>: every delegation that is not yet being recalled is marked at once and
  its notification is then sent, waiting for room in the channel.\<close>

definition record_notification :: "bytes \<Rightarrow> delegation_record \<Rightarrow> recall40" where
  "record_notification fh r =
     \<lparr>r4_fh = fh, r4_stateid = dg_stateid (dr_grant r), r4_generation = dr_generation r,
      r4_flush = (dg_kind (dr_grant r) = Deleg_Write)\<rparr>"


text \<open>\<open>send\<close> fails only when the receiver is closed; \<open>seen\<close> is the state at each send.\<close>

fun send_notifications :: "(nat \<Rightarrow> callback_state) \<Rightarrow> nat \<Rightarrow> recall40 list \<Rightarrow> unit result" where
  "send_notifications seen i [] = Ok ()"
| "send_notifications seen i (n # ns) =
     (if c4_closed (seen i)
      then Err (Rpc ''NFSv4.0 callback worker stopped before delegation cleanup'')
      else send_notifications seen (Suc i) ns)"



definition register_delegation ::
  "bytes \<Rightarrow> delegation_grant \<Rightarrow> u64 \<Rightarrow> (u64 \<times> u64) option \<Rightarrow> callback_state \<Rightarrow> callback_state" where
  "register_delegation fh grant generation attributes s =
     (let s = s\<lparr>c4_grants_received := c4_grants_received s + 1, c4_generation := generation\<rparr>;
          r = \<lparr>dr_grant = grant, dr_generation = generation, dr_attributes = attributes,
               dr_recalling = dg_recall grant\<rparr>;
          s = set_record fh r s
      in if dg_recall grant
         then (case try_send_recall (record_notification fh r) s of
                 Some s \<Rightarrow> s\<lparr>c4_recalls_received := c4_recalls_received s + 1\<rparr>
               | None \<Rightarrow> (set_record fh (r\<lparr>dr_recalling := False\<rparr>) s)\<lparr>c4_worker_healthy := False\<rparr>)
         else s)"




subsection \<open>The worker\<close>

definition settled_status :: "u32 \<Rightarrow> bool" where
  "settled_status status \<longleftrightarrow> status \<in> {10047, 10087, 10011, 10025, 10023, 10024}"

text \<open>\<open>settle_recall\<close>: the data of a write delegation are committed before the delegation is returned.
  \<open>call\<close> is \<open>rpc.call\<close>, with the number of the call.\<close>

definition flush_request :: "auth \<Rightarrow> recall40 \<Rightarrow> bytes" where
  "flush_request auth n =
     v0_encode_with_header (v0_commit (v0_putfh (v0_new (str_bytes ''delegation-flush'')) (r4_fh n)) 0 0) auth"

definition return_request :: "auth \<Rightarrow> bytes \<Rightarrow> bytes \<Rightarrow> bytes" where
  "return_request auth fh stateid =
     v0_encode_with_header (v0_delegreturn (v0_putfh (v0_new (str_bytes ''delegreturn'')) fh) stateid) auth"

definition settle_recall ::
  "(u32 \<Rightarrow> string option) \<Rightarrow> (nat \<Rightarrow> bytes \<Rightarrow> bytes result) \<Rightarrow> auth \<Rightarrow> recall40 \<Rightarrow> unit result" where
  "settle_recall stat_error call auth n =
     and_then
       (if r4_flush n
        then and_then (call 0 (flush_request auth n)) (\<lambda>response.
             and_then (decode_commit_response stat_error response) (\<lambda>_. Ok ()))
        else Ok ()) (\<lambda>_.
     and_then (call 1 (return_request auth (r4_fh n) (r4_stateid n))) (\<lambda>response.
       case decode_delegreturn_response stat_error response of
         Ok _ \<Rightarrow> Ok ()
       | Err (Nfs4 status) \<Rightarrow> if settled_status status then Ok () else Err (Nfs4 status)
       | Err e \<Rightarrow> Err e
       | Panic \<Rightarrow> Panic))"


subsection \<open>Reading a callback\<close>

definition cb_take_word :: "string \<Rightarrow> (u32, nfs_error) reader" where
  "cb_take_word what d =
     (if length d < 4 then Err (Xdr (what @ '' truncated'')) else Ok (u32_from_be (take 4 d), drop 4 d))"

definition cb_take_opaque :: "string \<Rightarrow> (bytes, nfs_error) reader" where
  "cb_take_opaque what =
     rbind (cb_take_word what) (\<lambda>len d.
       if length d < unat len then Err (Xdr (what @ '' truncated''))
       else if length d < pad_up (unat len) then Err (Xdr (what @ '' padding truncated''))
       else Ok (take (unat len) d, drop (pad_up (unat len)) d))"

definition cb_take_fixed :: "nat \<Rightarrow> string \<Rightarrow> (bytes, nfs_error) reader" where
  "cb_take_fixed n what d =
     (if length d < n then Err (Xdr (what @ '' truncated'')) else Ok (take n d, drop n d))"

text \<open>The loop over the words of a CB_GETATTR bitmap.\<close>

primrec requested_word :: "nat \<Rightarrow> u32 \<Rightarrow> (u32, nfs_error) reader" where
  "requested_word 0 requested = rreturn requested"
| "requested_word (Suc n) requested =
     rbind (cb_take_word ''CB_GETATTR bitmap word'') (\<lambda>word.
     requested_word n (if requested = 0 then word else requested))"

definition getattr_args :: "(bytes \<times> u32, nfs_error) reader" where
  "getattr_args =
     rbind (cb_take_opaque ''CB_GETATTR filehandle'') (\<lambda>fh.
     rbind (cb_take_word ''CB_GETATTR bitmap length'') (\<lambda>bitmap_words.
       if bitmap_words > 4 then rfail (Xdr ''CB_GETATTR bitmap exceeds bound'')
       else rbind (requested_word (unat bitmap_words) 0) (\<lambda>requested. rreturn (fh, requested))))"

text \<open>Status and result of CB_GETATTR.\<close>

definition attribute_value :: "u32 \<Rightarrow> u64 \<Rightarrow> u64 \<Rightarrow> bytes" where
  "attribute_value requested change filesize =
     (let returned = requested AND 0x18;
          value_length = ((if returned AND 0x08 \<noteq> 0 then 1 else 0) + (if returned AND 0x10 \<noteq> 0 then 1 else 0)) * 8
      in u32_to_be 1 @ u32_to_be returned @ u32_to_be value_length
         @ (if returned AND 0x08 \<noteq> 0 then u64_to_be change else [])
         @ (if returned AND 0x10 \<noteq> 0 then u64_to_be filesize else []))"

definition getattr_result :: "callback_state \<Rightarrow> bytes \<Rightarrow> u32 \<Rightarrow> u32 \<times> bytes" where
  "getattr_result s fh requested =
     (let refuse = (\<lambda>status :: u32. (status, u32_to_be 3 @ u32_to_be status)) in
      case map_of (c4_delegations s) fh of
        None \<Rightarrow> refuse 10001
      | Some r \<Rightarrow>
          if dg_kind (dr_grant r) \<noteq> Deleg_Write then refuse 10001
          else case dr_attributes r of
                 None \<Rightarrow> refuse 10008
               | Some (change, filesize) \<Rightarrow>
                   if dr_generation r = c4_generation s
                   then (0, u32_to_be 3 @ u32_to_be 0 @ attribute_value requested change filesize)
                   else refuse 10001)"

definition recall40_args :: "(bytes \<times> bool \<times> bytes, nfs_error) reader" where
  "recall40_args =
     rbind (cb_take_fixed 16 ''CB_RECALL stateid'') (\<lambda>stateid.
     rbind (cb_take_word ''CB_RECALL truncate'') (\<lambda>trunc.
     rbind (cb_take_opaque ''CB_RECALL filehandle'') (\<lambda>fh.
     rreturn (stateid, trunc \<noteq> 0, fh))))"

definition recall_status ::
  "bytes \<Rightarrow> bool \<Rightarrow> bytes \<Rightarrow> callback_state \<Rightarrow> callback_state \<times> u32" where
  "recall_status stateid trunc fh s =
     (case map_of (c4_delegations s) fh of
        None \<Rightarrow> (s, if c4_open_publications s \<noteq> 0 then 10008 else 10001)
      | Some r \<Rightarrow>
          if dr_generation r \<noteq> c4_generation s then (s, 10001)
          else if dg_stateid (dr_grant r) \<noteq> stateid then (s, 10025)
          else if dr_recalling r then (s, 0)
          else case try_send_recall \<lparr>r4_fh = fh, r4_stateid = stateid, r4_generation = dr_generation r,
                        r4_flush = (dg_kind (dr_grant r) = Deleg_Write \<and> \<not> trunc)\<rparr> s of
                 None \<Rightarrow> (s, 10008)
               | Some s \<Rightarrow>
                   ((set_record fh (r\<lparr>dr_recalling := True\<rparr>) s)
                      \<lparr>c4_recalls_received := c4_recalls_received s + 1\<rparr>, 0))"

text \<open>One operation: the state it leaves, and its status, its result and the rest of the call.\<close>

definition callback_op ::
  "bytes \<Rightarrow> callback_state \<Rightarrow> callback_state \<times> (u32 \<times> bytes \<times> bytes) result" where
  "callback_op d s =
     (case cb_take_word ''callback opcode'' d of
        Ok (opcode, d) \<Rightarrow>
          if opcode = 3 then
            (s, and_then (getattr_args d) (\<lambda>((fh, requested), d).
                  let (status, result) = getattr_result s fh requested in Ok (status, result, d)))
          else if opcode = 4 then
            (case recall40_args d of
               Ok ((stateid, trunc, fh), d) \<Rightarrow>
                 let (s, status) = recall_status stateid trunc fh s
                 in (s, Ok (status, u32_to_be 4 @ u32_to_be status, d))
             | Err e \<Rightarrow> (s, Err e)
             | Panic \<Rightarrow> (s, Panic))
          else (s, Ok (10044, u32_to_be opcode @ u32_to_be 10044, d))
      | Err e \<Rightarrow> (s, Err e)
      | Panic \<Rightarrow> (s, Panic))"

text \<open>The loop over the operations stops at the first status that is not zero.\<close>

fun callback_ops40 ::
  "nat \<Rightarrow> u32 \<Rightarrow> bytes \<Rightarrow> bytes \<Rightarrow> callback_state \<Rightarrow> callback_state \<times> (u32 \<times> u32 \<times> bytes \<times> bytes) result" where
  "callback_ops40 0 result_count results d s = (s, Ok (0, result_count, results, d))"
| "callback_ops40 (Suc n) result_count results d s =
     (case callback_op d s of
        (s, Ok (status, result, d)) \<Rightarrow>
          if status \<noteq> 0 then (s, Ok (status, result_count + 1, results @ result, d))
          else callback_ops40 n (result_count + 1) (results @ result) d s
      | (s, Err e) \<Rightarrow> (s, Err e)
      | (s, Panic) \<Rightarrow> (s, Panic))"

definition compound_result :: "u32 \<Rightarrow> bytes \<Rightarrow> nat \<Rightarrow> u32 \<Rightarrow> bytes \<Rightarrow> bytes" where
  "compound_result status padded_tag tag_len result_count results =
     u32_to_be status @ u32_to_be (word_of_nat tag_len) @ padded_tag @ u32_to_be result_count @ results"

definition word_at_offset :: "bytes \<Rightarrow> nat \<Rightarrow> u32" where
  "word_at_offset d i = u32_from_be (take 4 (drop i d))"

definition compound_reply :: "bytes \<Rightarrow> callback_state \<Rightarrow> callback_state \<times> bytes result" where
  "compound_reply body s =
     (if length body < 16 then (s, Err (Xdr ''CB_COMPOUND envelope truncated''))
      else
        let tag_len = unat (word_at_offset body 0); padded_tag = pad_up tag_len;
            operations_offset = 4 + padded_tag + 12 in
        if length body < operations_offset \<or> length body < 4 + tag_len
        then (s, Err (Xdr ''CB_COMPOUND envelope malformed''))
        else
          let minor_offset = 4 + padded_tag;
              minor = word_at_offset body minor_offset;
              callback_ident = word_at_offset body (minor_offset + 4);
              operation_count = word_at_offset body (minor_offset + 8);
              tag = take padded_tag (drop 4 body) in
          if minor \<noteq> 0 then (s, Ok (compound_result 10021 tag tag_len 0 []))
          else if callback_ident \<noteq> 1 then (s, Ok (compound_result 10001 tag tag_len 0 []))
          else if operation_count > MAX_CALLBACK_OPERATIONS then (s, Ok (compound_result 10018 tag tag_len 0 []))
          else
            (case callback_ops40 (unat operation_count) 0 [] (drop operations_offset body) s of
               (s, Ok (status, result_count, results, d)) \<Rightarrow>
                 if status = 0 \<and> d \<noteq> [] then (s, Err (Xdr ''CB_COMPOUND has trailing data''))
                 else (s, Ok (compound_result status tag tag_len result_count results))
             | (s, Err e) \<Rightarrow> (s, Err e)
             | (s, Panic) \<Rightarrow> (s, Panic)))"

subsection \<open>RPC\<close>

definition rpc_reply :: "u32 list \<Rightarrow> bytes" where
  "rpc_reply words = concat (map u32_to_be words)"

definition accepted_reply :: "u32 \<Rightarrow> u32 list \<Rightarrow> bytes" where
  "accepted_reply xid result = rpc_reply ([xid, 1, 0, 0, 0] @ result)"

definition accepted_body :: "u32 \<Rightarrow> bytes \<Rightarrow> bytes" where
  "accepted_body xid body = rpc_reply [xid, 1, 0, 0, 0, 0] @ body"

definition valid_callback_verifier :: "u32 \<Rightarrow> bytes \<Rightarrow> bool" where
  "valid_callback_verifier flavor verifier \<longleftrightarrow>
     (flavor = 0 \<and> verifier = []) \<or> (flavor = 1 \<and> length verifier = 4)"

text \<open>\<open>slice.get(a..b)\<close>, as the word it holds when \<open>b = a + 4\<close>.\<close>

definition get_word :: "bytes \<Rightarrow> nat \<Rightarrow> u32 option" where
  "get_word d i = (if i + 4 \<le> length d then Some (word_at_offset d i) else None)"

definition successful_single_recall :: "bytes \<Rightarrow> bytes \<Rightarrow> bool" where
  "successful_single_recall body reply =
     (case get_word body 0 of
        None \<Rightarrow> False
      | Some tag_length \<Rightarrow>
          let minor_offset = 4 + pad_up (unat tag_length) in
          get_word body (minor_offset + 8) = Some 1 \<and> get_word body (minor_offset + 12) = Some 4
          \<and> get_word reply 0 = Some 0)"

record rpc_auth_envelope =
  rae_credential_flavor :: u32
  rae_credential :: bytes
  rae_verifier_flavor :: u32
  rae_verifier :: bytes
  rae_body :: bytes

definition take_auth :: "bytes \<Rightarrow> (u32 \<times> bytes \<times> bytes) option" where
  "take_auth encoded =
     (case (get_word encoded 0, get_word encoded 4) of
        (Some flavor, Some len) \<Rightarrow>
          if unat len > 400 then None
          else if length encoded < 8 + unat len then None
          else if length encoded < 8 + pad_up (unat len) then None
          else Some (flavor, take (unat len) (drop 8 encoded), drop (8 + pad_up (unat len)) encoded)
      | _ \<Rightarrow> None)"

definition decode_rpc_auth :: "bytes \<Rightarrow> rpc_auth_envelope option" where
  "decode_rpc_auth encoded =
     (case take_auth encoded of
        None \<Rightarrow> None
      | Some (credential_flavor, credential, encoded) \<Rightarrow>
          (case take_auth encoded of
             None \<Rightarrow> None
           | Some (verifier_flavor, verifier, encoded) \<Rightarrow>
               Some \<lparr>rae_credential_flavor = credential_flavor, rae_credential = credential,
                     rae_verifier_flavor = verifier_flavor, rae_verifier = verifier, rae_body = encoded\<rparr>))"

definition valid_callback_credential :: "u32 \<Rightarrow> bytes \<Rightarrow> bool" where
  "valid_callback_credential flavor credential =
     (if flavor = 0 then credential = []
      else if flavor \<noteq> 1 \<or> length credential < 20 \<or> length credential mod 4 \<noteq> 0 then False
      else
        let credential = drop 4 credential in
        case get_word credential 0 of
          None \<Rightarrow> False
        | Some machine_length \<Rightarrow>
            if unat machine_length > 255 then False
            else
              let after_machine = 4 + pad_up (unat machine_length) in
              if length credential < after_machine then False
              else
                let tail_part = drop after_machine credential in
                if length tail_part < 12 then False
                else case get_word tail_part 8 of
                       None \<Rightarrow> False
                     | Some group_count \<Rightarrow>
                         unat group_count \<le> 16 \<and> length tail_part = 12 + unat group_count * 4)"

definition answer_compound :: "u32 \<Rightarrow> bytes \<Rightarrow> bytes \<Rightarrow> callback_state \<Rightarrow> callback_state \<times> bytes result" where
  "answer_compound xid call body s =
     (case compound_reply body s of
        (s, Ok compound) \<Rightarrow>
          let reply = accepted_body xid compound in
          (if successful_single_recall body compound then cache_reply xid call reply s else s, Ok reply)
      | (s, Err _) \<Rightarrow> (s, Ok (accepted_reply xid [4]))
      | (s, Panic) \<Rightarrow> (s, Panic))"

definition handle_rpc_call :: "bytes \<Rightarrow> callback_state \<Rightarrow> callback_state \<times> bytes result" where
  "handle_rpc_call call s =
     (if length call < 24 \<or> length call mod 4 \<noteq> 0
      then (s, Err (Xdr ''NFSv4.0 callback RPC call has an invalid length''))
      else
        let xid = word_at_offset call 0 in
        (case cached_reply s xid call of
           Some reply \<Rightarrow> (s, Ok reply)
         | None \<Rightarrow>
             if word_at_offset call 4 \<noteq> 0
             then (s, Err (Rpc ''NFSv4.0 callback RPC message is not a CALL''))
             else if word_at_offset call 8 \<noteq> 2 then (s, Ok (rpc_reply [xid, 1, 1, 0, 2, 2]))
             else if word_at_offset call 12 \<noteq> CB_PROGRAM40 then (s, Ok (accepted_reply xid [1]))
             else if word_at_offset call 16 \<noteq> 1 then (s, Ok (accepted_reply xid [2, 1, 1]))
             else if word_at_offset call 20 > 1 then (s, Ok (accepted_reply xid [3]))
             else
               (case decode_rpc_auth (drop 24 call) of
                  None \<Rightarrow> (s, Ok (rpc_reply [xid, 1, 1, 1, 1]))
                | Some env \<Rightarrow>
                    if \<not> valid_callback_credential (rae_credential_flavor env) (rae_credential env)
                       \<or> \<not> valid_callback_verifier (rae_verifier_flavor env) (rae_verifier env)
                    then (s, Ok (rpc_reply [xid, 1, 1, 1, 1]))
                    else if word_at_offset call 20 = 0
                    then (s, Ok (accepted_reply xid (if rae_body env = [] then [0] else [4])))
                    else answer_compound xid call (rae_body env) s)))"

subsection \<open>Records\<close>

text \<open>\<open>read_record\<close> on the bytes that still arrive; \<open>eof\<close> is the error with which the connection
  ends.\<close>

function read_record :: "io_error \<Rightarrow> bytes \<Rightarrow> bytes \<Rightarrow> (bytes option \<times> bytes, nfs_error) outcome" where
  "read_record eof record_bytes stream =
     (if length stream < 4
      then if io_kind eof = Kind_UnexpectedEof \<and> record_bytes = [] then Ok (None, []) else Err (Io eof)
      else
        let marker = u32_from_be (take 4 stream); len = unat (marker AND 0x7FFFFFFF);
            rest = drop 4 stream in
        if length record_bytes + len > MAX_CALLBACK_RECORD
        then Err (Xdr ''NFSv4.0 callback RPC record exceeds the configured bound'')
        else if length rest < len then Err (Io eof)
        else
          let record_bytes = record_bytes @ take len rest in
          if marker AND 0x80000000 \<noteq> 0 then Ok (Some record_bytes, drop len rest)
          else read_record eof record_bytes (drop len rest))"
  by pat_completeness auto
termination by (relation "measure (\<lambda>(eof, record_bytes, stream). length stream)") auto

declare read_record.simps [simp del]

text \<open>One call of \<open>serve_connection\<close>: the frame of the reply.\<close>

definition reply_frame :: "bytes \<Rightarrow> bytes" where
  "reply_frame reply = u32_to_be (0x80000000 OR word_of_nat (length reply)) @ reply"

subsection \<open>Panic freedom\<close>

lemma cb_take_word_safe [simp]: "cb_take_word what d \<noteq> Panic"
  by (simp add: cb_take_word_def)

lemma cb_take_opaque_safe [simp]: "cb_take_opaque what d \<noteq> Panic"
  by (auto simp: cb_take_opaque_def rbind_def and_then_eq_Panic)

lemma requested_word_safe [simp]: "requested_word n requested d \<noteq> Panic"
  by (induction n arbitrary: requested d) (auto simp: rbind_def and_then_eq_Panic rreturn_def)

lemma getattr_args_safe [simp]: "getattr_args d \<noteq> Panic"
  by (auto simp: getattr_args_def rbind_def and_then_eq_Panic rreturn_def rfail_def)

lemma recall40_args_safe [simp]: "recall40_args d \<noteq> Panic"
  by (auto simp: recall40_args_def rbind_def and_then_eq_Panic rreturn_def cb_take_fixed_def)

lemma callback_op_safe [simp]: "callback_op d s \<noteq> (t, Panic)"
  by (auto simp: callback_op_def and_then_eq_Panic case_prod_beta Let_def split: outcome.splits prod.splits)

lemma callback_ops40_safe [simp]: "callback_ops40 n result_count results d s \<noteq> (t, Panic)"
  by (induction n arbitrary: result_count results d s) (auto split: outcome.splits prod.splits)

lemma compound_reply_safe [simp]: "compound_reply body s \<noteq> (t, Panic)"
  by (auto simp: compound_reply_def Let_def split: outcome.splits prod.splits)

text \<open>The callback server answers or refuses every sequence of bytes; it never panics.\<close>

lemma answer_not_Panic:
  "(if c then (s, Ok x) else r) = (t, Panic) \<longleftrightarrow> \<not> c \<and> r = (t, Panic)"
  "(if c then (s, Err e) else r) = (t, Panic) \<longleftrightarrow> \<not> c \<and> r = (t, Panic)"
  by simp_all

lemma answer_compound_safe: "answer_compound xid call body s \<noteq> (t, Panic)"
  using compound_reply_safe [of body s]
  by (cases "compound_reply body s"; cases "snd (compound_reply body s)")
    (auto simp: answer_compound_def Let_def)

lemma handle_rpc_call_safe: "handle_rpc_call call s \<noteq> (t, Panic)"
proof (cases "cached_reply s (word_at_offset call 0) call")
  case None
  show ?thesis
  proof (cases "decode_rpc_auth (drop 24 call)")
    case (Some env)
    then show ?thesis
      by (simp only: handle_rpc_call_def Let_def None option.case answer_not_Panic answer_compound_safe simp_thms)
  qed (simp only: handle_rpc_call_def Let_def None option.case answer_not_Panic prod.inject
      outcome.distinct simp_thms)
qed (simp only: handle_rpc_call_def Let_def option.case answer_not_Panic prod.inject outcome.distinct simp_thms)

text \<open>A fragment that is not the last and fits is appended; every other one ends the record.\<close>

definition fragment_length :: "bytes \<Rightarrow> nat" where
  "fragment_length stream = unat (u32_from_be (take 4 stream) AND 0x7FFFFFFF)"

definition fragment_continues :: "bytes \<Rightarrow> bytes \<Rightarrow> bool" where
  "fragment_continues record_bytes stream \<longleftrightarrow> 4 \<le> length stream
     \<and> length record_bytes + fragment_length stream \<le> MAX_CALLBACK_RECORD
     \<and> fragment_length stream \<le> length (drop 4 stream) \<and> u32_from_be (take 4 stream) AND 0x80000000 = 0"

lemma read_record_continues:
  "fragment_continues record_bytes stream \<Longrightarrow> read_record eof record_bytes stream
     = read_record eof (record_bytes @ take (fragment_length stream) (drop 4 stream))
         (drop (fragment_length stream) (drop 4 stream))"
  by (subst read_record.simps) (simp add: fragment_continues_def fragment_length_def Let_def)

lemma read_record_ends:
  assumes "\<not> fragment_continues record_bytes stream"
  shows "read_record eof record_bytes stream \<noteq> Panic
    \<and> (\<forall>r rest. read_record eof record_bytes stream = Ok (Some r, rest) \<longrightarrow> length r \<le> MAX_CALLBACK_RECORD)"
  using assms unfolding fragment_continues_def fragment_length_def
  by (subst (1 2) read_record.simps) (simp add: Let_def)

lemma fragment_fits:
  assumes "fragment_continues record_bytes stream"
  shows "length (drop (fragment_length stream) (drop 4 stream)) < length stream"
    and "length (record_bytes @ take (fragment_length stream) (drop 4 stream)) \<le> MAX_CALLBACK_RECORD"
proof -
  have fits: "4 \<le> length stream \<and> length record_bytes + fragment_length stream \<le> MAX_CALLBACK_RECORD"
    using assms unfolding fragment_continues_def by (elim conjE) (intro conjI; assumption)
  from conjunct1 [OF fits] show "length (drop (fragment_length stream) (drop 4 stream)) < length stream"
    by simp
  from conjunct2 [OF fits]
  show "length (record_bytes @ take (fragment_length stream) (drop 4 stream)) \<le> MAX_CALLBACK_RECORD"
    unfolding length_append length_take by linarith
qed

text \<open>A record never grows past its bound, whatever the fragments say, and reading it never panics.\<close>

lemma read_record_bounded:
  assumes "length record_bytes \<le> MAX_CALLBACK_RECORD"
  shows "read_record eof record_bytes stream \<noteq> Panic
    \<and> (\<forall>r rest. read_record eof record_bytes stream = Ok (Some r, rest) \<longrightarrow> length r \<le> MAX_CALLBACK_RECORD)"
  using assms
proof (induction stream arbitrary: record_bytes rule: measure_induct_rule [of length])
  case (less stream)
  show ?case
  proof (cases "fragment_continues record_bytes stream")
    case True
    from less.IH [OF fragment_fits [OF True]] show ?thesis
      unfolding read_record_continues [OF True] .
  next
    case False
    then show ?thesis by (rule read_record_ends)
  qed
qed

subsection \<open>Repeated calls\<close>

text \<open>Later states of one compound: the recalls it accepted are recorded.\<close>

definition recalled_more :: "callback_state \<Rightarrow> callback_state \<Rightarrow> bool" where
  "recalled_more s t \<longleftrightarrow>
     c4_generation t = c4_generation s \<and> c4_open_publications t = c4_open_publications s
     \<and> c4_replies t = c4_replies s
     \<and> (\<forall>fh. case map_of (c4_delegations s) fh of
            None \<Rightarrow> map_of (c4_delegations t) fh = None
          | Some r \<Rightarrow> \<exists>recalling. map_of (c4_delegations t) fh = Some (r\<lparr>dr_recalling := recalling\<rparr>)
                       \<and> (dr_recalling r \<longrightarrow> recalling))"

lemma recalled_more_refl: "recalled_more s s"
proof -
  have "\<exists>recalling. r = r\<lparr>dr_recalling := recalling\<rparr> \<and> (dr_recalling r \<longrightarrow> recalling)" for r :: delegation_record
    by (intro exI [of _ "dr_recalling r"]) simp
  then show ?thesis by (auto simp: recalled_more_def split: option.splits)
qed

lemma recalled_moreD:
  assumes "recalled_more s t"
  shows "c4_generation t = c4_generation s" "c4_open_publications t = c4_open_publications s"
    "c4_replies t = c4_replies s"
    "map_of (c4_delegations s) fh = None \<Longrightarrow> map_of (c4_delegations t) fh = None"
    "map_of (c4_delegations s) fh = Some r \<Longrightarrow> \<exists>recalling.
       map_of (c4_delegations t) fh = Some (r\<lparr>dr_recalling := recalling\<rparr>) \<and> (dr_recalling r \<longrightarrow> recalling)"
proof -
  note d = assms [unfolded recalled_more_def]
  show "c4_generation t = c4_generation s" "c4_open_publications t = c4_open_publications s"
    "c4_replies t = c4_replies s" using d by blast+
  have "case map_of (c4_delegations s) fh of None \<Rightarrow> map_of (c4_delegations t) fh = None
      | Some r \<Rightarrow> \<exists>recalling. map_of (c4_delegations t) fh = Some (r\<lparr>dr_recalling := recalling\<rparr>)
                       \<and> (dr_recalling r \<longrightarrow> recalling)" using d by blast
  then show "map_of (c4_delegations s) fh = None \<Longrightarrow> map_of (c4_delegations t) fh = None"
    "map_of (c4_delegations s) fh = Some r \<Longrightarrow> \<exists>recalling.
       map_of (c4_delegations t) fh = Some (r\<lparr>dr_recalling := recalling\<rparr>) \<and> (dr_recalling r \<longrightarrow> recalling)"
    by (simp_all only: option.case)
qed

lemma recalled_more_trans:
  assumes "recalled_more s t" "recalled_more t u"
  shows "recalled_more s u"
proof -
  note st = recalled_moreD [OF assms(1)] and tu = recalled_moreD [OF assms(2)]
  have "case map_of (c4_delegations s) fh of None \<Rightarrow> map_of (c4_delegations u) fh = None
      | Some r \<Rightarrow> \<exists>recalling. map_of (c4_delegations u) fh = Some (r\<lparr>dr_recalling := recalling\<rparr>)
                       \<and> (dr_recalling r \<longrightarrow> recalling)" for fh
  proof (cases "map_of (c4_delegations s) fh")
    case None
    with st(4) [OF None] tu(4) [of fh] show ?thesis by simp
  next
    case (Some r)
    obtain a where a: "map_of (c4_delegations t) fh = Some (r\<lparr>dr_recalling := a\<rparr>)" "dr_recalling r \<longrightarrow> a"
      using st(5) [OF Some] by blast
    obtain b where b: "map_of (c4_delegations u) fh = Some (r\<lparr>dr_recalling := a, dr_recalling := b\<rparr>)"
      "dr_recalling (r\<lparr>dr_recalling := a\<rparr>) \<longrightarrow> b" using tu(5) [OF a(1)] by blast
    with a Some show ?thesis by (auto intro: exI [of _ b])
  qed
  then show ?thesis using st(1-3) tu(1-3) by (simp add: recalled_more_def)
qed

text \<open>The state in which a compound started has room for no more recalls than the one in which it
  ended.\<close>

lemma recall_status_more: "recall_status stateid trunc fh s = (t, status) \<Longrightarrow> recalled_more s t"
proof -
  assume status: "recall_status stateid trunc fh s = (t, status)"
  have "recalled_more s (s\<lparr>c4_queue := q, c4_delegations := AList.update fh (r\<lparr>dr_recalling := True\<rparr>) (c4_delegations s),
      c4_recalls_received := n\<rparr>)" if "map_of (c4_delegations s) fh = Some r" for r q n
    using recalled_more_refl [of s] that
    by (auto simp: recalled_more_def update_conv' split: option.splits intro: exI [of _ True])
  then show ?thesis
    using status recalled_more_refl [of s]
    by (auto simp: recall_status_def try_send_recall_def set_record_def split: option.splits if_splits)
qed

lemma recall_status_again:
  assumes "recall_status stateid trunc fh s = (t, status)" "recalled_more t u" "status \<noteq> 0 \<Longrightarrow> u = t"
  shows "recall_status stateid trunc fh u = (u, status)"
proof (cases "map_of (c4_delegations s) fh")
  case None
  then have t: "t = s" using assms(1) by (simp add: recall_status_def)
  show ?thesis
    using assms(1) None recalled_moreD(2,4) [OF assms(2)] unfolding t by (simp add: recall_status_def)
next
  case (Some r)
  show ?thesis
  proof (cases "status = 0")
    case True
    then have gen: "dr_generation r = c4_generation s" "dg_stateid (dr_grant r) = stateid"
      and gt: "c4_generation t = c4_generation s"
      and rec: "map_of (c4_delegations t) fh = Some (r\<lparr>dr_recalling := True\<rparr>)"
      using assms(1) Some
      by (auto simp: recall_status_def try_send_recall_def set_record_def update_conv'
          split: option.splits if_splits)
    obtain b where "map_of (c4_delegations u) fh = Some (r\<lparr>dr_recalling := b\<rparr>)" "b"
      using recalled_moreD(5) [OF assms(2) rec] by auto
    moreover have "c4_generation u = c4_generation s" using recalled_moreD(1) [OF assms(2)] gt by simp
    ultimately show ?thesis using gen True by (simp add: recall_status_def)
  next
    case False
    then have "t = s" using assms(1) Some
      by (auto simp: recall_status_def split: option.splits if_splits)
    with assms(1,3) False show ?thesis by simp
  qed
qed

lemma getattr_result_more:
  assumes "recalled_more s t"
  shows "getattr_result t fh requested = getattr_result s fh requested"
proof (cases "map_of (c4_delegations s) fh")
  case None
  then show ?thesis using recalled_moreD(4) [OF assms None] by (simp add: getattr_result_def)
next
  case (Some r)
  then obtain b where "map_of (c4_delegations t) fh = Some (r\<lparr>dr_recalling := b\<rparr>)"
    using recalled_moreD(5) [OF assms Some] by blast
  then show ?thesis using Some recalled_moreD(1) [OF assms]
    by (auto simp: getattr_result_def split: option.split)
qed

definition op_continues :: "(u32 \<times> bytes \<times> bytes) result \<Rightarrow> bool" where
  "op_continues r \<longleftrightarrow> (\<exists>result d. r = Ok (0, result, d))"

lemma callback_op_again:
  assumes "callback_op d s = (t, r)"
  shows "recalled_more s t" and "recalled_more t u \<Longrightarrow> (\<not> op_continues r \<Longrightarrow> u = t) \<Longrightarrow> callback_op d u = (u, r)"
proof -
  show "recalled_more s t"
    using assms recalled_more_refl [of s] recall_status_more [OF prod.collapse [symmetric]]
    by (auto simp: callback_op_def case_prod_beta Let_def split: outcome.splits if_splits prod.splits)
  assume more: "recalled_more t u" and stop: "\<not> op_continues r \<Longrightarrow> u = t"
  show "callback_op d u = (u, r)"
  proof (cases "cb_take_word ''callback opcode'' d")
    case (Ok w)
    obtain opcode e where w: "w = (opcode, e)" by (cases w)
    consider (getattr) "opcode = 3" | (recall) args e' where "opcode = 4" "recall40_args e = Ok (args, e')"
      | (other) "opcode \<noteq> 3" "opcode = 4 \<longrightarrow> \<not> is_Ok (recall40_args e)"
      by (cases "recall40_args e") auto
    then show ?thesis
    proof cases
      case getattr
      then have "t = s" using assms by (simp add: callback_op_def Ok w)
      with getattr assms more show ?thesis by (simp add: callback_op_def Ok w getattr_result_more)
    next
      case recall
      obtain stateid trunc fh where args: "args = (stateid, trunc, fh)" by (cases args)
      from recall assms obtain status where
        status: "recall_status stateid trunc fh s = (t, status)" "r = Ok (status, u32_to_be 4 @ u32_to_be status, e')"
        by (auto simp: callback_op_def Ok w args Let_def split: prod.splits)
      from stop status(2) have "status \<noteq> 0 \<Longrightarrow> u = t" by (auto simp: op_continues_def)
      from recall_status_again [OF status(1) more this] recall status(2) show ?thesis
        by (simp add: callback_op_def Ok w args Let_def)
    next
      case other
      with assms stop show ?thesis
        by (cases "recall40_args e") (auto simp: callback_op_def Ok w op_continues_def)
    qed
  qed (use assms in \<open>simp_all add: callback_op_def\<close>)
qed

lemma callback_ops40_again:
  "callback_ops40 n result_count results d s = (t, r)
   \<Longrightarrow> recalled_more s t \<and> callback_ops40 n result_count results d t = (t, r)"
proof (induction n arbitrary: result_count results d s)
  case (Suc n)
  obtain s1 o1 where op: "callback_op d s = (s1, o1)" by (cases "callback_op d s")
  note again = callback_op_again [OF op]
  show ?case
  proof (cases "op_continues o1")
    case True
    then obtain result e where o1: "o1 = Ok (0, result, e)" by (auto simp: op_continues_def)
    with Suc.prems op have rest: "callback_ops40 n (result_count + 1) (results @ result) e s1 = (t, r)" by simp
    from Suc.IH [OF this] have "recalled_more s1 t" "callback_ops40 n (result_count + 1) (results @ result) e t = (t, r)"
      by blast+
    moreover from again(2) [OF this(1)] True have "callback_op d t = (t, o1)" by blast
    ultimately show ?thesis using again(1) o1 by (auto intro: recalled_more_trans)
  next
    case False
    then have "t = s1" using Suc.prems op
      by (auto simp: op_continues_def split: outcome.splits prod.splits if_splits)
    moreover from again(2) [OF recalled_more_refl] have "callback_op d s1 = (s1, o1)" by blast
    ultimately show ?thesis using Suc.prems op again(1) by simp
  qed
qed (auto intro: recalled_more_refl)

lemma compound_reply_again:
  assumes "compound_reply body s = (t, r)"
  shows "recalled_more s t \<and> compound_reply body t = (t, r)"
proof -
  define n d where "n = unat (word_at_offset body (4 + pad_up (unat (word_at_offset body 0)) + 8))"
    and "d = drop (4 + pad_up (unat (word_at_offset body 0)) + 12) body"
  obtain s1 o1 where ops: "callback_ops40 n 0 [] d s = (s1, o1)" by (cases "callback_ops40 n 0 [] d s")
  note again = callback_ops40_again [OF ops]
  show ?thesis
    using assms again ops recalled_more_refl [of s]
    unfolding compound_reply_def Let_def n_def [symmetric] d_def [symmetric]
    by (cases o1) (auto split: if_split_asm)
qed

lemma cached_reply_cache:
  assumes "cached_reply s xid call = None" "c4_replies t = c4_replies s"
  shows "cached_reply (cache_reply xid call reply t) xid call = Some reply"
proof -
  have none: "find (\<lambda>r. re_xid r = xid \<and> re_call r = call) (c4_replies s) = None"
    using assms(1) by (simp add: cached_reply_def)
  have append: "find P (xs @ [x]) = Some x" if "find P xs = None" "P x" for P xs and x :: replay_entry
    using that by (induction xs) (auto split: if_splits)
  have tail: "find P (tl xs) = None" if "find P xs = None" for P and xs :: "replay_entry list"
    using that by (cases xs) (auto split: if_splits)
  show ?thesis
    unfolding cached_reply_def cache_reply_def Let_def assms(2)
    using append [OF none] append [OF tail [OF none]] by simp
qed

lemma answer_compound_again:
  assumes "answer_compound xid call body s = (t, r)" "cached_reply s xid call = None"
  shows "(\<exists>reply. r = Ok reply \<and> cached_reply t xid call = Some reply)
    \<or> cached_reply t xid call = None \<and> answer_compound xid call body t = (t, r)"
proof -
  obtain s1 c where comp: "compound_reply body s = (s1, c)" by (cases "compound_reply body s")
  note again = compound_reply_again [OF comp]
  have replies: "c4_replies s1 = c4_replies s" using recalled_moreD(3) again by blast
  then have none: "cached_reply s1 xid call = None" using assms(2) by (simp add: cached_reply_def)
  show ?thesis
  proof (cases c)
    case (Ok compound)
    show ?thesis
    proof (cases "successful_single_recall body compound")
      case True
      with assms(1) comp Ok cached_reply_cache [OF assms(2) replies] show ?thesis
        by (auto simp: answer_compound_def Let_def)
    next
      case False
      with assms(1) comp Ok none again show ?thesis by (auto simp: answer_compound_def Let_def)
    qed
  qed (use assms(1) comp none again in \<open>auto simp: answer_compound_def\<close>)
qed

text \<open>Only a CB_COMPOUND that passed every check changes the state.\<close>

lemma handle_rpc_call_executes:
  assumes "handle_rpc_call call s = (t, r)" "t \<noteq> s"
  obtains env :: rpc_auth_envelope where "answer_compound (word_at_offset call 0) call (rae_body env) s = (t, r)"
    and "cached_reply s (word_at_offset call 0) call = None" "\<not> (length call < 24 \<or> length call mod 4 \<noteq> 0)"
    and "\<And>u. cached_reply u (word_at_offset call 0) call = None
          \<Longrightarrow> handle_rpc_call call u = answer_compound (word_at_offset call 0) call (rae_body env) u"
proof -
  have branch: "(if c then (s, x) else y) = (t, z) \<longleftrightarrow> \<not> c \<and> y = (t, z)"
    for c and x z :: "bytes result" and y using assms(2) by auto
  have none: "cached_reply s (word_at_offset call 0) call = None"
  proof (cases "cached_reply s (word_at_offset call 0) call")
    case (Some reply)
    with assms show ?thesis by (simp only: handle_rpc_call_def Let_def option.case branch prod.inject
          simp_thms)
  qed
  show thesis
  proof (cases "decode_rpc_auth (drop 24 call)")
    case None
    with assms show ?thesis by (simp only: handle_rpc_call_def Let_def none option.case branch prod.inject
          simp_thms)
  next
    case (Some env)
    note executed = assms(1) [unfolded handle_rpc_call_def Let_def none Some option.case branch]
    from executed have answer: "answer_compound (word_at_offset call 0) call (rae_body env) s = (t, r)"
      and long: "\<not> (length call < 24 \<or> length call mod 4 \<noteq> 0)" by blast+
    show ?thesis
    proof (rule that [OF answer none long])
      show "handle_rpc_call call u = answer_compound (word_at_offset call 0) call (rae_body env) u"
        if "cached_reply u (word_at_offset call 0) call = None" for u
        using executed unfolding handle_rpc_call_def Let_def that Some option.case
        by (elim conjE) (simp only: if_False if_True not_True_eq_False not_False_eq_True simp_thms)
    qed
  qed
qed

text \<open>C32. A call that arrives again changes nothing more: handling the same bytes in the state that the
  first handling left gives the same answer and leaves that state as it is, whether the reply was
  cached or the call is executed again.  In particular a retransmitted CB_RECALL never queues a
  second return of the same delegation.\<close>

theorem callback_repeat_idempotent:
  "handle_rpc_call call (fst (handle_rpc_call call s)) = handle_rpc_call call s"
proof -
  let ?xid = "word_at_offset call 0"
  obtain t r where first: "handle_rpc_call call s = (t, r)" by (cases "handle_rpc_call call s")
  show ?thesis
  proof (cases "t = s")
    case True
    then show ?thesis by (simp add: first)
  next
    case False
    from handle_rpc_call_executes [OF first this] obtain env :: rpc_auth_envelope where
      answer: "answer_compound ?xid call (rae_body env) s = (t, r)" and none: "cached_reply s ?xid call = None"
      and long: "\<not> (length call < 24 \<or> length call mod 4 \<noteq> 0)"
      and same: "\<And>u. cached_reply u ?xid call = None
          \<Longrightarrow> handle_rpc_call call u = answer_compound ?xid call (rae_body env) u" by blast
    from answer_compound_again [OF answer none] show ?thesis
    proof (elim disjE exE conjE)
      fix reply assume "r = Ok reply" "cached_reply t ?xid call = Some reply"
      with long show ?thesis by (simp add: first handle_rpc_call_def [of call t] Let_def)
    qed (simp add: first same)
  qed
qed

subsection \<open>Attributes that were not requested\<close>

text \<open>C40. CB_GETATTR answers with the first word of the bitmap that is not zero, whatever its position.
  A server that asks for attributes of the second word only is told the change attribute and the
  size, which it did not ask for.\<close>

theorem getattr_ignores_word_position:
  assumes "map_of (c4_delegations s) fh = Some r" "dg_kind (dr_grant r) = Deleg_Write"
    and "dr_attributes r = Some (change, filesize)" "dr_generation r = c4_generation s" "length fh < 2 ^ 32"
  shows "(callback_op (u32_to_be 3 @ opaque_enc fh @ bitmap_enc [0, w] @ d) s
       = (s, Ok (0, u32_to_be 3 @ u32_to_be 0 @ attribute_value w change filesize, d)))
    \<and> (callback_op (u32_to_be 3 @ opaque_enc fh @ bitmap_enc [w, 0] @ d) s
       = (s, Ok (0, u32_to_be 3 @ u32_to_be 0 @ attribute_value w change filesize, d)))"
proof (intro conjI)
  have word: "cb_take_word what (u32_to_be v @ e) = Ok (v, e)" for what v e
    by (simp add: cb_take_word_def)
  have fh: "cb_take_opaque what (opaque_enc fh @ e) = Ok (fh, e)" for what e
    using assms(5)
    by (simp add: cb_take_opaque_def opaque_enc_def rbind_def word unat_of_nat_small pad_up_eq)
  have two: "bitmap_enc [a, b] @ e = u32_to_be 2 @ u32_to_be a @ u32_to_be b @ e" for a b e
    by (simp add: bitmap_enc_def)
  have args: "getattr_args (opaque_enc fh @ bitmap_enc [a, b] @ d) = Ok ((fh, if a = 0 then b else a), d)" for a b
  proof -
    have "requested_word 2 0 (u32_to_be a @ u32_to_be b @ d) = Ok (if a = 0 then b else a, d)"
      by (simp add: numeral_2_eq_2 rbind_def word rreturn_def)
    then show ?thesis
      unfolding two by (simp add: getattr_args_def rbind_def fh word rreturn_def)
  qed
  show "callback_op (u32_to_be 3 @ opaque_enc fh @ bitmap_enc [0, w] @ d) s
       = (s, Ok (0, u32_to_be 3 @ u32_to_be 0 @ attribute_value w change filesize, d))"
    "callback_op (u32_to_be 3 @ opaque_enc fh @ bitmap_enc [w, 0] @ d) s
       = (s, Ok (0, u32_to_be 3 @ u32_to_be 0 @ attribute_value w change filesize, d))"
    using assms(1-4) args by (auto simp: callback_op_def word getattr_result_def)
qed

definition sample_grant40 :: "bool \<Rightarrow> delegation_grant" where
  "sample_grant40 recall = \<lparr>dg_kind = Deleg_Write, dg_stateid = replicate 16 2, dg_recall = recall\<rparr>"

definition sample_delegation :: callback_state where
  "sample_delegation = register_delegation [5] (sample_grant40 False) 1 (Some (7, 4096)) callback_state_new"

theorem getattr_ignores_word_position_witness:
  "callback_op (u32_to_be 3 @ opaque_enc [5] @ bitmap_enc [0, 0x18] @ []) sample_delegation
   = (sample_delegation, Ok (0, u32_to_be 3 @ u32_to_be 0 @ attribute_value 0x18 7 4096, []))
   \<and> attribute_value 0x18 7 4096 = u32_to_be 1 @ u32_to_be 0x18 @ u32_to_be 16 @ u64_to_be 7 @ u64_to_be 4096"
  using getattr_ignores_word_position [of sample_delegation "[5]" _ 7 4096 "0x18" "[]"]
  by (simp add: sample_delegation_def register_delegation_def set_record_def callback_state_new_def
      sample_grant40_def attribute_value_def Let_def)

subsection \<open>Recalls are not forgotten\<close>




















declare map_of_eq_Some_iff [simp del] Some_eq_map_of_iff [simp del]






















text \<open>A registration under an older generation takes every other delegation out of use: recalls of it are
  refused as if its file handle were unknown, although it is still held.\<close>

lemma older_registration_hides_delegations:
  assumes "map_of (c4_delegations s) fh' = Some r" "dr_generation r = c4_generation s"
    and "generation < c4_generation s" "fh' \<noteq> fh"
  shows "snd (recall_status (dg_stateid (dr_grant r)) trunc fh'
           (register_delegation fh grant generation attributes s)) = 10001"
proof -
  let ?t = "register_delegation fh grant generation attributes s"
  have "map_of (c4_delegations ?t) fh' = Some r" "c4_generation ?t = generation"
    using assms(1,4)
    by (auto simp: register_delegation_def set_record_def try_send_recall_def update_conv' Let_def split: option.split)
  then show ?thesis using assms(2) less_imp_neq [OF assms(3)] by (simp add: recall_status_def)
qed

text \<open>A delegation is given up only after its data are stable: the flush of a write delegation was
  answered by a successful COMMIT, and the server accepted DELEGRETURN or no longer knows the
  delegation.\<close>

lemma settle_recall_Ok:
  assumes "settle_recall stat_error call auth n = Ok ()"
  shows "r4_flush n \<Longrightarrow> \<exists>response v. call 0 (flush_request auth n) = Ok response
           \<and> decode_commit_response stat_error response = Ok v"
    and "\<exists>response. call 1 (return_request auth (r4_fh n) (r4_stateid n)) = Ok response
           \<and> (is_Ok (decode_delegreturn_response stat_error response)
              \<or> (\<exists>status. settled_status status
                    \<and> decode_delegreturn_response stat_error response = Err (Nfs4 status)))"
proof -
  show "\<exists>response v. call 0 (flush_request auth n) = Ok response
           \<and> decode_commit_response stat_error response = Ok v" if "r4_flush n"
    using assms that by (auto simp: settle_recall_def)
  from assms obtain response where response: "call 1 (return_request auth (r4_fh n) (r4_stateid n)) = Ok response"
    and answer: "(case decode_delegreturn_response stat_error response of
         Ok _ \<Rightarrow> Ok ()
       | Err (Nfs4 status) \<Rightarrow> if settled_status status then Ok () else Err (Nfs4 status)
       | Err e \<Rightarrow> Err e
       | Panic \<Rightarrow> Panic) = Ok ()"
    by (simp add: settle_recall_def) blast
  show "\<exists>response. call 1 (return_request auth (r4_fh n) (r4_stateid n)) = Ok response
           \<and> (is_Ok (decode_delegreturn_response stat_error response)
              \<or> (\<exists>status. settled_status status
                    \<and> decode_delegreturn_response stat_error response = Err (Nfs4 status)))"
  proof (cases "decode_delegreturn_response stat_error response")
    case (Err e)
    with answer response show ?thesis by (cases e) (auto split: if_split_asm)
  qed (use answer response in auto)
qed

end
