(* ===== verification/Spec2Isabelle.thy ===== *)
theory Spec2Isabelle
  imports Striping Slots Compound41 Attrs Rpc_Call Callback41 Data_Server Compound40 State40 Lease40 Callback40
begin

text \<open>
  A verification of the NFS client library in \<open>src/\<close>: the parts of the Rust crate that decide what
  goes on the wire, what a reply means, who may use which protocol state, and what a failure is
  reported as.  File names below are relative to \<open>src/src/\<close>.

  \<^bold>\<open>The program.\<close>  A mount speaks one protocol version: NFSv3, NFSv4.0 or NFSv4.1/4.2.  Every
  version builds requests, sends them through the RPC client (\<open>rpc/mod.rs\<close>), which owns the connection,
  reconnects and retransmits, and decodes replies; a failure travels upwards as a structured error
  (\<open>error.rs\<close>) that says whether the request may have taken effect.  NFSv4.1 works in sessions
  (\<open>nfs41/session.rs\<close>): each request holds a slot of the session's slot table, and its COMPOUND begins
  with SEQUENCE (\<open>nfs41/compound.rs\<close>).  Layouts (\<open>nfs41/layout.rs\<close>) tell which bytes of a file lie on
  which data server; \<open>nfs41/pnfs_io.rs\<close> reads and writes them in parallel, falls back to the metadata
  server, and commits.  The server calls back on the session's backchannel (\<open>nfs41/callback.rs\<close>).
  NFSv4.0 has neither sessions nor layouts: it has open and lock owners with sequence ids
  (\<open>nfs40/state.rs\<close>), a lease that a background task renews (\<open>nfs40/lease.rs\<close>), and a callback server
  of its own (\<open>nfs40/callback.rs\<close>).

  \<^bold>\<open>How code is modelled.\<close>  A \<open>Result\<close> is the datatype \<open>outcome\<close> with a third case \<open>Panic\<close>, so that the
  absence of panics is proved and not assumed; buffers are byte lists and every read that Rust would
  panic on panics in the model.  Integers are words of their width where they can wrap.  A struct is a
  record, a \<open>HashMap\<close> an association list or a map, an \<open>Arc<Mutex<_>>\<close> an index into a heap.  Code that
  suspends is either split at its await points and composed into a step relation (slot table,
  layout manager, callback worker), or takes the state that it finds after each await, the clock, the
  random numbers and the replies of the network as parameters: a function of the number of the call.
  A theorem then holds for every behaviour of the other tasks, the network and the clock.  The XDR
  types and the status table that the build generates from \<open>.x\<close> files are parameters
  (\<open>stat_error\<close>: the name of a known status).

  \<^bold>\<open>Theories.\<close>
  \<^item> \<open>NFS_Prelude\<close>: words, \<open>outcome\<close>, buffer readers and the rules for panic freedom, the named
    collections \<open>reader_simps\<close>, \<open>reader_safe\<close>, \<open>roundtrip\<close>.  \<open>Std_Text\<close>: the text operations of the
    standard library that the client uses.  \<open>Transitions\<close>: reachability, and the locale
    \<open>inductive_invariant\<close>, the contract of a state machine with its invariant.
  \<^item> \<open>Errors\<close> (\<open>error.rs\<close>): the error tree, the queries on it, the classification of a failure after
    sending.  Shown: a mutation that was sent and not answered is never reported as safe to retry.
  \<^item> \<open>Xdr\<close>, \<open>Acl\<close>, \<open>Attrs\<close> (\<open>nfs4/compound.rs\<close>, \<open>nfs4/acl.rs\<close>, \<open>nfs4/attrs.rs\<close>): XDR primitives with the
    locale \<open>codec\<close> (decoding an encoding returns the value and the rest), access control lists, the
    attribute table.  Shown: round trips, and that decoding any set of attributes consumes exactly
    their encodings.
  \<^item> \<open>Mount_Common\<close> (\<open>mount.rs\<close>): directory cursor, I/O sizes, write outcomes, open options.
    \<open>Retry_Budget\<close> (\<open>retry.rs\<close>): deadline and retry count of a budget; shown: at most sixteen retries.
  \<^item> \<open>Rpc_Wire\<close>, \<open>Rpc_Call\<close> (\<open>rpc/auth.rs\<close>, \<open>rpc/header.rs\<close>, \<open>rpc/mod.rs\<close>): credentials, headers, record
    marking; one call with its retransmissions.  Shown: a record in any fragmentation is reassembled;
    a call is transmitted at most as often as its policy allows; when \<open>NotSent\<close> can be believed.
  \<^item> \<open>Slots\<close>, \<open>Session\<close> (\<open>nfs41/session.rs\<close>): the slot table as a step relation, establishment of
    sessions, checks of SEQUENCE results, replacement of a session (locale \<open>fenced_store\<close>).  Shown: a
    slot has one holder, a fenced slot is not reused, limits stay within the offer, a session is
    replaced once per generation; and a table that can wedge.
  \<^item> \<open>Compound41\<close>, \<open>V42\<close> (\<open>nfs41/compound.rs\<close>, \<open>nfs41/v42_ops.rs\<close>, \<open>nfs41/xattr.rs\<close>, \<open>nfs42.rs\<close>): builder,
    reply decoder, reply-cache policy, retry of a busy COMPOUND, NFSv4.2 replies.
  \<^item> \<open>Striping\<close>, \<open>Layout\<close>, \<open>Layout_Manager\<close> (\<open>nfs41/layout.rs\<close>): stripe arithmetic, decoders, caches of
    layouts, devices and dirty ranges with the fence of a replaced session.  Shown: the stripes of a
    range are its bytes in order; a dirty range is not lost while a commit of an older snapshot is in
    flight; caches of an old session are hidden at once.
  \<^item> \<open>Pnfs_Io\<close>, \<open>Pnfs_Write\<close>, \<open>Pnfs_Commit\<close>, \<open>Data_Server\<close> (\<open>nfs41/pnfs_io.rs\<close>): parallel reads and
    writes, commit and return of layouts.  Shown: a read returns the bytes stored where the layout
    puts them, a write plan sends every byte once, a batch falls back only if nothing was written,
    committed writes are covered by COMMIT and LAYOUTCOMMIT.
  \<^item> \<open>Callback41\<close> (\<open>nfs41/callback.rs\<close>): backchannel sessions and their reply cache.
  \<^item> \<open>Compound40\<close>, \<open>State40\<close>, \<open>Lease40\<close>, \<open>Callback40\<close> (\<open>nfs40/\<close>): all requests and replies of NFSv4.0,
    the tables of open and lock owners (refinement to a plain table), the lease, the callback server
    and the recall of delegations.  Shown: a busy request is repeated only if nothing in it can have
    taken effect, a repeated callback changes nothing, a recall is not forgotten.

  \<^bold>\<open>Bounds and fuel.\<close>  Loops over replies recurse on the bytes or the count that the code reads.  Loops
  that end by a budget recurse on what is left of it.  Two loops have no bound of their own: reading
  the lease generation until it is stable, and reading RPC records; the first is a \<open>partial_function\<close>
  whose result is proved when the generation is quiet, the second recurses on the bytes that arrive.

  \<^bold>\<open>Not modelled.\<close>  NFSv3 (\<open>nfs3/\<close>) is a set of calls around generated XDR types; \<open>nfs41/mount.rs\<close>,
  \<open>nfs41/state.rs\<close> and the request methods beside it, \<open>client_core.rs\<close>, \<open>fileio.rs\<close> and the URL parser of
  \<open>lib.rs\<close> are left out; so are the tasks that only move bytes between a socket and a channel, the
  start and stop of background tasks, the Python bindings, the benchmarks, and the text of messages
  where the code only shows it.
\<close>

end
